(* ===== verification/Prelude.thy ===== *)
theory Prelude
  imports Main "HOL-Library.Multiset"
begin

text \<open>
  Shared vocabulary of the development: the theorem collections the component
  proofs use, sums over lists that are updated at one index, the generic notion
  of a reachable state with its invariant rule, and first-match extraction from
  a list (the shape of every "oldest message of this type" in the program).
\<close>

named_theorems config \<open>the values of the compile-time constants of config.h and common.h\<close>
named_theorems section_defs \<open>definitions of the critical sections\<close>
named_theorems world_simps \<open>evaluation of the kernel operations on a world\<close>

text \<open>The case splits that evaluate one step of a process.\<close>

lemmas code_splits = if_splits option.splits

section \<open>Sums over lists updated at an index\<close>

lemma sum_list_map_update:
  fixes f :: "'a \<Rightarrow> int"
  assumes "i < length xs"
  shows "sum_list (map f (xs[i := x])) = sum_list (map f xs) - f (xs ! i) + f x"
  using assms
proof (induction xs arbitrary: i)
  case Nil
  then show ?case by simp
next
  case (Cons y ys)
  then show ?case by (cases i) auto
qed

lemma sum_list_map_nonneg:
  fixes f :: "'a \<Rightarrow> int"
  assumes "\<And>x. x \<in> set xs \<Longrightarrow> 0 \<le> f x"
  shows "0 \<le> sum_list (map f xs)"
  using assms by (induction xs) auto

lemma sum_list_map_mono_int:
  fixes f g :: "'a \<Rightarrow> int"
  assumes "\<And>x. x \<in> set xs \<Longrightarrow> f x \<le> g x"
  shows "sum_list (map f xs) \<le> sum_list (map g xs)"
  using assms by (induction xs) (auto simp: add_mono)

lemma sum_list_map_member_le:
  fixes f :: "'a \<Rightarrow> int"
  assumes "i < length xs" and "\<And>x. x \<in> set xs \<Longrightarrow> 0 \<le> f x"
  shows "f (xs ! i) \<le> sum_list (map f xs)"
  using assms
proof (induction xs arbitrary: i)
  case Nil
  then show ?case by simp
next
  case (Cons y ys)
  have nonneg: "0 \<le> sum_list (map f ys)"
    by (rule sum_list_map_nonneg) (use Cons.prems in auto)
  show ?case
  proof (cases i)
    case 0
    with nonneg show ?thesis by simp
  next
    case (Suc j)
    with Cons.IH [of j] Cons.prems have "f (ys ! j) \<le> sum_list (map f ys)" by auto
    moreover have "0 \<le> f y" using Cons.prems by simp
    ultimately show ?thesis using Suc by simp
  qed
qed

text \<open>
  The same for any cancellative sum, in the three shapes the invariants use. With
  multisets as values these describe who holds which message.
\<close>

lemma sum_update:
  fixes f :: "'a \<Rightarrow> 'b :: cancel_comm_monoid_add"
  assumes "i < length xs"
  shows "sum_list (map f (xs[i := x])) + f (xs ! i) = sum_list (map f xs) + f x"
  using assms
proof (induction xs arbitrary: i)
  case Nil
  then show ?case by simp
next
  case (Cons y ys)
  then show ?case
  proof (cases i)
    case 0
    then show ?thesis by (simp add: ac_simps)
  next
    case (Suc j)
    with Cons have "sum_list (map f (ys[j := x])) + f (ys ! j) = sum_list (map f ys) + f x" by simp
    then have "f y + (sum_list (map f (ys[j := x])) + f (ys ! j)) = f y + (sum_list (map f ys) + f x)"
      by simp
    with Suc show ?thesis by (simp add: ac_simps)
  qed
qed

lemma sum_update_same:
  fixes f :: "'a \<Rightarrow> 'b :: cancel_comm_monoid_add"
  shows "i < length xs \<Longrightarrow> f x = f (xs ! i) \<Longrightarrow> sum_list (map f (xs[i := x])) = sum_list (map f xs)"
  using sum_update [of i xs f x] by simp

lemma sum_update_gain:
  fixes f :: "'a \<Rightarrow> 'b :: cancel_comm_monoid_add"
  shows "i < length xs \<Longrightarrow> f (xs ! i) = 0 \<Longrightarrow> sum_list (map f (xs[i := x])) = sum_list (map f xs) + f x"
  using sum_update [of i xs f x] by simp

lemma sum_update_loss:
  fixes f :: "'a \<Rightarrow> 'b :: cancel_comm_monoid_add"
  shows "i < length xs \<Longrightarrow> f x = 0 \<Longrightarrow> sum_list (map f xs) = sum_list (map f (xs[i := x])) + f (xs ! i)"
  using sum_update [of i xs f x] by simp

text \<open>Two ledgers that change by the same amounts stay balanced.\<close>

lemma balance_both:
  fixes a b h q q' w w' :: "'b :: cancel_comm_monoid_add"
  assumes "q' + a = q + b" and "w' + a = w + b" and "q + h = w"
  shows "q' + h = w'"
proof -
  have "(q' + h) + a = (q' + a) + h" by (simp only: ac_simps)
  also have "\<dots> = (q + b) + h" by (simp only: assms(1))
  also have "\<dots> = (q + h) + b" by (simp only: ac_simps)
  also have "\<dots> = w' + a" by (simp only: assms)
  finally show ?thesis by simp
qed

lemma balance_move:
  fixes a b h h' q q' :: "'b :: cancel_comm_monoid_add"
  assumes "q' + b = q + a" and "h' + a = h + b"
  shows "q' + h' = q + h"
proof -
  have "(q' + h') + (a + b) = (q' + b) + (h' + a)" by (simp only: ac_simps)
  also have "\<dots> = (q + a) + (h + b)" by (simp only: assms)
  also have "\<dots> = (q + h) + (a + b)" by (simp only: ac_simps)
  finally show ?thesis by simp
qed

lemma in_sum_list_map: "x \<in># sum_list (map f xs) \<longleftrightarrow> (\<exists>y \<in> set xs. x \<in># f y)"
  by (induction xs) auto

lemma map_view_cong:
  assumes "map v xs = map v ys" and "\<And>x y. v x = v y \<Longrightarrow> f x = f y"
  shows "map f xs = map f ys"
proof (rule nth_equalityI)
  show "length (map f xs) = length (map f ys)"
    using assms(1) map_eq_imp_length_eq [of v xs v ys] by simp
  show "map f xs ! i = map f ys ! i" if "i < length (map f xs)" for i
    using assms that map_eq_imp_length_eq [of v xs v ys]
    by (metis length_map nth_map)
qed

lemma ball_map_view:
  assumes "map v xs = map v ys"
  shows "(\<forall>x \<in> set xs. P (v x)) \<longleftrightarrow> (\<forall>x \<in> set ys. P (v x))"
proof -
  have "(\<forall>x \<in> set zs. P (v x)) \<longleftrightarrow> list_all P (map v zs)" for zs by (simp add: list_all_iff)
  with assms show ?thesis by simp
qed

lemma set_update_casesE:
  assumes "x \<in> set (xs[i := y])"
  obtains "x = y" | "x \<in> set xs"
  using assms set_update_subset_insert by fastforce

section \<open>First match in a list\<close>

fun take_first :: "('m \<Rightarrow> bool) \<Rightarrow> 'm list \<Rightarrow> ('m \<times> 'm list) option" where
  "take_first P [] = None"
| "take_first P (x # xs) =
     (if P x then Some (x, xs)
      else map_option (\<lambda>(y, ys). (y, x # ys)) (take_first P xs))"

lemma take_first_None: "take_first P q = None \<longleftrightarrow> (\<forall>m \<in> set q. \<not> P m)"
  by (induction q) auto

lemma take_first_Some:
  "take_first P q = Some (m, q') \<Longrightarrow>
     P m \<and> (\<exists>us vs. q = us @ m # vs \<and> q' = us @ vs \<and> (\<forall>u \<in> set us. \<not> P u))"
proof (induction q arbitrary: m q')
  case Nil
  then show ?case by simp
next
  case (Cons x xs)
  show ?case
  proof (cases "P x")
    case True
    with Cons.prems show ?thesis by (metis append_Nil option.inject prod.inject take_first.simps(2) list.set(1) empty_iff)
  next
    case False
    with Cons.prems obtain ys where ys: "take_first P xs = Some (m, ys)" "q' = x # ys"
      by auto
    from Cons.IH [OF ys(1)] obtain us vs
      where "P m" "xs = us @ m # vs" "ys = us @ vs" "\<forall>u \<in> set us. \<not> P u" by blast
    with False ys(2) show ?thesis
      by (intro conjI exI [of _ "x # us"] exI [of _ vs]) auto
  qed
qed

lemma take_first_mset: "take_first P q = Some (m, q') \<Longrightarrow> mset q = add_mset m (mset q')"
  by (drule take_first_Some) auto

lemma take_first_pred: "take_first P q = Some (m, q') \<Longrightarrow> P m"
  by (drule take_first_Some) auto

lemma take_first_in: "take_first P q = Some (m, q') \<Longrightarrow> m \<in> set q"
  by (drule take_first_Some) auto

lemma find_SomeD: "find P xs = Some x \<Longrightarrow> x \<in> set xs \<and> P x"
  by (auto simp: find_Some_iff)

section \<open>Reachable states and inductive invariants\<close>

inductive reach :: "('s \<Rightarrow> bool) \<Rightarrow> ('s \<Rightarrow> 's \<Rightarrow> bool) \<Rightarrow> 's \<Rightarrow> bool"
  for start :: "'s \<Rightarrow> bool" and move :: "'s \<Rightarrow> 's \<Rightarrow> bool" where
  reach_start: "start s \<Longrightarrow> reach start move s"
| reach_move: "reach start move s \<Longrightarrow> move s t \<Longrightarrow> reach start move t"

text \<open>
  The contract between a transition system and one of its invariants. Each
  invariant of the system is an interpretation, whose proof obligations are the
  initial case and the preservation lemma.
\<close>

locale inductive_invariant =
  fixes start :: "'s \<Rightarrow> bool" and move :: "'s \<Rightarrow> 's \<Rightarrow> bool" and inv :: "'s \<Rightarrow> bool"
  assumes base: "start s \<Longrightarrow> inv s"
    and keep: "inv s \<Longrightarrow> move s t \<Longrightarrow> inv t"
begin

lemma always: "reach start move s \<Longrightarrow> inv s"
  by (induction rule: reach.induct) (auto intro: base keep)

lemma keep_star: "move\<^sup>*\<^sup>* s t \<Longrightarrow> inv s \<Longrightarrow> inv t"
  by (induction rule: rtranclp_induct) (auto intro: keep)

end

text \<open>A reachable state stays reachable under any number of further moves.\<close>

lemma reach_star: "move\<^sup>*\<^sup>* s t \<Longrightarrow> reach start move s \<Longrightarrow> reach start move t"
  by (induction rule: rtranclp_induct) (auto intro: reach_move)

end
