(* ===== verification/Common.thy ===== *)
theory Common
  imports Prelude
begin

text \<open>
  The data of include/common.h and include/config.h: compile-time constants, the
  semaphore indices, message types, and the structures that live in shared memory
  and travel through the message queues. C \<open>int\<close>, \<open>long\<close>, \<open>pid_t\<close> and \<open>time_t\<close> values are
  mathematical integers; by the laws of theory Conservation the people
  counters partition the people created, so they cannot wrap before 2^31 people have
  been created. The two fixed-size arrays indexed by bus and by office are
  functions of the index.
\<close>

section \<open>config.h\<close>

definition MAX_BUSES :: nat where "MAX_BUSES = 3"
definition BUS_CAPACITY :: int where "BUS_CAPACITY = 10"
definition BIKE_CAPACITY :: int where "BIKE_CAPACITY = 3"
definition BOARDING_INTERVAL :: int where "BOARDING_INTERVAL = 8"
definition MIN_RETURN_TIME :: int where "MIN_RETURN_TIME = 3"
definition MAX_RETURN_TIME :: int where "MAX_RETURN_TIME = 8"

definition TICKET_OFFICES :: nat where "TICKET_OFFICES = 2"
definition MAX_TICKET_QUEUE_REQUESTS :: int where "MAX_TICKET_QUEUE_REQUESTS = 200"
definition MAX_BOARDING_QUEUE_REQUESTS :: int where "MAX_BOARDING_QUEUE_REQUESTS = 100"

definition MAX_PASSENGERS :: int where "MAX_PASSENGERS = 20"
definition MIN_AGE :: int where "MIN_AGE = 3"
definition MAX_AGE :: int where "MAX_AGE = 70"
definition CHILD_AGE_LIMIT :: int where "CHILD_AGE_LIMIT = 8"
definition VIP_PERCENT :: int where "VIP_PERCENT = 1"
definition BIKE_PERCENT :: int where "BIKE_PERCENT = 20"
definition ADULT_WITH_CHILD_PERCENT :: int where "ADULT_WITH_CHILD_PERCENT = 15"
definition ADULT_MIN_AGE :: int where "ADULT_MIN_AGE = 18"

lemmas config_values [config, simp] =
  MAX_BUSES_def BUS_CAPACITY_def BIKE_CAPACITY_def BOARDING_INTERVAL_def
  MIN_RETURN_TIME_def MAX_RETURN_TIME_def TICKET_OFFICES_def
  MAX_TICKET_QUEUE_REQUESTS_def MAX_BOARDING_QUEUE_REQUESTS_def MAX_PASSENGERS_def
  MIN_AGE_def MAX_AGE_def CHILD_AGE_LIMIT_def VIP_PERCENT_def BIKE_PERCENT_def
  ADULT_WITH_CHILD_PERCENT_def ADULT_MIN_AGE_def

section \<open>Semaphores and message types\<close>

definition SEM_SHM_MUTEX :: nat where "SEM_SHM_MUTEX = 0"
definition SEM_LOG_MUTEX :: nat where "SEM_LOG_MUTEX = 1"
definition SEM_STATION_ENTRY :: nat where "SEM_STATION_ENTRY = 2"
definition SEM_ENTRANCE_PASSENGER :: nat where "SEM_ENTRANCE_PASSENGER = 3"
definition SEM_ENTRANCE_BIKE :: nat where "SEM_ENTRANCE_BIKE = 4"
definition SEM_BOARDING_MUTEX :: nat where "SEM_BOARDING_MUTEX = 5"
definition SEM_BUS_READY :: nat where "SEM_BUS_READY = 6"
definition SEM_TICKET_OFFICE_BASE :: nat where "SEM_TICKET_OFFICE_BASE = 7"
definition SEM_TICKET_OFFICE :: "nat \<Rightarrow> nat" where
  "SEM_TICKET_OFFICE i = SEM_TICKET_OFFICE_BASE + i"
definition SEM_TICKET_QUEUE_SLOTS :: nat where
  "SEM_TICKET_QUEUE_SLOTS = SEM_TICKET_OFFICE_BASE + TICKET_OFFICES"
definition SEM_BOARDING_QUEUE_SLOTS :: nat where
  "SEM_BOARDING_QUEUE_SLOTS = SEM_TICKET_QUEUE_SLOTS + 1"
definition SEM_COUNT :: nat where "SEM_COUNT = SEM_BOARDING_QUEUE_SLOTS + 1"

lemmas sem_indices [config, simp] =
  SEM_SHM_MUTEX_def SEM_LOG_MUTEX_def SEM_STATION_ENTRY_def SEM_ENTRANCE_PASSENGER_def
  SEM_ENTRANCE_BIKE_def SEM_BOARDING_MUTEX_def SEM_BUS_READY_def
  SEM_TICKET_OFFICE_BASE_def SEM_TICKET_OFFICE_def SEM_TICKET_QUEUE_SLOTS_def
  SEM_BOARDING_QUEUE_SLOTS_def SEM_COUNT_def

definition MSG_TICKET_REQUEST :: int where "MSG_TICKET_REQUEST = 1"
definition MSG_BOARD_REQUEST_VIP :: int where "MSG_BOARD_REQUEST_VIP = 1"
definition MSG_BOARD_REQUEST :: int where "MSG_BOARD_REQUEST = 2"

lemmas msg_types [config, simp] =
  MSG_TICKET_REQUEST_def MSG_BOARD_REQUEST_VIP_def MSG_BOARD_REQUEST_def

section \<open>Structures\<close>

record bus_state_t =
  bus_ident :: int
  at_station :: bool
  boarding_open :: bool
  passenger_count :: int
  bike_count :: int
  entering_count :: int
  departure_time :: int
  return_time :: int

record shm_data_t =
  simulation_running :: bool
  station_open :: bool
  boarding_allowed :: bool
  early_departure_flag :: bool
  spawning_stopped :: bool
  station_closed :: bool
  test_fill_queue :: bool
  total_passengers_created :: int
  passengers_transported :: int
  passengers_waiting :: int
  passengers_in_office :: int
  passengers_left_early :: int
  adults_created :: int
  children_created :: int
  vip_people_created :: int
  tickets_sold_people :: int
  tickets_denied :: int
  boarded_people :: int
  boarded_vip_people :: int
  buses :: "nat \<Rightarrow> bus_state_t"
  active_bus_id :: int
  ticket_office_busy :: "nat \<Rightarrow> int"
  tickets_issued :: int
  dispatcher_pid :: int
  driver_pids :: "nat \<Rightarrow> int"
  ticket_office_pids :: "nat \<Rightarrow> int"

record passenger_info_t =
  pid :: int
  age :: int
  has_bike :: bool
  is_vip :: bool
  has_ticket :: bool
  is_child :: bool
  has_child_with :: bool
  child_age :: int
  seat_count :: int
  assigned_bus :: int

record ticket_msg_t =
  tm_mtype :: int
  tm_passenger :: passenger_info_t
  tm_office_id :: int
  tm_approved :: bool

record boarding_msg_t =
  bm_mtype :: int
  bm_passenger :: passenger_info_t
  bm_bus_id :: int
  bm_approved :: bool
  bm_reason :: string

section \<open>The macros\<close>

definition IS_CHILD :: "int \<Rightarrow> bool" where
  "IS_CHILD a \<longleftrightarrow> a < CHILD_AGE_LIMIT"
definition BUS_HAS_PASSENGER_SPACE :: "bus_state_t \<Rightarrow> bool" where
  "BUS_HAS_PASSENGER_SPACE b \<longleftrightarrow> passenger_count b < BUS_CAPACITY"
definition BUS_HAS_BIKE_SPACE :: "bus_state_t \<Rightarrow> bool" where
  "BUS_HAS_BIKE_SPACE b \<longleftrightarrow> bike_count b < BIKE_CAPACITY"
definition BUS_ENTRANCE_CLEAR :: "bus_state_t \<Rightarrow> bool" where
  "BUS_ENTRANCE_CLEAR b \<longleftrightarrow> entering_count b = 0"

section \<open>Updating one bus of the shared array\<close>

definition upd_bus :: "nat \<Rightarrow> (bus_state_t \<Rightarrow> bus_state_t) \<Rightarrow> shm_data_t \<Rightarrow> shm_data_t" where
  "upd_bus b f s = s\<lparr>buses := (buses s)(b := f (buses s b))\<rparr>"

lemma buses_upd_bus [simp]:
  "buses (upd_bus b f s) = (buses s)(b := f (buses s b))"
  by (simp add: upd_bus_def)

lemma upd_bus_frame [simp]:
  "simulation_running (upd_bus b f s) = simulation_running s"
  "station_open (upd_bus b f s) = station_open s"
  "boarding_allowed (upd_bus b f s) = boarding_allowed s"
  "early_departure_flag (upd_bus b f s) = early_departure_flag s"
  "spawning_stopped (upd_bus b f s) = spawning_stopped s"
  "station_closed (upd_bus b f s) = station_closed s"
  "test_fill_queue (upd_bus b f s) = test_fill_queue s"
  "total_passengers_created (upd_bus b f s) = total_passengers_created s"
  "passengers_transported (upd_bus b f s) = passengers_transported s"
  "passengers_waiting (upd_bus b f s) = passengers_waiting s"
  "passengers_in_office (upd_bus b f s) = passengers_in_office s"
  "passengers_left_early (upd_bus b f s) = passengers_left_early s"
  "adults_created (upd_bus b f s) = adults_created s"
  "children_created (upd_bus b f s) = children_created s"
  "vip_people_created (upd_bus b f s) = vip_people_created s"
  "tickets_sold_people (upd_bus b f s) = tickets_sold_people s"
  "tickets_denied (upd_bus b f s) = tickets_denied s"
  "boarded_people (upd_bus b f s) = boarded_people s"
  "boarded_vip_people (upd_bus b f s) = boarded_vip_people s"
  "active_bus_id (upd_bus b f s) = active_bus_id s"
  "tickets_issued (upd_bus b f s) = tickets_issued s"
  "driver_pids (upd_bus b f s) = driver_pids s"
  by (simp_all add: upd_bus_def)

text \<open>The loop \<open>for (i = 0; i < MAX_BUSES; i++) total += field of bus i\<close>.\<close>

definition bus_total :: "(bus_state_t \<Rightarrow> int) \<Rightarrow> shm_data_t \<Rightarrow> int" where
  "bus_total f s = sum_list (map (\<lambda>i. f (buses s i)) [0..<MAX_BUSES])"

definition on_bus :: "shm_data_t \<Rightarrow> int" where
  "on_bus s = bus_total passenger_count s"

lemma bus_total_unfold: "bus_total f s = f (buses s 0) + f (buses s 1) + f (buses s 2)"
  by (simp add: bus_total_def upt_rec numeral_2_eq_2)

lemma bus_cases: "b < MAX_BUSES \<Longrightarrow> b = 0 \<or> b = 1 \<or> b = 2"
  by auto

lemma bus_total_upd:
  assumes "b < MAX_BUSES"
  shows "bus_total f (upd_bus b g s) = bus_total f s - f (buses s b) + f (g (buses s b))"
  using bus_cases [OF assms] by (auto simp: bus_total_unfold upd_bus_def)

lemma bus_total_cong:
  "(\<And>b. b < MAX_BUSES \<Longrightarrow> f (buses s b) = f (buses t b)) \<Longrightarrow> bus_total f s = bus_total f t"
  by (simp add: bus_total_unfold)

text \<open>The number of seats a request needs: \<open>seat_count > 0 ? seat_count : 1\<close>.\<close>

definition seats_of :: "passenger_info_t \<Rightarrow> int" where
  "seats_of p = (if seat_count p > 0 then seat_count p else 1)"

lemma seats_of_pos [simp]: "0 < seats_of p"
  by (simp add: seats_of_def)

lemma seats_add_nonneg [simp]: "0 \<le> x \<Longrightarrow> 0 \<le> x + seats_of p"
  using seats_of_pos [of p] by linarith

end
