(* ===== verification/Ipc.thy ===== *)
theory Ipc
  imports Common
begin

text \<open>
  The IPC layer of src/ipc.c, in two parts. The first is the wrappers as written:
  each is a retry loop over the answers of a system call, so it is a function of the
  list of answers the kernel gives (\<open>Blocked\<close> when the loop has not ended yet). The
  second is the kernel state the processes share (semaphore values, message queues,
  the shared memory segment) with the System V semantics of \<open>semop\<close>, \<open>msgsnd\<close> and
  \<open>msgrcv\<close>, and the net effect of each wrapper on it. The locales state what the
  callers rely on: a counting semaphore, and a queue with selection by message type.
\<close>

section \<open>The retry loops\<close>

datatype errno = EINTR | EIDRM | EINVAL | EAGAIN | ERANGE | ENOMSG | EOTHER

datatype 'a sysret = Ok 'a | Err errno

datatype 'a ret = Ret 'a | Exit_Failure | Blocked

fun sem_lock_loop :: "unit sysret list \<Rightarrow> int ret" where
  "sem_lock_loop [] = Blocked"
| "sem_lock_loop (Ok _ # rs) = Ret 0"
| "sem_lock_loop (Err e # rs) =
     (if e = EINTR then sem_lock_loop rs
      else if e = EIDRM \<or> e = EINVAL then Ret (-1)
      else Exit_Failure)"

definition sem_lock :: "int \<Rightarrow> unit sysret list \<Rightarrow> int ret" where
  "sem_lock semid rs = (if semid = -1 then Ret (-1) else sem_lock_loop rs)"

definition sem_trylock :: "int \<Rightarrow> unit sysret \<Rightarrow> int" where
  "sem_trylock semid r = (if semid = -1 then -1 else case r of Ok _ \<Rightarrow> 0 | Err e \<Rightarrow> -1)"

definition sem_unlock :: "int \<Rightarrow> unit sysret \<Rightarrow> unit ret" where
  "sem_unlock semid r =
     (if semid = -1 then Ret ()
      else case r of
        Ok _ \<Rightarrow> Ret ()
      | Err e \<Rightarrow>
          if e \<noteq> EINTR \<and> e \<noteq> EIDRM \<and> e \<noteq> EINVAL \<and> e \<noteq> ERANGE then Exit_Failure else Ret ())"

definition sem_getval :: "int \<Rightarrow> int sysret \<Rightarrow> int" where
  "sem_getval semid r = (if semid = -1 then 0 else case r of Ok v \<Rightarrow> v | Err e \<Rightarrow> 0)"

text \<open>
  The five senders run the same loop; they differ only in the errors for which no
  message is printed. The result is the return value and whether \<open>perror\<close> was called.
\<close>

fun msg_send_loop :: "errno set \<Rightarrow> unit sysret list \<Rightarrow> (int \<times> bool) ret" where
  "msg_send_loop silent [] = Blocked"
| "msg_send_loop silent (Ok _ # rs) = Ret (0, False)"
| "msg_send_loop silent (Err e # rs) =
     (if e = EINTR then msg_send_loop silent rs else Ret (-1, e \<notin> silent))"

definition msg_send_ticket :: "unit sysret list \<Rightarrow> (int \<times> bool) ret" where
  "msg_send_ticket = msg_send_loop {EIDRM}"
definition msg_send_ticket_resp :: "unit sysret list \<Rightarrow> (int \<times> bool) ret" where
  "msg_send_ticket_resp = msg_send_loop {EIDRM}"
definition msg_send_boarding :: "unit sysret list \<Rightarrow> (int \<times> bool) ret" where
  "msg_send_boarding = msg_send_loop {EIDRM, EINVAL}"
definition msg_send_boarding_resp :: "unit sysret list \<Rightarrow> (int \<times> bool) ret" where
  "msg_send_boarding_resp = msg_send_loop {EIDRM, EINVAL}"
definition msg_send_dispatch :: "unit sysret list \<Rightarrow> (int \<times> bool) ret" where
  "msg_send_dispatch = msg_send_loop {EIDRM}"

text \<open>A receiver returns the message, or -1 with \<open>errno\<close> set to the last error.\<close>

fun msg_recv_loop :: "errno set \<Rightarrow> 'm sysret list \<Rightarrow> ((errno + 'm) \<times> bool) ret" where
  "msg_recv_loop silent [] = Blocked"
| "msg_recv_loop silent (Ok m # rs) = Ret (Inr m, False)"
| "msg_recv_loop silent (Err e # rs) =
     (if e = EINTR then msg_recv_loop silent rs else Ret (Inl e, e \<notin> silent))"

definition msg_recv_ticket :: "ticket_msg_t sysret list \<Rightarrow> ((errno + ticket_msg_t) \<times> bool) ret" where
  "msg_recv_ticket = msg_recv_loop {ENOMSG, EIDRM}"
definition msg_recv_ticket_resp :: "ticket_msg_t sysret list \<Rightarrow> ((errno + ticket_msg_t) \<times> bool) ret" where
  "msg_recv_ticket_resp = msg_recv_loop {ENOMSG, EIDRM}"
definition msg_recv_boarding :: "boarding_msg_t sysret list \<Rightarrow> ((errno + boarding_msg_t) \<times> bool) ret" where
  "msg_recv_boarding = msg_recv_loop {ENOMSG, EIDRM, EINVAL}"
definition msg_recv_boarding_resp :: "boarding_msg_t sysret list \<Rightarrow> ((errno + boarding_msg_t) \<times> bool) ret" where
  "msg_recv_boarding_resp = msg_recv_loop {ENOMSG, EIDRM, EINVAL}"
definition msg_recv_dispatch :: "'m sysret list \<Rightarrow> ((errno + 'm) \<times> bool) ret" where
  "msg_recv_dispatch = msg_recv_loop {ENOMSG, EIDRM}"

subsection \<open>What the loops return\<close>

text \<open>The answers before the first one that is not an interruption do not matter.\<close>

abbreviation interrupted :: "nat \<Rightarrow> 'a sysret list" where
  "interrupted n \<equiv> replicate n (Err EINTR)"

lemma sem_lock_loop_interrupted [simp]:
  "sem_lock_loop (interrupted n @ rs) = sem_lock_loop rs"
  by (induction n) auto

lemma msg_send_loop_interrupted [simp]:
  "msg_send_loop S (interrupted n @ rs) = msg_send_loop S rs"
  by (induction n) auto

lemma msg_recv_loop_interrupted [simp]:
  "msg_recv_loop S (interrupted n @ rs) = msg_recv_loop S rs"
  by (induction n) auto

lemma sysret_list_cases:
  obtains (waiting) n where "rs = interrupted n"
  | (success) n v rest where "rs = interrupted n @ Ok v # rest"
  | (failure) n e rest where "rs = interrupted n @ Err e # rest" "e \<noteq> EINTR"
proof (induction rs arbitrary: thesis)
  case Nil
  from Nil(1) [of 0] show ?case by simp
next
  case (Cons r rs)
  show ?case
  proof (cases "r = Err EINTR")
    case True
    show ?thesis
    proof (rule Cons.IH)
      fix n assume "rs = interrupted n"
      with True Cons.prems(1) [of "Suc n"] show thesis by simp
    next
      fix n v rest assume "rs = interrupted n @ Ok v # rest"
      with True Cons.prems(2) [of "Suc n" v rest] show thesis by simp
    next
      fix n e rest assume "rs = interrupted n @ Err e # rest" "e \<noteq> EINTR"
      with True Cons.prems(3) [of "Suc n" e rest] show thesis by simp
    qed
  next
    case False
    with Cons.prems(2) [of 0] Cons.prems(3) [of 0] show ?thesis
      by (cases r) auto
  qed
qed

lemma msg_recv_loop_not_eintr: "msg_recv_loop S rs \<noteq> Ret (Inl EINTR, b)"
  by (cases rs rule: sysret_list_cases) (auto simp: msg_recv_loop_interrupted [of S _ "[]", simplified])

lemma msg_recv_loop_blocked:
  "msg_recv_loop S rs = Blocked \<longleftrightarrow> (\<forall>r \<in> set rs. r = Err EINTR)"
  by (induction S rs rule: msg_recv_loop.induct) auto

lemma sem_lock_loop_blocked:
  "sem_lock_loop rs = Blocked \<longleftrightarrow> (\<forall>r \<in> set rs. r = Err EINTR)"
  by (induction rs rule: sem_lock_loop.induct) auto

section \<open>The kernel objects\<close>

record world =
  shm :: shm_data_t
  sems :: "nat \<Rightarrow> int"
  ticket_q :: "ticket_msg_t list"
  ticket_resp_q :: "ticket_msg_t list"
  boarding_q :: "boarding_msg_t list"
  boarding_resp_q :: "boarding_msg_t list"
  ipc_alive :: bool

text \<open>The semaphore values \<open>ipc_create_all\<close> sets.\<close>

definition initial_sems :: "nat \<Rightarrow> int" where
  "initial_sems n =
     (if n = SEM_BUS_READY then 0
      else if n < SEM_TICKET_OFFICE_BASE then 1
      else if n < SEM_TICKET_OFFICE TICKET_OFFICES then 1
      else if n = SEM_TICKET_QUEUE_SLOTS then MAX_TICKET_QUEUE_REQUESTS
      else if n = SEM_BOARDING_QUEUE_SLOTS then MAX_BOARDING_QUEUE_REQUESTS
      else 0)"

definition SEMVMX :: int where [simp]: "SEMVMX = 32767"

text \<open>\<open>semop\<close> with one operation; no result means that the caller sleeps.\<close>

definition k_semop :: "nat \<Rightarrow> int \<Rightarrow> bool \<Rightarrow> world \<Rightarrow> (unit sysret \<times> world) option" where
  "k_semop n d nowait w =
     (if \<not> ipc_alive w then Some (Err EINVAL, w)
      else if sems w n + d < 0 then (if nowait then Some (Err EAGAIN, w) else None)
      else if d > 0 \<and> sems w n + d > SEMVMX then Some (Err ERANGE, w)
      else Some (Ok (), w\<lparr>sems := (sems w)(n := sems w n + d)\<rparr>))"

text \<open>
  \<open>msgrcv\<close> selection: type 0 takes the oldest message, a positive type the oldest
  message of that type, a negative type the oldest message of the lowest type not
  above its absolute value.
\<close>

definition k_select :: "('m \<Rightarrow> int) \<Rightarrow> int \<Rightarrow> 'm list \<Rightarrow> ('m \<times> 'm list) option" where
  "k_select ty t q =
     (if t = 0 then take_first (\<lambda>_. True) q
      else if t > 0 then take_first (\<lambda>m. ty m = t) q
      else let low = filter (\<lambda>x. x \<le> - t) (map ty q)
           in if low = [] then None
              else take_first (\<lambda>m. ty m = fold min (tl low) (hd low)) q)"

section \<open>The wrappers on the shared world\<close>

text \<open>
  \<open>w_lock\<close> is \<open>sem_lock\<close> fed with the kernel's answer: no result while the caller
  sleeps, otherwise whether it returned 0, and the new world. A process that ignores
  the return value goes on in both cases.
\<close>

definition w_lock :: "nat \<Rightarrow> world \<Rightarrow> (bool \<times> world) option" where
  "w_lock n w =
     (case k_semop n (-1) False w of
        None \<Rightarrow> None
      | Some (r, w') \<Rightarrow>
          (case sem_lock 0 [r] of Ret v \<Rightarrow> Some (v = 0, w') | _ \<Rightarrow> None))"

definition w_unlock :: "nat \<Rightarrow> world \<Rightarrow> world" where
  "w_unlock n w = (case k_semop n 1 False w of None \<Rightarrow> w | Some (r, w') \<Rightarrow> w')"

definition w_setval :: "nat \<Rightarrow> int \<Rightarrow> world \<Rightarrow> world" where
  "w_setval n v w = (if ipc_alive w then w\<lparr>sems := (sems w)(n := v)\<rparr> else w)"

definition send_ticket :: "ticket_msg_t \<Rightarrow> world \<Rightarrow> bool \<times> world" where
  "send_ticket m w =
     (if ipc_alive w then (True, w\<lparr>ticket_q := ticket_q w @ [m]\<rparr>) else (False, w))"
definition send_ticket_resp :: "ticket_msg_t \<Rightarrow> world \<Rightarrow> bool \<times> world" where
  "send_ticket_resp m w =
     (if ipc_alive w then (True, w\<lparr>ticket_resp_q := ticket_resp_q w @ [m]\<rparr>) else (False, w))"
definition send_boarding :: "boarding_msg_t \<Rightarrow> world \<Rightarrow> bool \<times> world" where
  "send_boarding m w =
     (if ipc_alive w then (True, w\<lparr>boarding_q := boarding_q w @ [m]\<rparr>) else (False, w))"
definition send_boarding_resp :: "boarding_msg_t \<Rightarrow> world \<Rightarrow> bool \<times> world" where
  "send_boarding_resp m w =
     (if ipc_alive w then (True, w\<lparr>boarding_resp_q := boarding_resp_q w @ [m]\<rparr>) else (False, w))"

text \<open>
  The receivers: no result while the caller sleeps, \<open>None\<close> inside for a return of -1
  (the queue was removed), else the message.
\<close>

definition recv_ticket :: "int \<Rightarrow> world \<Rightarrow> (ticket_msg_t option \<times> world) option" where
  "recv_ticket t w =
     (if \<not> ipc_alive w then Some (None, w)
      else case k_select tm_mtype t (ticket_q w) of
        None \<Rightarrow> None
      | Some (m, q) \<Rightarrow> Some (Some m, w\<lparr>ticket_q := q\<rparr>))"
definition recv_ticket_nowait :: "int \<Rightarrow> world \<Rightarrow> ticket_msg_t option \<times> world" where
  "recv_ticket_nowait t w =
     (case recv_ticket t w of None \<Rightarrow> (None, w) | Some r \<Rightarrow> r)"
definition recv_ticket_resp :: "int \<Rightarrow> world \<Rightarrow> (ticket_msg_t option \<times> world) option" where
  "recv_ticket_resp t w =
     (if \<not> ipc_alive w then Some (None, w)
      else case k_select tm_mtype t (ticket_resp_q w) of
        None \<Rightarrow> None
      | Some (m, q) \<Rightarrow> Some (Some m, w\<lparr>ticket_resp_q := q\<rparr>))"
definition recv_boarding :: "int \<Rightarrow> world \<Rightarrow> (boarding_msg_t option \<times> world) option" where
  "recv_boarding t w =
     (if \<not> ipc_alive w then Some (None, w)
      else case k_select bm_mtype t (boarding_q w) of
        None \<Rightarrow> None
      | Some (m, q) \<Rightarrow> Some (Some m, w\<lparr>boarding_q := q\<rparr>))"
definition recv_boarding_resp :: "int \<Rightarrow> world \<Rightarrow> (boarding_msg_t option \<times> world) option" where
  "recv_boarding_resp t w =
     (if \<not> ipc_alive w then Some (None, w)
      else case k_select bm_mtype t (boarding_resp_q w) of
        None \<Rightarrow> None
      | Some (m, q) \<Rightarrow> Some (Some m, w\<lparr>boarding_resp_q := q\<rparr>))"

definition upd_shm :: "(shm_data_t \<Rightarrow> shm_data_t) \<Rightarrow> world \<Rightarrow> world" where
  "upd_shm f w = w\<lparr>shm := f (shm w)\<rparr>"

subsection \<open>Evaluation rules\<close>

lemma w_lock_eq:
  "w_lock n w =
     (if \<not> ipc_alive w then Some (False, w)
      else if sems w n \<le> 0 then None
      else Some (True, w\<lparr>sems := (sems w)(n := sems w n - 1)\<rparr>))"
  by (simp add: w_lock_def k_semop_def sem_lock_def)

lemma w_lock_Some [world_simps]:
  "w_lock n w = Some (ok, w') \<longleftrightarrow>
     (\<not> ipc_alive w \<and> \<not> ok \<and> w' = w)
     \<or> (ipc_alive w \<and> ok \<and> 0 < sems w n \<and> w' = w\<lparr>sems := (sems w)(n := sems w n - 1)\<rparr>)"
  by (auto simp: w_lock_eq)

lemma w_unlock_eq:
  "w_unlock n w =
     (if \<not> ipc_alive w \<or> sems w n + 1 < 0 \<or> sems w n + 1 > SEMVMX then w
      else w\<lparr>sems := (sems w)(n := sems w n + 1)\<rparr>)"
  by (simp add: w_unlock_def k_semop_def)

lemma w_unlock_frame [simp]:
  "shm (w_unlock n w) = shm w"
  "ticket_q (w_unlock n w) = ticket_q w"
  "ticket_resp_q (w_unlock n w) = ticket_resp_q w"
  "boarding_q (w_unlock n w) = boarding_q w"
  "boarding_resp_q (w_unlock n w) = boarding_resp_q w"
  "ipc_alive (w_unlock n w) = ipc_alive w"
  by (simp_all add: w_unlock_eq)

lemmas world_defs [world_simps] =
  w_setval_def send_ticket_def send_ticket_resp_def send_boarding_def send_boarding_resp_def
  upd_shm_def

lemma k_select_mset: "k_select ty t q = Some (m, q') \<Longrightarrow> mset q = add_mset m (mset q')"
  by (auto simp: k_select_def Let_def dest: take_first_mset split: if_splits)

lemma k_select_pos: "k_select ty t q = Some (m, q') \<Longrightarrow> 0 < t \<Longrightarrow> ty m = t"
  by (auto simp: k_select_def dest: take_first_pred)

lemma k_select_in: "k_select ty t q = Some (m, q') \<Longrightarrow> m \<in> set q"
  using k_select_mset [of ty t q m q'] by (metis union_single_eq_member set_mset_mset)

lemma k_select_set: "k_select ty t q = Some (m, q') \<Longrightarrow> set q = insert m (set q')"
  by (drule k_select_mset) (metis set_mset_add_mset_insert set_mset_mset)

lemma fold_min_hd_tl:
  fixes xs :: "int list"
  assumes "xs \<noteq> []"
  shows "fold min (tl xs) (hd xs) = Min (set xs)"
  using assms by (cases xs) (auto simp: Min.set_eq_fold simp del: list.set)

lemma k_select_low_none: "k_select ty t q = None \<Longrightarrow> t < 0 \<Longrightarrow> m \<in> set q \<Longrightarrow> - t < ty m"
proof (rule ccontr)
  assume none: "k_select ty t q = None" and t: "t < 0" and m: "m \<in> set q" and "\<not> - t < ty m"
  define low where "low = filter (\<lambda>x. x \<le> - t) (map ty q)"
  have "ty m \<in> set low" using m \<open>\<not> - t < ty m\<close> by (simp add: low_def)
  then have ne: "low \<noteq> []" by auto
  then have "Min (set low) \<in> set low" by simp
  then obtain m' where "m' \<in> set q" "ty m' = Min (set low)" by (auto simp: low_def)
  then show False
    using none t ne fold_min_hd_tl [OF ne]
    by (auto simp: k_select_def Let_def low_def [symmetric] take_first_None)
qed

lemma k_select_low_min:
  assumes "k_select ty t q = Some (m, q')" and "t < 0"
  shows "ty m \<le> - t" and "x \<in> set q \<Longrightarrow> ty m \<le> ty x"
proof -
  define low where "low = filter (\<lambda>x. x \<le> - t) (map ty q)"
  have ne: "low \<noteq> []"
    using assms by (auto simp: k_select_def Let_def low_def [symmetric] split: if_splits)
  then have "Min (set low) \<in> set low" by simp
  then have le: "Min (set low) \<le> - t" by (simp add: low_def)
  have m: "ty m = Min (set low)"
    using assms ne fold_min_hd_tl [OF ne]
    by (auto simp: k_select_def Let_def low_def [symmetric] dest: take_first_pred)
  with le show "ty m \<le> - t" by simp
  show "ty m \<le> ty x" if "x \<in> set q"
  proof (cases "ty x \<le> - t")
    case True
    with that have "ty x \<in> set low" by (simp add: low_def)
    with m show ?thesis by simp
  next
    case False
    with m le show ?thesis by simp
  qed
qed

section \<open>What the callers rely on\<close>

text \<open>
  A message channel: sending appends, receiving removes exactly the message it
  returns, a receive by a positive type returns a message of that type, and neither
  touches the rest of the world. After the queue has been removed both fail.
\<close>

locale message_channel =
  fixes send :: "'m \<Rightarrow> world \<Rightarrow> bool \<times> world"
    and recv :: "int \<Rightarrow> world \<Rightarrow> ('m option \<times> world) option"
    and queue :: "world \<Rightarrow> 'm list"
    and kind :: "'m \<Rightarrow> int"
  assumes send_law: "send m w = (ok, w') \<Longrightarrow>
      ok = ipc_alive w \<and> queue w' = (if ipc_alive w then queue w @ [m] else queue w)"
    and send_frame: "send m w = (ok, w') \<Longrightarrow>
      shm w' = shm w \<and> sems w' = sems w \<and> ipc_alive w' = ipc_alive w"
    and recv_frame: "recv t w = Some (r, w') \<Longrightarrow>
      shm w' = shm w \<and> sems w' = sems w \<and> ipc_alive w' = ipc_alive w"
    and recv_dead: "recv t w = Some (None, w') \<Longrightarrow> \<not> ipc_alive w \<and> w' = w"
    and recv_mset: "recv t w = Some (Some m, w') \<Longrightarrow> mset (queue w) = add_mset m (mset (queue w'))"
    and recv_kind: "recv t w = Some (Some m, w') \<Longrightarrow> 0 < t \<Longrightarrow> kind m = t"
    and recv_blocks: "recv t w = None \<Longrightarrow> 0 < t \<Longrightarrow> m \<in> set (queue w) \<Longrightarrow> kind m \<noteq> t"
begin

lemma recv_member: "recv t w = Some (Some m, w') \<Longrightarrow> m \<in> set (queue w)"
  by (metis recv_mset set_mset_mset union_single_eq_member)

lemma recv_subset: "recv t w = Some (Some m, w') \<Longrightarrow> x \<in> set (queue w') \<Longrightarrow> x \<in> set (queue w)"
  by (metis recv_mset set_mset_mset insert_iff set_mset_add_mset_insert)

lemma recv_total:
  fixes f :: "'m \<Rightarrow> int"
  assumes "recv t w = Some (Some m, w')"
  shows "sum_list (map f (queue w')) = sum_list (map f (queue w)) - f m"
proof -
  have "mset (map f (queue w)) = add_mset (f m) (mset (map f (queue w')))"
    using recv_mset [OF assms] by simp
  then have "sum_mset (mset (map f (queue w))) = f m + sum_mset (mset (map f (queue w')))"
    by (metis sum_mset.add_mset)
  then show ?thesis by (simp only: sum_mset_sum_list)
qed

lemma send_total:
  fixes f :: "'m \<Rightarrow> int"
  assumes "send m w = (ok, w')"
  shows "sum_list (map f (queue w')) =
         sum_list (map f (queue w)) + (if ipc_alive w then f m else 0)"
  using send_law [OF assms] by simp

lemma own_message_received:
  assumes "m \<in> set (queue w)" and "0 < kind m" and "ipc_alive w"
    and unique: "\<And>x. x \<in> set (queue w) \<Longrightarrow> kind x = kind m \<Longrightarrow> x = m"
  shows "\<exists>w'. recv (kind m) w = Some (Some m, w')"
proof (cases "recv (kind m) w")
  case None
  with recv_blocks assms show ?thesis by blast
next
  case (Some p)
  then obtain r w' where p: "recv (kind m) w = Some (r, w')" by (cases p) auto
  then obtain x where r: "r = Some x"
    using recv_dead assms(3) by (cases r) auto
  with p recv_kind recv_member unique assms(2) have "x = m" by blast
  with p r show ?thesis by blast
qed

end

lemma k_select_none_pos: "k_select ty t q = None \<Longrightarrow> 0 < t \<Longrightarrow> m \<in> set q \<Longrightarrow> ty m \<noteq> t"
  by (auto simp: k_select_def take_first_None)

lemmas channel_defs = send_ticket_def send_ticket_resp_def send_boarding_def
  send_boarding_resp_def recv_ticket_def recv_ticket_resp_def recv_boarding_def
  recv_boarding_resp_def

interpretation ticket_ch: message_channel send_ticket recv_ticket ticket_q tm_mtype
  by unfold_locales
    (auto simp: channel_defs dest: k_select_mset k_select_pos k_select_none_pos
      split: if_splits option.splits)

interpretation ticket_resp_ch:
  message_channel send_ticket_resp recv_ticket_resp ticket_resp_q tm_mtype
  by unfold_locales
    (auto simp: channel_defs dest: k_select_mset k_select_pos k_select_none_pos
      split: if_splits option.splits)

interpretation boarding_ch: message_channel send_boarding recv_boarding boarding_q bm_mtype
  by unfold_locales
    (auto simp: channel_defs dest: k_select_mset k_select_pos k_select_none_pos
      split: if_splits option.splits)

interpretation boarding_resp_ch:
  message_channel send_boarding_resp recv_boarding_resp boarding_resp_q bm_mtype
  by unfold_locales
    (auto simp: channel_defs dest: k_select_mset k_select_pos k_select_none_pos
      split: if_splits option.splits)

end
