(* ===== verification/CString.thy ===== *)
theory CString
  imports Prelude
begin

text \<open>
  The C string functions the program uses: decimal printing of an \<open>int\<close> with
  \<open>%d\<close>, \<open>snprintf\<close> into a buffer of a given size, \<open>strcmp\<close>, \<open>strcasecmp\<close>, \<open>strncmp\<close> as comparisons of
  character lists without the terminating NUL, and \<open>strstr\<close>.
\<close>

definition digit_char :: "nat \<Rightarrow> char" where
  "digit_char d = char_of (48 + d)"

fun show_nat :: "nat \<Rightarrow> string" where
  "show_nat n = (if n < 10 then [digit_char n] else show_nat (n div 10) @ [digit_char (n mod 10)])"

declare show_nat.simps [simp del]

definition show_int :: "int \<Rightarrow> string" where
  "show_int i = (if i < 0 then ''-'' @ show_nat (nat (- i)) else show_nat (nat i))"

text \<open>\<open>snprintf (buf, n, ...)\<close> keeps at most n - 1 characters.\<close>

definition snprintf_trunc :: "nat \<Rightarrow> string \<Rightarrow> string" where
  "snprintf_trunc n s = take (n - 1) s"

lemma length_snprintf_trunc: "0 < n \<Longrightarrow> length (snprintf_trunc n s) < n"
  by (auto simp: snprintf_trunc_def)

fun strstr_found :: "string \<Rightarrow> string \<Rightarrow> bool" where
  "strstr_found needle [] = (needle = [])"
| "strstr_found needle (c # cs) =
     (take (length needle) (c # cs) = needle \<or> strstr_found needle cs)"

lemma strstr_found_iff: "strstr_found n h \<longleftrightarrow> (\<exists>us vs. h = us @ n @ vs)"
proof (induction h)
  case Nil
  then show ?case by auto
next
  case (Cons c cs)
  show ?case
  proof
    assume "strstr_found n (c # cs)"
    then consider "take (length n) (c # cs) = n" | "strstr_found n cs" by auto
    then show "\<exists>us vs. c # cs = us @ n @ vs"
    proof cases
      case 1
      then show ?thesis by (metis append_Nil append_take_drop_id)
    next
      case 2
      with Cons.IH show ?thesis by (metis append_Cons)
    qed
  next
    assume "\<exists>us vs. c # cs = us @ n @ vs"
    then obtain us vs where us: "c # cs = us @ n @ vs" by blast
    show "strstr_found n (c # cs)"
    proof (cases us)
      case Nil
      with us have "take (length n) (c # cs) = n" by simp
      then show ?thesis by simp
    next
      case (Cons u us')
      with us Cons.IH show ?thesis by auto
    qed
  qed
qed

definition to_lower :: "char \<Rightarrow> char" where
  "to_lower c = (let n = of_char c :: nat in if 65 \<le> n \<and> n \<le> 90 then char_of (n + 32) else c)"

definition strcasecmp_eq :: "string \<Rightarrow> string \<Rightarrow> bool" where
  "strcasecmp_eq a b \<longleftrightarrow> map to_lower a = map to_lower b"

definition strncmp_eq :: "nat \<Rightarrow> string \<Rightarrow> string \<Rightarrow> bool" where
  "strncmp_eq n a b \<longleftrightarrow> take n a = take n b"

end
