(* ===== verification/Driver.thy ===== *)
theory Driver
  imports Ipc CString
begin

text \<open>
  The driver process of src/driver.c. Pure decisions (\<open>can_board\<close>, \<open>should_depart\<close>,
  the search for the next bus) are functions of the shared state; every stretch of
  code between \<open>sem_lock(SEM_SHM_MUTEX)\<close> and \<open>sem_unlock(SEM_SHM_MUTEX)\<close> is one
  function on the shared state; \<open>driver_step\<close> is the whole process as a machine whose
  steps are those sections and the blocking system calls, in the order of \<open>main\<close>.
\<close>

section \<open>Environment of a process\<close>

text \<open>
  Settings inherited through the environment variables, and what one step reads from
  the operating system: the clock, a random number, and whether a fallible call that
  is not IPC succeeds.
\<close>

record cfg =
  perf_mode :: bool
  full_depart :: bool

record env_in =
  now :: int
  rnd :: nat
  call_ok :: bool

definition boarding_interval :: "cfg \<Rightarrow> int" where
  "boarding_interval c = (if perf_mode c then 1 else BOARDING_INTERVAL)"

section \<open>Decisions\<close>

definition can_board :: "nat \<Rightarrow> shm_data_t \<Rightarrow> boarding_msg_t \<Rightarrow> bool \<times> string" where
  "can_board b s m =
     (let bus = buses s b; p = bm_passenger m; seats_needed = seats_of p in
      if \<not> has_ticket p \<and> \<not> is_vip p then (False, ''No valid ticket'')
      else if \<not> boarding_allowed s then (False, ''Boarding blocked by dispatcher'')
      else if \<not> at_station bus then (False, ''Bus not at station'')
      else if \<not> boarding_open bus then (False, ''Bus boarding not open'')
      else if passenger_count bus + seats_needed > BUS_CAPACITY then
        (False, snprintf_trunc 64 (''Not enough seats ('' @ show_int seats_needed @ '' needed, ''
           @ show_int (BUS_CAPACITY - passenger_count bus) @ '' available)''))
      else if has_bike p \<and> bike_count bus \<ge> BIKE_CAPACITY then
        (False, snprintf_trunc 64 (''Bus at bicycle capacity ('' @ show_int (bike_count bus)
           @ ''/'' @ show_int BIKE_CAPACITY @ '')''))
      else (True, []))"

definition validate_boarding_request :: "boarding_msg_t \<Rightarrow> bool" where
  "validate_boarding_request m =
     (if bm_mtype m \<noteq> MSG_BOARD_REQUEST \<and> bm_mtype m \<noteq> MSG_BOARD_REQUEST_VIP then False
      else if pid (bm_passenger m) \<le> 0 then False
      else if seat_count (bm_passenger m) \<le> 0 \<or> seat_count (bm_passenger m) > 2 then False
      else if age (bm_passenger m) < MIN_AGE \<or> age (bm_passenger m) > MAX_AGE then False
      else True)"

text \<open>\<open>should_depart\<close>: the answer, and the new value of \<open>g_early_departure\<close>.\<close>

definition should_depart :: "cfg \<Rightarrow> bool \<Rightarrow> int \<Rightarrow> bus_state_t \<Rightarrow> bool \<times> bool" where
  "should_depart c early t bus =
     (let depart_time = departure_time bus; passengers = passenger_count bus;
          at_capacity = (passengers \<ge> BUS_CAPACITY) in
      if full_depart c \<and> at_capacity then (True, early)
      else if depart_time > 0 \<and> t \<ge> depart_time \<and> passengers > 0 then (True, early)
      else if early \<and> passengers > 0 then (True, False)
      else (False, early))"

definition check_shutdown :: "shm_data_t \<Rightarrow> bool" where
  "check_shutdown s =
     (if station_closed s \<and> passengers_waiting s > 0 then False else \<not> simulation_running s)"

text \<open>The search loop for the next bus at the station; -1 when there is none.\<close>

definition next_bus_candidates :: "nat \<Rightarrow> nat list" where
  "next_bus_candidates b = map (\<lambda>i. (b + 1 + i) mod MAX_BUSES) [0..<MAX_BUSES]"

definition find_next_bus :: "nat \<Rightarrow> shm_data_t \<Rightarrow> int" where
  "find_next_bus b s =
     (case find (\<lambda>k. at_station (buses s k) \<and> k \<noteq> b) (next_bus_candidates b) of
        None \<Rightarrow> -1 | Some k \<Rightarrow> int k)"

section \<open>Critical sections\<close>

definition driver_register :: "cfg \<Rightarrow> int \<Rightarrow> nat \<Rightarrow> int \<Rightarrow> shm_data_t \<Rightarrow> shm_data_t" where
  "driver_register c t b p s =
     (let s1 = upd_bus b (\<lambda>bus. bus\<lparr>at_station := True, boarding_open := True,
                 passenger_count := 0, bike_count := 0, entering_count := 0,
                 departure_time := t + boarding_interval c\<rparr>)
               (s\<lparr>driver_pids := (driver_pids s)(b := p)\<rparr>)
      in if b = 0 then s1\<lparr>active_bus_id := 0\<rparr> else s1)"

definition driver_poll :: "cfg \<Rightarrow> int \<Rightarrow> nat \<Rightarrow> bool \<Rightarrow> shm_data_t \<Rightarrow> (bool \<times> bool) \<times> shm_data_t" where
  "driver_poll c t b was_active s =
     (let bus = buses s b; am_active = (active_bus_id s = int b);
          s' = (if am_active \<and> \<not> was_active \<and> at_station bus
                then upd_bus b (\<lambda>u. u\<lparr>departure_time := t + boarding_interval c\<rparr>) s else s)
      in ((at_station bus \<and> boarding_open bus \<and> am_active, am_active), s'))"

definition switch_active :: "nat \<Rightarrow> shm_data_t \<Rightarrow> shm_data_t" where
  "switch_active b s =
     (let next_bus = find_next_bus b s in
      if next_bus \<ge> 0 then s\<lparr>active_bus_id := next_bus\<rparr> else s\<lparr>active_bus_id := -1\<rparr>)"

definition boarding_response :: "nat \<Rightarrow> boarding_msg_t \<Rightarrow> boarding_msg_t" where
  "boarding_response b m =
     \<lparr>bm_mtype = pid (bm_passenger m), bm_passenger = bm_passenger m, bm_bus_id = int b,
      bm_approved = False, bm_reason = []\<rparr>"

text \<open>First section of \<open>process_boarding_request\<close>: the decision, and the reservation of the door.\<close>

definition boarding_check :: "nat \<Rightarrow> boarding_msg_t \<Rightarrow> shm_data_t \<Rightarrow> boarding_msg_t \<times> shm_data_t" where
  "boarding_check b m s =
     (let (ok, reason) = can_board b s m;
          response = (boarding_response b m)\<lparr>bm_approved := ok, bm_reason := reason\<rparr>
      in (response,
          if ok then upd_bus b (\<lambda>u. u\<lparr>entering_count := entering_count u + 1\<rparr>) s else s))"

text \<open>Second section: the passenger takes the seats.\<close>

definition boarding_commit :: "nat \<Rightarrow> boarding_msg_t \<Rightarrow> shm_data_t \<Rightarrow> shm_data_t" where
  "boarding_commit b m s =
     (let p = bm_passenger m; seats = seats_of p;
          s1 = upd_bus b (\<lambda>u. u\<lparr>passenger_count := passenger_count u + seats,
                 bike_count := (if has_bike p then bike_count u + 1 else bike_count u),
                 entering_count := entering_count u - 1\<rparr>) s;
          w = passengers_waiting s1 - seats
      in s1\<lparr>passengers_waiting := (if w < 0 then 0 else w),
            boarded_people := boarded_people s1 + seats,
            boarded_vip_people :=
              (if is_vip p then boarded_vip_people s1 + seats else boarded_vip_people s1)\<rparr>)"

definition entrance_sem :: "boarding_msg_t \<Rightarrow> nat" where
  "entrance_sem m = (if has_bike (bm_passenger m) then SEM_ENTRANCE_BIKE else SEM_ENTRANCE_PASSENGER)"

definition return_delay :: "nat \<Rightarrow> int" where
  "return_delay r = MIN_RETURN_TIME + int r mod (MAX_RETURN_TIME - MIN_RETURN_TIME + 1)"

definition depart_leave :: "nat \<Rightarrow> int \<Rightarrow> nat \<Rightarrow> shm_data_t \<Rightarrow> shm_data_t" where
  "depart_leave r t b s =
     (let s1 = upd_bus b (\<lambda>u. u\<lparr>boarding_open := False, at_station := False,
                 return_time := t + return_delay r\<rparr>) s
      in s1\<lparr>passengers_transported := passengers_transported s1 + passenger_count (buses s1 b)\<rparr>)"

definition depart_return :: "cfg \<Rightarrow> int \<Rightarrow> nat \<Rightarrow> shm_data_t \<Rightarrow> shm_data_t" where
  "depart_return c t b s =
     (let s1 = upd_bus b (\<lambda>u. u\<lparr>at_station := True, passenger_count := 0, bike_count := 0,
                 boarding_open := True, departure_time := t + boarding_interval c\<rparr>) s;
          current_active = active_bus_id s1
      in if current_active < 0 \<or> \<not> at_station (buses s1 (nat current_active))
         then s1\<lparr>active_bus_id := int b\<rparr> else s1)"

definition driver_unregister :: "nat \<Rightarrow> shm_data_t \<Rightarrow> shm_data_t" where
  "driver_unregister b s =
     upd_bus b (\<lambda>u. u\<lparr>boarding_open := False\<rparr>) (s\<lparr>driver_pids := (driver_pids s)(b := 0)\<rparr>)"

text \<open>The active bus after a return, kept folded: proofs about the bus do not need it.\<close>

definition active_after_return :: "nat \<Rightarrow> shm_data_t \<Rightarrow> int" where
  "active_after_return b s =
     (if active_bus_id s < 0 \<or> nat (active_bus_id s) \<noteq> b \<and> \<not> at_station (buses s (nat (active_bus_id s)))
      then int b else active_bus_id s)"

lemma depart_return_eq:
  "depart_return c t b s =
     (upd_bus b (\<lambda>u. u\<lparr>at_station := True, passenger_count := 0, bike_count := 0,
        boarding_open := True, departure_time := t + boarding_interval c\<rparr>) s)
       \<lparr>active_bus_id := active_after_return b s\<rparr>"
  by (simp add: depart_return_def active_after_return_def Let_def upd_bus_def)

lemma boarding_commit_eq:
  "boarding_commit b m s =
     (upd_bus b (\<lambda>u. u\<lparr>passenger_count := passenger_count u + seats_of (bm_passenger m),
        bike_count := bike_count u + (if has_bike (bm_passenger m) then 1 else 0),
        entering_count := entering_count u - 1\<rparr>) s)
       \<lparr>passengers_waiting := max 0 (passengers_waiting s - seats_of (bm_passenger m)),
        boarded_people := boarded_people s + seats_of (bm_passenger m),
        boarded_vip_people := boarded_vip_people s
          + (if is_vip (bm_passenger m) then seats_of (bm_passenger m) else 0)\<rparr>"
  by (simp add: boarding_commit_def Let_def upd_bus_def)

lemma depart_leave_eq:
  "depart_leave r t b s =
     (upd_bus b (\<lambda>u. u\<lparr>boarding_open := False, at_station := False,
        return_time := t + return_delay r\<rparr>) s)
       \<lparr>passengers_transported := passengers_transported s + passenger_count (buses s b)\<rparr>"
  by (simp add: depart_leave_def Let_def upd_bus_def)

lemma switch_active_eq: "switch_active b s = s\<lparr>active_bus_id := max (-1) (find_next_bus b s)\<rparr>"
proof -
  have "-1 \<le> find_next_bus b s" by (simp add: find_next_bus_def split: option.splits)
  then show ?thesis by (auto simp: switch_active_def Let_def)
qed

lemmas driver_sections [section_defs] =
  driver_register_def driver_poll_def switch_active_eq boarding_check_def
  boarding_commit_eq depart_leave_eq depart_return_eq driver_unregister_def

section \<open>The process\<close>

text \<open>
  Program points of the driver. A point that holds a request or a response stands for
  the local variables \<open>request\<close> and \<open>response\<close> of the code; the flag of the departure
  points says whether it is the final departure before shutdown.
\<close>

datatype dpc =
    D_Start | D_Loop | D_FinalRead | D_Poll | D_ShouldPre | D_Recv
  | D_Check boarding_msg_t
  | D_EntLock boarding_msg_t boarding_msg_t
  | D_Board boarding_msg_t boarding_msg_t
  | D_EntUnlock boarding_msg_t boarding_msg_t
  | D_Reply boarding_msg_t
  | D_ShouldMid | D_ShouldLast | D_Switch
  | D_DepartWait bool | D_Depart bool | D_Travel bool
  | D_Exit | D_Done

record driver_st =
  d_pc :: dpc
  d_pid :: int
  d_running :: bool
  d_early :: bool
  d_was_active :: bool
  d_killed :: bool

definition init_driver :: "nat \<Rightarrow> int \<Rightarrow> driver_st" where
  "init_driver b p = \<lparr>d_pc = D_Start, d_pid = p, d_running = True, d_early = False,
     d_was_active = (b = 0), d_killed = False\<rparr>"

text \<open>A test of \<open>should_depart\<close> that goes on at one of two program points.\<close>

definition depart_test ::
  "cfg \<Rightarrow> env_in \<Rightarrow> nat \<Rightarrow> dpc \<Rightarrow> dpc \<Rightarrow> driver_st \<Rightarrow> world \<Rightarrow> driver_st \<times> world" where
  "depart_test c i b yes no d w =
     (let (ans, early) = should_depart c (d_early d) (now i) (buses (shm w) b)
      in (d\<lparr>d_early := early, d_pc := (if ans then yes else no)\<rparr>, w))"

text \<open>The condition of the loop in \<open>wait_for_entrance_clear\<close>: go round once more.\<close>

definition wait_for_entrance_clear :: "nat \<Rightarrow> bool \<Rightarrow> shm_data_t \<Rightarrow> bool" where
  "wait_for_entrance_clear b running s \<longleftrightarrow> entering_count (buses s b) > 0 \<and> running"

definition driver_step ::
  "cfg \<Rightarrow> env_in \<Rightarrow> nat \<Rightarrow> driver_st \<Rightarrow> world \<Rightarrow> (driver_st \<times> world) option" where
  "driver_step c i b d w =
     (case d_pc d of
        D_Start \<Rightarrow>
          Some (d\<lparr>d_pc := D_Loop\<rparr>, upd_shm (driver_register c (now i) b (d_pid d)) w)
      | D_Loop \<Rightarrow>
          if \<not> d_running d then Some (d\<lparr>d_pc := D_Exit\<rparr>, w)
          else if check_shutdown (shm w) then Some (d\<lparr>d_pc := D_FinalRead\<rparr>, w)
          else Some (d\<lparr>d_pc := D_Poll\<rparr>, w)
      | D_FinalRead \<Rightarrow>
          let bus = buses (shm w) b in
          if at_station bus \<and> (passenger_count bus > 0 \<or> entering_count bus > 0)
          then Some (d\<lparr>d_pc := D_DepartWait True\<rparr>, w)
          else Some (d\<lparr>d_pc := D_Exit\<rparr>, w)
      | D_Poll \<Rightarrow>
          let ((ready, am_active), s') = driver_poll c (now i) b (d_was_active d) (shm w);
              next_pc = (if \<not> ready then D_Loop else if perf_mode c then D_ShouldPre else D_Recv)
          in Some (d\<lparr>d_was_active := am_active, d_pc := next_pc\<rparr>, w\<lparr>shm := s'\<rparr>)
      | D_ShouldPre \<Rightarrow> Some (depart_test c i b D_Switch D_Recv d w)
      | D_Recv \<Rightarrow>
          (case recv_boarding (- MSG_BOARD_REQUEST) w of
             None \<Rightarrow> None
           | Some (None, w') \<Rightarrow> Some (d\<lparr>d_pc := D_ShouldLast\<rparr>, w')
           | Some (Some m, w') \<Rightarrow>
               Some (d\<lparr>d_pc := (if validate_boarding_request m then D_Check m else D_Loop)\<rparr>, w'))
      | D_Check m \<Rightarrow>
          let (r, s') = boarding_check b m (shm w)
          in Some (d\<lparr>d_pc := (if bm_approved r then D_EntLock m r else D_Reply r)\<rparr>, w\<lparr>shm := s'\<rparr>)
      | D_EntLock m r \<Rightarrow>
          (case w_lock (entrance_sem m) w of
             None \<Rightarrow> None
           | Some (ok, w') \<Rightarrow> Some (d\<lparr>d_pc := D_Board m r\<rparr>, w'))
      | D_Board m r \<Rightarrow>
          Some (d\<lparr>d_pc := D_EntUnlock m r\<rparr>, upd_shm (boarding_commit b m) w)
      | D_EntUnlock m r \<Rightarrow>
          Some (d\<lparr>d_pc := D_Reply r\<rparr>, w_unlock (entrance_sem m) w)
      | D_Reply r \<Rightarrow>
          let (ok, w') = send_boarding_resp r w
          in Some (d\<lparr>d_pc := (if perf_mode c then D_ShouldMid else D_ShouldLast)\<rparr>, w')
      | D_ShouldMid \<Rightarrow> Some (depart_test c i b D_Switch D_ShouldLast d w)
      | D_ShouldLast \<Rightarrow> Some (depart_test c i b D_Switch D_Loop d w)
      | D_Switch \<Rightarrow> Some (d\<lparr>d_pc := D_DepartWait False\<rparr>, upd_shm (switch_active b) w)
      | D_DepartWait fin \<Rightarrow>
          if wait_for_entrance_clear b (d_running d) (shm w) then Some (d, w)
          else Some (d\<lparr>d_pc := D_Depart fin\<rparr>, w)
      | D_Depart fin \<Rightarrow>
          Some (d\<lparr>d_pc := D_Travel fin\<rparr>, upd_shm (depart_leave (rnd i) (now i) b) w)
      | D_Travel fin \<Rightarrow>
          Some (d\<lparr>d_pc := (if fin then D_Exit else D_Loop)\<rparr>, upd_shm (depart_return c (now i) b) w)
      | D_Exit \<Rightarrow> Some (d\<lparr>d_pc := D_Done\<rparr>, upd_shm (driver_unregister b) w)
      | D_Done \<Rightarrow> None)"

text \<open>
  \<open>process_boarding_request\<close> as one sequential function, for a run in which no other
  process moves between its sections. \<open>None\<close> when the entrance is not free.
\<close>

definition process_boarding_request :: "nat \<Rightarrow> boarding_msg_t \<Rightarrow> world \<Rightarrow> world option" where
  "process_boarding_request b m w =
     (let (r, s') = boarding_check b m (shm w); w1 = w\<lparr>shm := s'\<rparr> in
      if bm_approved r then
        (case w_lock (entrance_sem m) w1 of
           None \<Rightarrow> None
         | Some (ok, w2) \<Rightarrow>
             Some (snd (send_boarding_resp r
               (w_unlock (entrance_sem m) (upd_shm (boarding_commit b m) w2)))))
      else Some (snd (send_boarding_resp r w1)))"

text \<open>\<open>depart_bus\<close> likewise: the bus leaves at time \<open>t\<close> and is back at time \<open>t'\<close>.\<close>

definition depart_bus :: "cfg \<Rightarrow> nat \<Rightarrow> int \<Rightarrow> int \<Rightarrow> nat \<Rightarrow> shm_data_t \<Rightarrow> shm_data_t" where
  "depart_bus c r t t' b s = depart_return c t' b (depart_leave r t b s)"

section \<open>Signals\<close>

definition driver_handle_shutdown :: "driver_st \<Rightarrow> driver_st" where
  "driver_handle_shutdown d = d\<lparr>d_running := False\<rparr>"
definition driver_handle_early_departure :: "driver_st \<Rightarrow> driver_st" where
  "driver_handle_early_departure d = d\<lparr>d_early := True\<rparr>"

section \<open>The decisions are right\<close>

lemma can_board_iff:
  "fst (can_board b s m) \<longleftrightarrow>
     (has_ticket (bm_passenger m) \<or> is_vip (bm_passenger m)) \<and> boarding_allowed s \<and>
     at_station (buses s b) \<and> boarding_open (buses s b) \<and>
     passenger_count (buses s b) + seats_of (bm_passenger m) \<le> BUS_CAPACITY \<and>
     (has_bike (bm_passenger m) \<longrightarrow> bike_count (buses s b) < BIKE_CAPACITY)"
  by (auto simp: can_board_def Let_def)

lemma can_board_reason: "fst (can_board b s m) \<Longrightarrow> snd (can_board b s m) = []"
  by (auto simp: can_board_def Let_def split: if_splits)

lemma next_bus_candidates_eq:
  "b < MAX_BUSES \<Longrightarrow> next_bus_candidates b = [(b + 1) mod 3, (b + 2) mod 3, b]"
  by (drule bus_cases) (auto simp: next_bus_candidates_def upt_rec)

lemma set_next_bus_candidates: "b < MAX_BUSES \<Longrightarrow> set (next_bus_candidates b) = {..<MAX_BUSES}"
  by (frule next_bus_candidates_eq) (drule bus_cases, auto)

text \<open>The two other buses are tried in cyclic order after the bus itself.\<close>

lemma find_next_bus_eq:
  assumes "b < MAX_BUSES"
  shows "find_next_bus b s =
    (if at_station (buses s ((b + 1) mod 3)) then int ((b + 1) mod 3)
     else if at_station (buses s ((b + 2) mod 3)) then int ((b + 2) mod 3)
     else -1)"
proof -
  have "(b + 1) mod 3 \<noteq> b" "(b + 2) mod 3 \<noteq> b" using assms by (simp, presburger)+
  then show ?thesis
    by (simp add: find_next_bus_def next_bus_candidates_eq [OF assms] del: One_nat_def)
qed

lemma find_next_bus_range:
  assumes "b < MAX_BUSES"
  shows "find_next_bus b s = -1 \<or>
    (\<exists>k < MAX_BUSES. find_next_bus b s = int k \<and> k \<noteq> b \<and> at_station (buses s k))"
proof (cases "find (\<lambda>k. at_station (buses s k) \<and> k \<noteq> b) (next_bus_candidates b)")
  case None
  then show ?thesis by (simp add: find_next_bus_def)
next
  case (Some k)
  then have "k \<in> set (next_bus_candidates b)" "at_station (buses s k)" "k \<noteq> b"
    by (auto simp: find_Some_iff)
  with Some show ?thesis
    using set_next_bus_candidates [OF assms] by (auto simp: find_next_bus_def)
qed

lemma find_next_bus_none:
  assumes "b < MAX_BUSES"
  shows "find_next_bus b s = -1 \<longleftrightarrow> (\<forall>k < MAX_BUSES. k \<noteq> b \<longrightarrow> \<not> at_station (buses s k))"
  using set_next_bus_candidates [OF assms]
  by (auto simp: find_next_bus_def find_None_iff split: option.splits dest!: find_SomeD)

lemma return_delay_bounds: "MIN_RETURN_TIME \<le> return_delay r \<and> return_delay r \<le> MAX_RETURN_TIME"
  by (simp add: return_delay_def)

section \<open>The steps by their effect\<close>

text \<open>
  The program points at which the driver holds no message, its bus is at the station
  and it has registered.
\<close>

fun d_idle :: "dpc \<Rightarrow> bool" where
  "d_idle D_Loop = True" | "d_idle D_FinalRead = True" | "d_idle D_Poll = True"
| "d_idle D_ShouldPre = True" | "d_idle D_Recv = True" | "d_idle D_ShouldMid = True"
| "d_idle D_ShouldLast = True" | "d_idle D_Switch = True" | "d_idle (D_DepartWait f) = True"
| "d_idle (D_Depart f) = True" | "d_idle D_Exit = True" | "d_idle D_Done = True"
| "d_idle _ = False"

lemmas driver_code = driver_step_def Let_def depart_test_def case_prod_beta

text \<open>
  Every step of a driver is one of fourteen; the invariants are proved by this rule
  rather than by unfolding the process.
\<close>

lemma driver_stepE [consumes 1, case_names start quiet poll discard receive admit deny
    lock board unlock reply switch depart return exit]:
  assumes "driver_step c e b d w = Some (d', w')"
  obtains
    "d_pc d = D_Start" "d_pc d' = D_Loop" "w' = upd_shm (driver_register c (now e) b (d_pid d)) w"
  | "d_idle (d_pc d)" "d_idle (d_pc d')" "w' = w"
  | "d_idle (d_pc d)" "d_idle (d_pc d')"
      "w' = w\<lparr>shm := snd (driver_poll c (now e) b (d_was_active d) (shm w))\<rparr>"
  | m q where "d_pc d = D_Recv" "d_pc d' = D_Loop" "ipc_alive w" "\<not> validate_boarding_request m"
      "k_select bm_mtype (-2) (boarding_q w) = Some (m, q)" "w' = w\<lparr>boarding_q := q\<rparr>"
  | m q where "d_pc d = D_Recv" "d_pc d' = D_Check m" "ipc_alive w" "validate_boarding_request m"
      "k_select bm_mtype (-2) (boarding_q w) = Some (m, q)" "w' = w\<lparr>boarding_q := q\<rparr>"
  | m where "d_pc d = D_Check m" "fst (can_board b (shm w) m)"
      "d_pc d' = D_EntLock m ((boarding_response b m)\<lparr>bm_approved := True\<rparr>)"
      "w' = upd_shm (upd_bus b (\<lambda>u. u\<lparr>entering_count := entering_count u + 1\<rparr>)) w"
  | m where "d_pc d = D_Check m" "\<not> fst (can_board b (shm w) m)"
      "d_pc d' = D_Reply ((boarding_response b m)\<lparr>bm_reason := snd (can_board b (shm w) m)\<rparr>)"
      "w' = w"
  | m r ok where "d_pc d = D_EntLock m r" "d_pc d' = D_Board m r"
      "w_lock (entrance_sem m) w = Some (ok, w')"
  | m r where "d_pc d = D_Board m r" "d_pc d' = D_EntUnlock m r"
      "w' = upd_shm (boarding_commit b m) w"
  | m r where "d_pc d = D_EntUnlock m r" "d_pc d' = D_Reply r" "w' = w_unlock (entrance_sem m) w"
  | r where "d_pc d = D_Reply r" "d_idle (d_pc d')" "w' = snd (send_boarding_resp r w)"
  | "d_pc d = D_Switch" "d_idle (d_pc d')" "w' = upd_shm (switch_active b) w"
  | f where "d_pc d = D_Depart f" "d_pc d' = D_Travel f"
      "w' = upd_shm (depart_leave (rnd e) (now e) b) w"
  | f where "d_pc d = D_Travel f" "d_idle (d_pc d')" "w' = upd_shm (depart_return c (now e) b) w"
  | "d_pc d = D_Exit" "d_pc d' = D_Done" "w' = upd_shm (driver_unregister b) w"
  using assms
proof (cases "d_pc d")
  case D_Recv
  with assms that(2,4,5) show ?thesis
    by (auto simp: driver_step_def recv_boarding_def split: if_splits option.splits prod.splits)
next
  case (D_Check m)
  have sec: "boarding_check b m (shm w) =
      ((boarding_response b m)\<lparr>bm_approved := fst (can_board b (shm w) m),
         bm_reason := snd (can_board b (shm w) m)\<rparr>,
       if fst (can_board b (shm w) m)
       then upd_bus b (\<lambda>u. u\<lparr>entering_count := entering_count u + 1\<rparr>) (shm w) else shm w)"
    by (simp add: boarding_check_def case_prod_beta Let_def)
  show ?thesis
  proof (cases "fst (can_board b (shm w) m)")
    case True
    with assms show ?thesis
      by (intro that(6) [OF D_Check])
        (auto simp: driver_step_def D_Check sec upd_shm_def can_board_reason boarding_response_def)
  next
    case False
    with assms show ?thesis
      by (intro that(7) [OF D_Check])
        (auto simp: driver_step_def D_Check sec boarding_response_def)
  qed
next
  case D_Start
  with assms that(1) show ?thesis by (auto simp: driver_code split: code_splits)
next
  case D_Loop
  with assms that(2) show ?thesis by (auto simp: driver_code split: code_splits)
next
  case D_FinalRead
  with assms that(2) show ?thesis by (auto simp: driver_code split: code_splits)
next
  case D_ShouldPre
  with assms that(2) show ?thesis by (auto simp: driver_code split: code_splits)
next
  case D_ShouldMid
  with assms that(2) show ?thesis by (auto simp: driver_code split: code_splits)
next
  case D_ShouldLast
  with assms that(2) show ?thesis by (auto simp: driver_code split: code_splits)
next
  case (D_DepartWait f)
  with assms that(2) show ?thesis by (auto simp: driver_code split: code_splits)
next
  case D_Poll
  with assms that(3) show ?thesis by (auto simp: driver_code split: code_splits)
next
  case (D_Reply r)
  with assms that(11) show ?thesis by (auto simp: driver_code split: code_splits)
next
  case D_Switch
  with assms that(12) show ?thesis by (auto simp: driver_code split: code_splits)
next
  case (D_Depart f)
  with assms that(13) show ?thesis by (auto simp: driver_code split: code_splits)
next
  case (D_Travel f)
  with assms that(14) show ?thesis by (auto simp: driver_code split: code_splits)
next
  case D_Exit
  with assms that(15) show ?thesis by (auto simp: driver_code split: code_splits)
next
  case (D_EntLock m r)
  with assms that(8) show ?thesis by (auto simp: driver_code split: code_splits)
next
  case (D_Board m r)
  with assms that(9) show ?thesis by (auto simp: driver_code split: code_splits)
next
  case (D_EntUnlock m r)
  with assms that(10) show ?thesis by (auto simp: driver_code split: code_splits)
next
  case D_Done
  with assms show ?thesis by (simp add: driver_step_def)
qed

lemma driver_step_frame:
  assumes "driver_step c e b d w = Some (d', w')"
  shows "d_pid d' = d_pid d \<and> d_killed d' = d_killed d \<and> ipc_alive w' = ipc_alive w
    \<and> simulation_running (shm w') = simulation_running (shm w)
    \<and> station_open (shm w') = station_open (shm w)
    \<and> station_closed (shm w') = station_closed (shm w)
    \<and> spawning_stopped (shm w') = spawning_stopped (shm w)
    \<and> boarding_allowed (shm w') = boarding_allowed (shm w)
    \<and> ticket_q w' = ticket_q w \<and> ticket_resp_q w' = ticket_resp_q w"
proof -
  have "d_pid d' = d_pid d \<and> d_killed d' = d_killed d"
    using assms
    by (auto simp: driver_step_def Let_def depart_test_def case_prod_beta
        split: dpc.splits if_splits option.splits)
  with assms show ?thesis
    by (cases rule: driver_stepE)
      (auto simp: world_simps section_defs Let_def)
qed

end
