(* ===== verification/Ticket_Office.thy ===== *)
theory Ticket_Office
  imports Driver
begin

text \<open>
  The ticket office process of src/ticket_office.c: validation of requests, the
  critical sections that issue or deny a ticket, the drain loop that runs when the
  station closes, and the process as a machine.
\<close>

section \<open>Validation\<close>

definition validate_passenger :: "passenger_info_t \<Rightarrow> bool" where
  "validate_passenger p =
     (if age p < MIN_AGE \<or> age p > MAX_AGE then False else if pid p \<le> 0 then False else True)"

definition validate_ticket_request :: "ticket_msg_t \<Rightarrow> bool" where
  "validate_ticket_request m =
     (if tm_mtype m \<noteq> MSG_TICKET_REQUEST then False
      else if pid (tm_passenger m) \<le> 0 then False else True)"

section \<open>Critical sections\<close>

definition office_register :: "nat \<Rightarrow> int \<Rightarrow> shm_data_t \<Rightarrow> shm_data_t" where
  "office_register k p s = s\<lparr>ticket_office_pids := (ticket_office_pids s)(k := p)\<rparr>"

definition office_check_shutdown :: "shm_data_t \<Rightarrow> bool" where
  "office_check_shutdown s \<longleftrightarrow> \<not> simulation_running s \<or> station_closed s"

definition office_busy :: "nat \<Rightarrow> int \<Rightarrow> shm_data_t \<Rightarrow> shm_data_t" where
  "office_busy k p s = s\<lparr>ticket_office_busy := (ticket_office_busy s)(k := p)\<rparr>"

definition ticket_response :: "nat \<Rightarrow> ticket_msg_t \<Rightarrow> ticket_msg_t" where
  "ticket_response k m =
     \<lparr>tm_mtype = pid (tm_passenger m), tm_passenger = tm_passenger m, tm_office_id = int k,
      tm_approved = False\<rparr>"

text \<open>The decision of \<open>process_ticket_request\<close> and its section on the counters.\<close>

definition ticket_decide :: "nat \<Rightarrow> ticket_msg_t \<Rightarrow> shm_data_t \<Rightarrow> ticket_msg_t \<times> shm_data_t" where
  "ticket_decide k m s =
     (let response = ticket_response k m; p = tm_passenger m in
      if \<not> validate_passenger p then
        (response\<lparr>tm_approved := False\<rparr>,
         s\<lparr>tickets_denied := tickets_denied s + 1,
           passengers_in_office := passengers_in_office s - 1\<rparr>)
      else
        (response\<lparr>tm_approved := True, tm_passenger := p\<lparr>has_ticket := True\<rparr>\<rparr>,
         s\<lparr>tickets_issued := tickets_issued s + 1,
           tickets_sold_people := tickets_sold_people s + seats_of p,
           passengers_in_office := passengers_in_office s - 1\<rparr>))"

definition drain_count :: "shm_data_t \<Rightarrow> shm_data_t" where
  "drain_count s =
     s\<lparr>passengers_in_office := passengers_in_office s - 1, tickets_denied := tickets_denied s + 1\<rparr>"

definition office_unregister :: "nat \<Rightarrow> shm_data_t \<Rightarrow> shm_data_t" where
  "office_unregister k s = s\<lparr>ticket_office_pids := (ticket_office_pids s)(k := 0)\<rparr>"

lemmas office_sections [section_defs] =
  office_register_def office_busy_def ticket_decide_def drain_count_def office_unregister_def

section \<open>Sequential runs\<close>

text \<open>\<open>process_ticket_request\<close> with no other process moving in between.\<close>

definition process_ticket_request :: "nat \<Rightarrow> ticket_msg_t \<Rightarrow> world \<Rightarrow> world" where
  "process_ticket_request k m w =
     (let (r, s') = ticket_decide k m (shm w) in snd (send_ticket_resp r (w\<lparr>shm := s'\<rparr>)))"

text \<open>One round of the drain loop, after a message has been received.\<close>

definition drain_one :: "nat \<Rightarrow> ticket_msg_t \<Rightarrow> world \<Rightarrow> world" where
  "drain_one k m w =
     snd (send_ticket_resp (ticket_response k m)
       (upd_shm drain_count (w_unlock SEM_TICKET_QUEUE_SLOTS w)))"

lemma ticket_q_frame [simp]:
  "ticket_q (upd_shm f w) = ticket_q w"
  "ticket_q (snd (send_ticket_resp m w)) = ticket_q w"
  by (simp_all add: world_simps)

lemma recv_ticket_nowait_shrinks:
  "recv_ticket_nowait t w = (Some m, w') \<Longrightarrow> length (ticket_q w') < length (ticket_q w)"
  using ticket_ch.recv_mset [of t w m w']
  by (auto simp: recv_ticket_nowait_def split: option.splits dest: arg_cong [of _ _ size])

function drain_queue_on_close :: "nat \<Rightarrow> world \<Rightarrow> world" where
  "drain_queue_on_close k w =
     (case recv_ticket_nowait MSG_TICKET_REQUEST w of
        (None, w') \<Rightarrow> w'
      | (Some m, w') \<Rightarrow> drain_queue_on_close k (drain_one k m w'))"
  by pat_completeness auto
termination
  by (relation "measure (\<lambda>(k, w). length (ticket_q w))")
    (auto simp: drain_one_def dest!: recv_ticket_nowait_shrinks [OF sym])

declare drain_queue_on_close.simps [simp del]

section \<open>Start-up\<close>

text \<open>
  \<open>main\<close> stores its process id in the array \<open>ticket_office_pids\<close> and only then checks
  that the office number is in range. A store outside the array is undefined.
\<close>

datatype office_start = Stored_Out_Of_Bounds | Rejected shm_data_t | Serving nat shm_data_t

definition office_startup :: "int \<Rightarrow> int \<Rightarrow> shm_data_t \<Rightarrow> office_start" where
  "office_startup g_office_id p s =
     (if g_office_id < 0 \<or> g_office_id \<ge> int TICKET_OFFICES then Stored_Out_Of_Bounds
      else
        let s' = office_register (nat g_office_id) p s in
        if g_office_id < 0 \<or> g_office_id \<ge> int TICKET_OFFICES then Rejected s'
        else Serving (nat g_office_id) s')"

section \<open>The process\<close>

datatype opc =
    O_Start | O_Loop | O_Recv
  | O_Unlock ticket_msg_t | O_Busy ticket_msg_t | O_OffLock ticket_msg_t
  | O_Process ticket_msg_t | O_Reply ticket_msg_t | O_OffUnlock | O_Free
  | O_DrainRecv | O_DrainUnlock ticket_msg_t | O_DrainCount ticket_msg_t
  | O_DrainReply ticket_msg_t
  | O_Exit | O_Done

record office_st =
  o_pc :: opc
  o_pid :: int
  o_running :: bool
  o_killed :: bool

definition init_office :: "int \<Rightarrow> office_st" where
  "init_office p = \<lparr>o_pc = O_Start, o_pid = p, o_running = True, o_killed = False\<rparr>"

definition office_step :: "env_in \<Rightarrow> nat \<Rightarrow> office_st \<Rightarrow> world \<Rightarrow> (office_st \<times> world) option" where
  "office_step i k f w =
     (case o_pc f of
        O_Start \<Rightarrow> Some (f\<lparr>o_pc := O_Loop\<rparr>, upd_shm (office_register k (o_pid f)) w)
      | O_Loop \<Rightarrow>
          if \<not> o_running f then Some (f\<lparr>o_pc := O_Exit\<rparr>, w)
          else if office_check_shutdown (shm w) then Some (f\<lparr>o_pc := O_DrainRecv\<rparr>, w)
          else Some (f\<lparr>o_pc := O_Recv\<rparr>, w)
      | O_Recv \<Rightarrow>
          (case recv_ticket MSG_TICKET_REQUEST w of
             None \<Rightarrow> None
           | Some (None, w') \<Rightarrow> Some (f\<lparr>o_pc := (if call_ok i then O_Exit else O_Loop)\<rparr>, w')
           | Some (Some m, w') \<Rightarrow> Some (f\<lparr>o_pc := O_Unlock m\<rparr>, w'))
      | O_Unlock m \<Rightarrow>
          Some (f\<lparr>o_pc := (if validate_ticket_request m then O_Busy m else O_Loop)\<rparr>,
                w_unlock SEM_TICKET_QUEUE_SLOTS w)
      | O_Busy m \<Rightarrow>
          Some (f\<lparr>o_pc := O_OffLock m\<rparr>, upd_shm (office_busy k (pid (tm_passenger m))) w)
      | O_OffLock m \<Rightarrow>
          (case w_lock (SEM_TICKET_OFFICE k) w of
             None \<Rightarrow> None
           | Some (ok, w') \<Rightarrow> Some (f\<lparr>o_pc := O_Process m\<rparr>, w'))
      | O_Process m \<Rightarrow>
          let (r, s') = ticket_decide k m (shm w) in Some (f\<lparr>o_pc := O_Reply r\<rparr>, w\<lparr>shm := s'\<rparr>)
      | O_Reply r \<Rightarrow>
          let (ok, w') = send_ticket_resp r w in Some (f\<lparr>o_pc := O_OffUnlock\<rparr>, w')
      | O_OffUnlock \<Rightarrow> Some (f\<lparr>o_pc := O_Free\<rparr>, w_unlock (SEM_TICKET_OFFICE k) w)
      | O_Free \<Rightarrow> Some (f\<lparr>o_pc := O_Loop\<rparr>, upd_shm (office_busy k 0) w)
      | O_DrainRecv \<Rightarrow>
          (case recv_ticket_nowait MSG_TICKET_REQUEST w of
             (None, w') \<Rightarrow> Some (f\<lparr>o_pc := O_Exit\<rparr>, w')
           | (Some m, w') \<Rightarrow> Some (f\<lparr>o_pc := O_DrainUnlock m\<rparr>, w'))
      | O_DrainUnlock m \<Rightarrow>
          Some (f\<lparr>o_pc := O_DrainCount m\<rparr>, w_unlock SEM_TICKET_QUEUE_SLOTS w)
      | O_DrainCount m \<Rightarrow>
          Some (f\<lparr>o_pc := O_DrainReply (ticket_response k m)\<rparr>, upd_shm drain_count w)
      | O_DrainReply r \<Rightarrow>
          let (ok, w') = send_ticket_resp r w in Some (f\<lparr>o_pc := O_DrainRecv\<rparr>, w')
      | O_Exit \<Rightarrow> Some (f\<lparr>o_pc := O_Done\<rparr>, upd_shm (office_unregister k) w)
      | O_Done \<Rightarrow> None)"

definition office_handle_shutdown :: "office_st \<Rightarrow> office_st" where
  "office_handle_shutdown f = f\<lparr>o_running := False\<rparr>"

section \<open>The steps by their effect\<close>

fun o_idle :: "opc \<Rightarrow> bool" where
  "o_idle O_Start = True" | "o_idle O_Loop = True" | "o_idle O_Recv = True"
| "o_idle O_OffUnlock = True" | "o_idle O_Free = True" | "o_idle O_DrainRecv = True"
| "o_idle O_Exit = True" | "o_idle O_Done = True" | "o_idle _ = False"

lemma recv_ticket_nowait_None: "recv_ticket_nowait t w = (None, w') \<Longrightarrow> w' = w"
  by (auto simp: recv_ticket_nowait_def recv_ticket_def split: if_splits option.splits)

lemma recv_ticket_nowait_Some:
  "recv_ticket_nowait t w = (Some m, w') \<Longrightarrow>
     ipc_alive w \<and> (\<exists>q. k_select tm_mtype t (ticket_q w) = Some (m, q) \<and> w' = w\<lparr>ticket_q := q\<rparr>)"
  by (auto simp: recv_ticket_nowait_def recv_ticket_def split: if_splits option.splits)

text \<open>
  \<open>housekeeping\<close> covers the sections on the process tables and the office semaphore,
  which touch no counter and no queue.
\<close>

definition housekeeping :: "world \<Rightarrow> world \<Rightarrow> bool" where
  "housekeeping w w' \<longleftrightarrow> ipc_alive w' = ipc_alive w \<and> ticket_q w' = ticket_q w
     \<and> ticket_resp_q w' = ticket_resp_q w \<and> boarding_q w' = boarding_q w
     \<and> boarding_resp_q w' = boarding_resp_q w
     \<and> (\<forall>n. n \<notin> {7, 8} \<longrightarrow> sems w' n = sems w n)
     \<and> shm w' = (shm w)\<lparr>ticket_office_busy := ticket_office_busy (shm w'),
                         ticket_office_pids := ticket_office_pids (shm w')\<rparr>"

lemma housekeepingD:
  assumes "housekeeping w w'"
  shows "ipc_alive w' = ipc_alive w" "ticket_q w' = ticket_q w"
    "ticket_resp_q w' = ticket_resp_q w" "boarding_q w' = boarding_q w"
    "boarding_resp_q w' = boarding_resp_q w" "n \<notin> {7, 8} \<Longrightarrow> sems w' n = sems w n"
    "\<exists>busy pids. shm w' = (shm w)\<lparr>ticket_office_busy := busy, ticket_office_pids := pids\<rparr>"
  using assms by (auto simp: housekeeping_def)

lemma housekeeping_shm:
  assumes "housekeeping w w'"
  shows "buses (shm w') = buses (shm w)" "active_bus_id (shm w') = active_bus_id (shm w)"
    "driver_pids (shm w') = driver_pids (shm w)"
    "simulation_running (shm w') = simulation_running (shm w)"
    "station_open (shm w') = station_open (shm w)"
    "station_closed (shm w') = station_closed (shm w)"
    "spawning_stopped (shm w') = spawning_stopped (shm w)"
    "boarding_allowed (shm w') = boarding_allowed (shm w)"
    "total_passengers_created (shm w') = total_passengers_created (shm w)"
    "passengers_transported (shm w') = passengers_transported (shm w)"
    "passengers_waiting (shm w') = passengers_waiting (shm w)"
    "passengers_in_office (shm w') = passengers_in_office (shm w)"
    "passengers_left_early (shm w') = passengers_left_early (shm w)"
    "boarded_people (shm w') = boarded_people (shm w)"
    "adults_created (shm w') = adults_created (shm w)"
    "children_created (shm w') = children_created (shm w)"
    "tickets_issued (shm w') = tickets_issued (shm w)"
    "tickets_denied (shm w') = tickets_denied (shm w)"
  using housekeepingD(7) [OF assms] by auto

lemma housekeepingI:
  "housekeeping w w"
  "housekeeping w (upd_shm (office_register k p) w)"
  "housekeeping w (upd_shm (office_busy k p) w)"
  "housekeeping w (upd_shm (office_unregister k) w)"
  "k < TICKET_OFFICES \<Longrightarrow> housekeeping w (w_unlock (SEM_TICKET_OFFICE k) w)"
  by (auto simp: housekeeping_def upd_shm_def office_register_def office_busy_def
      office_unregister_def w_unlock_eq)

lemma housekeeping_lock:
  "k < TICKET_OFFICES \<Longrightarrow> w_lock (SEM_TICKET_OFFICE k) w = Some (ok, w') \<Longrightarrow> housekeeping w w'"
  by (auto simp: housekeeping_def w_lock_Some)

lemmas office_code = office_step_def Let_def case_prod_beta recv_ticket_def recv_ticket_nowait_def housekeepingI

lemma office_stepE [consumes 2, case_names quiet receive valid invalid work process reply
    drain drain_unlock drain_count]:
  assumes "office_step e k f w = Some (f', w')" and k: "k < TICKET_OFFICES"
  obtains
    "o_idle (o_pc f)" "o_idle (o_pc f')" "housekeeping w w'"
  | m q where "o_pc f = O_Recv" "o_pc f' = O_Unlock m" "ipc_alive w"
      "k_select tm_mtype 1 (ticket_q w) = Some (m, q)" "w' = w\<lparr>ticket_q := q\<rparr>"
  | m where "o_pc f = O_Unlock m" "validate_ticket_request m" "o_pc f' = O_Busy m"
      "w' = w_unlock SEM_TICKET_QUEUE_SLOTS w"
  | m where "o_pc f = O_Unlock m" "\<not> validate_ticket_request m" "o_pc f' = O_Loop"
      "w' = w_unlock SEM_TICKET_QUEUE_SLOTS w"
  | m where "o_pc f = O_Busy m \<and> o_pc f' = O_OffLock m \<or> o_pc f = O_OffLock m \<and> o_pc f' = O_Process m"
      "housekeeping w w'"
  | m where "o_pc f = O_Process m" "o_pc f' = O_Reply (fst (ticket_decide k m (shm w)))"
      "w' = w\<lparr>shm := snd (ticket_decide k m (shm w))\<rparr>"
  | r where "o_pc f = O_Reply r \<or> o_pc f = O_DrainReply r" "o_idle (o_pc f')"
      "w' = snd (send_ticket_resp r w)"
  | m q where "o_pc f = O_DrainRecv" "o_pc f' = O_DrainUnlock m" "ipc_alive w"
      "k_select tm_mtype 1 (ticket_q w) = Some (m, q)" "w' = w\<lparr>ticket_q := q\<rparr>"
  | m where "o_pc f = O_DrainUnlock m" "o_pc f' = O_DrainCount m"
      "w' = w_unlock SEM_TICKET_QUEUE_SLOTS w"
  | m where "o_pc f = O_DrainCount m" "o_pc f' = O_DrainReply (ticket_response k m)"
      "w' = upd_shm drain_count w"
  using assms(1)
proof (cases "o_pc f")
  case O_Start
  with assms(1) that(1) show ?thesis by (auto simp: office_code split: code_splits)
next
  case O_Loop
  with assms(1) that(1) show ?thesis by (auto simp: office_code split: code_splits)
next
  case O_Recv
  with assms(1) that(1,2) show ?thesis by (auto simp: office_code split: code_splits)
next
  case (O_Unlock m)
  with assms(1) that(3,4) show ?thesis by (auto simp: office_code split: code_splits)
next
  case (O_Busy m)
  with assms(1) that(5) show ?thesis by (auto simp: office_code split: code_splits)
next
  case (O_OffLock m)
  with assms(1) that(5) housekeeping_lock [OF k, of w] show ?thesis
    by (auto simp: office_step_def split: option.splits)
next
  case (O_Process m)
  with assms(1) that(6) show ?thesis by (auto simp: office_code split: code_splits)
next
  case (O_Reply r)
  with assms(1) that(7) show ?thesis by (auto simp: office_code split: code_splits)
next
  case O_OffUnlock
  with assms(1) that(1) housekeepingI(5) [OF k, of w] show ?thesis
    by (auto simp: office_step_def)
next
  case O_Free
  with assms(1) that(1) show ?thesis by (auto simp: office_code split: code_splits)
next
  case O_DrainRecv
  show ?thesis
  proof (cases "fst (recv_ticket_nowait 1 w)")
    case None
    with assms(1) O_DrainRecv have "o_pc f' = O_Exit" "w' = w"
      using recv_ticket_nowait_None [of 1 w "snd (recv_ticket_nowait 1 w)"]
      by (auto simp: office_step_def case_prod_beta prod_eq_iff)
    with that(1) O_DrainRecv show ?thesis by (simp add: housekeepingI(1))
  next
    case (Some m)
    then obtain q where q: "ipc_alive w" "k_select tm_mtype 1 (ticket_q w) = Some (m, q)"
      "snd (recv_ticket_nowait 1 w) = w\<lparr>ticket_q := q\<rparr>"
      using recv_ticket_nowait_Some [of 1 w m "snd (recv_ticket_nowait 1 w)"]
      by (auto simp: prod_eq_iff)
    from Some assms(1) O_DrainRecv have "o_pc f' = O_DrainUnlock m"
      "w' = snd (recv_ticket_nowait 1 w)"
      by (auto simp: office_step_def case_prod_beta)
    with q O_DrainRecv show ?thesis by (intro that(8)) auto
  qed
next
  case (O_DrainUnlock m)
  with assms(1) that(9) show ?thesis by (auto simp: office_code split: code_splits)
next
  case (O_DrainCount m)
  with assms(1) that(10) show ?thesis by (auto simp: office_code split: code_splits)
next
  case (O_DrainReply r)
  with assms(1) that(7) show ?thesis by (auto simp: office_code split: code_splits)
next
  case O_Exit
  with assms(1) that(1) show ?thesis by (auto simp: office_code split: code_splits)
next
  case O_Done
  with assms(1) show ?thesis by (simp add: office_step_def)
qed

lemma office_step_local:
  assumes "office_step e k f w = Some (f', w')"
  shows "o_killed f' = o_killed f"
  using assms
  by (auto simp: office_step_def Let_def case_prod_beta split: opc.splits if_splits option.splits prod.splits)

end
