(* ===== verification/Passenger.thy ===== *)
theory Passenger
  imports Ticket_Office
begin

text \<open>
  The passenger process of src/passenger.c: the random choice of its attributes, the
  critical sections of \<open>purchase_ticket\<close>, \<open>enter_station\<close>, \<open>attempt_boarding\<close> and
  \<open>main\<close>, the process as a machine, and the adult and child threads' handshake.
\<close>

section \<open>Attributes\<close>

text \<open>\<open>init_passenger\<close>; the five arguments are the successive results of \<open>rand()\<close>.\<close>

definition init_passenger :: "int \<Rightarrow> nat \<Rightarrow> nat \<Rightarrow> nat \<Rightarrow> nat \<Rightarrow> nat \<Rightarrow> passenger_info_t" where
  "init_passenger p r1 r2 r3 r4 r5 =
     (let vip = (int r2 mod 100 < VIP_PERCENT);
          bike = (int r3 mod 100 < BIKE_PERCENT);
          child = (int r4 mod 100 < ADULT_WITH_CHILD_PERCENT)
      in \<lparr>pid = p,
          age = ADULT_MIN_AGE + int r1 mod (MAX_AGE - ADULT_MIN_AGE + 1),
          has_bike = (if child then False else bike),
          is_vip = vip,
          has_ticket = vip,
          is_child = False,
          has_child_with = child,
          child_age = (if child then MIN_AGE + int r5 mod (CHILD_AGE_LIMIT - MIN_AGE) else 0),
          seat_count = (if child then 2 else 1),
          assigned_bus = -1\<rparr>)"

section \<open>Critical sections\<close>

definition count_created :: "passenger_info_t \<Rightarrow> shm_data_t \<Rightarrow> shm_data_t" where
  "count_created g s =
     s\<lparr>total_passengers_created := total_passengers_created s + seat_count g,
       adults_created := adults_created s + 1,
       children_created := (if has_child_with g then children_created s + 1 else children_created s),
       vip_people_created :=
         (if is_vip g then vip_people_created s + seat_count g else vip_people_created s)\<rparr>"

definition office_enter :: "shm_data_t \<Rightarrow> shm_data_t" where
  "office_enter s = s\<lparr>passengers_in_office := passengers_in_office s + 1\<rparr>"

definition office_abort :: "shm_data_t \<Rightarrow> shm_data_t" where
  "office_abort s = s\<lparr>passengers_in_office := passengers_in_office s - 1\<rparr>"

definition count_left_early :: "passenger_info_t \<Rightarrow> shm_data_t \<Rightarrow> shm_data_t" where
  "count_left_early g s = s\<lparr>passengers_left_early := passengers_left_early s + seat_count g\<rparr>"

definition station_enter :: "passenger_info_t \<Rightarrow> shm_data_t \<Rightarrow> shm_data_t" where
  "station_enter g s =
     (if station_open s then s\<lparr>passengers_waiting := passengers_waiting s + seat_count g\<rparr> else s)"

definition leave_station :: "passenger_info_t \<Rightarrow> shm_data_t \<Rightarrow> shm_data_t" where
  "leave_station g s =
     (let w = passengers_waiting s - seat_count g in
      s\<lparr>passengers_waiting := (if w < 0 then 0 else w),
        passengers_left_early := passengers_left_early s + seat_count g\<rparr>)"

lemmas passenger_sections [section_defs] =
  count_created_def office_enter_def office_abort_def count_left_early_def station_enter_def
  leave_station_def

section \<open>Messages\<close>

definition ticket_request :: "passenger_info_t \<Rightarrow> ticket_msg_t" where
  "ticket_request g =
     \<lparr>tm_mtype = MSG_TICKET_REQUEST, tm_passenger = g, tm_office_id = 0, tm_approved = False\<rparr>"

definition boarding_request :: "passenger_info_t \<Rightarrow> int \<Rightarrow> boarding_msg_t" where
  "boarding_request g active_bus =
     \<lparr>bm_mtype = (if is_vip g then MSG_BOARD_REQUEST_VIP else MSG_BOARD_REQUEST),
      bm_passenger = g, bm_bus_id = active_bus, bm_approved = False, bm_reason = []\<rparr>"

text \<open>What \<open>attempt_boarding\<close> returns for a response: 1, -1 (wait for the next bus) or 0.\<close>

definition response_result :: "boarding_msg_t \<Rightarrow> int" where
  "response_result r =
     (if bm_approved r then 1
      else if strstr_found ''capacity'' (bm_reason r) \<or> strstr_found ''not at station'' (bm_reason r)
      then -1 else 0)"

section \<open>The process\<close>

datatype ppc =
    P_Check | P_Thread | P_Count
  | P_Office | P_TicketSlot | P_SendTicket | P_TicketUndo | P_WaitTicket | P_OfficeAbort
  | P_LeaveNoTicket | P_CheckClosed | P_LeaveClosed
  | P_EnterCheck | P_EnterLock | P_EnterSection | P_EnterUnlock bool | P_EnterFailed
  | P_LeaveNotEntered
  | P_BoardHead | P_BoardRead | P_BoardSlot int | P_BoardSend int | P_BoardUndo
  | P_BoardWait | P_BoardUnlock "boarding_msg_t option" | P_LeaveStation | P_Boarded
  | P_Join int | P_JoinWait int | P_Done int

text \<open>
  The child thread: not started, about to test its condition (holding
  \<open>g_board_mutex\<close>), blocked in \<open>pthread_cond_wait\<close>, or finished.
\<close>

datatype cpc = C_None | C_Test | C_Wait | C_Finished

record passenger_st =
  p_pc :: ppc
  p_info :: passenger_info_t
  p_running :: bool
  p_attempts :: nat
  p_board_attempts :: nat
  p_adult_boarded :: bool
  p_child :: cpc
  p_child_boarded :: bool
  p_killed :: bool

definition init_passenger_st :: "passenger_info_t \<Rightarrow> passenger_st" where
  "init_passenger_st g = \<lparr>p_pc = P_Check, p_info = g, p_running = True, p_attempts = 0,
     p_board_attempts = 0, p_adult_boarded = False, p_child = C_None, p_child_boarded = False,
     p_killed = False\<rparr>"

text \<open>\<open>pthread_cond_signal\<close> wakes the thread if it waits and is lost otherwise.\<close>

definition cond_signal :: "passenger_st \<Rightarrow> passenger_st" where
  "cond_signal p = (if p_child p = C_Wait then p\<lparr>p_child := C_Test\<rparr> else p)"

text \<open>A failed attempt to board: wait and try again.\<close>

definition board_retry :: "passenger_st \<Rightarrow> passenger_st" where
  "board_retry p = p\<lparr>p_pc := P_BoardHead, p_board_attempts := p_board_attempts p + 1\<rparr>"

text \<open>
  The functions of the program, each as the part of the machine between its entry and
  its returns. They are named as in the code; a call is a jump to their first point.
\<close>

definition start_child_thread :: "env_in \<Rightarrow> passenger_st \<Rightarrow> passenger_st" where
  "start_child_thread i p =
     (let g = p_info p in
      if has_child_with g \<and> \<not> call_ok i
      then p\<lparr>p_info := g\<lparr>has_child_with := False, seat_count := 1\<rparr>, p_pc := P_Count\<rparr>
      else p\<lparr>p_child := (if has_child_with g then C_Test else C_None), p_pc := P_Count\<rparr>)"

definition purchase_ticket :: "passenger_st \<Rightarrow> world \<Rightarrow> (passenger_st \<times> world) option" where
  "purchase_ticket p w =
     (let g = p_info p in
      case p_pc p of
        P_Office \<Rightarrow> Some (p\<lparr>p_pc := P_TicketSlot\<rparr>, upd_shm office_enter w)
      | P_TicketSlot \<Rightarrow>
          (case w_lock SEM_TICKET_QUEUE_SLOTS w of
             None \<Rightarrow> None
           | Some (ok, w') \<Rightarrow> Some (p\<lparr>p_pc := (if ok then P_SendTicket else P_OfficeAbort)\<rparr>, w'))
      | P_SendTicket \<Rightarrow>
          let (ok, w') = send_ticket (ticket_request g) w
          in Some (p\<lparr>p_pc := (if ok then P_WaitTicket else P_TicketUndo)\<rparr>, w')
      | P_TicketUndo \<Rightarrow> Some (p\<lparr>p_pc := P_OfficeAbort\<rparr>, w_unlock SEM_TICKET_QUEUE_SLOTS w)
      | P_WaitTicket \<Rightarrow>
          (case recv_ticket_resp (pid g) w of
             None \<Rightarrow> None
           | Some (None, w') \<Rightarrow> Some (p\<lparr>p_pc := P_OfficeAbort\<rparr>, w')
           | Some (Some r, w') \<Rightarrow>
               if tm_approved r
               then Some (p\<lparr>p_info := g\<lparr>has_ticket := True\<rparr>, p_pc := P_CheckClosed\<rparr>, w')
               else Some (p\<lparr>p_pc := P_LeaveNoTicket\<rparr>, w'))
      | P_OfficeAbort \<Rightarrow> Some (p\<lparr>p_pc := P_LeaveNoTicket\<rparr>, upd_shm office_abort w)
      | _ \<Rightarrow> None)"

text \<open>
  A successful \<open>enter_station\<close> ends the loop of \<open>main\<close>, which then tests
  \<open>enter_attempts >= 10\<close>; a failure goes to \<open>P_EnterFailed\<close>, the rest of the loop condition.
\<close>

definition enter_station :: "passenger_st \<Rightarrow> world \<Rightarrow> (passenger_st \<times> world) option" where
  "enter_station p w =
     (let g = p_info p; s = shm w in
      case p_pc p of
        P_EnterCheck \<Rightarrow>
          Some (p\<lparr>p_pc := (if station_open s then P_EnterLock else P_EnterFailed)\<rparr>, w)
      | P_EnterLock \<Rightarrow>
          (case w_lock SEM_STATION_ENTRY w of
             None \<Rightarrow> None
           | Some (ok, w') \<Rightarrow> Some (p\<lparr>p_pc := (if ok then P_EnterSection else P_EnterFailed)\<rparr>, w'))
      | P_EnterSection \<Rightarrow>
          if ipc_alive w
          then Some (p\<lparr>p_pc := P_EnterUnlock (station_open s)\<rparr>, upd_shm (station_enter g) w)
          else Some (p\<lparr>p_pc := P_EnterUnlock False\<rparr>, w)
      | P_EnterUnlock entered \<Rightarrow>
          Some (p\<lparr>p_pc := (if \<not> entered then P_EnterFailed
                          else if p_attempts p \<ge> 10 then P_LeaveNotEntered else P_BoardHead)\<rparr>,
                w_unlock SEM_STATION_ENTRY w)
      | _ \<Rightarrow> None)"

definition attempt_boarding :: "passenger_st \<Rightarrow> world \<Rightarrow> (passenger_st \<times> world) option" where
  "attempt_boarding p w =
     (let g = p_info p; s = shm w in
      case p_pc p of
        P_BoardRead \<Rightarrow>
          if active_bus_id s < 0 \<or> \<not> boarding_allowed s then Some (board_retry p, w)
          else Some (p\<lparr>p_pc := P_BoardSlot (active_bus_id s)\<rparr>, w)
      | P_BoardSlot b \<Rightarrow>
          (case w_lock SEM_BOARDING_QUEUE_SLOTS w of
             None \<Rightarrow> None
           | Some (ok, w') \<Rightarrow> Some (if ok then p\<lparr>p_pc := P_BoardSend b\<rparr> else board_retry p, w'))
      | P_BoardSend b \<Rightarrow>
          let (ok, w') = send_boarding (boarding_request g b) w
          in Some (p\<lparr>p_pc := (if ok then P_BoardWait else P_BoardUndo)\<rparr>, w')
      | P_BoardUndo \<Rightarrow> Some (board_retry p, w_unlock SEM_BOARDING_QUEUE_SLOTS w)
      | P_BoardWait \<Rightarrow>
          (case recv_boarding_resp (pid g) w of
             None \<Rightarrow> None
           | Some (r, w') \<Rightarrow> Some (p\<lparr>p_pc := P_BoardUnlock r\<rparr>, w'))
      | P_BoardUnlock r \<Rightarrow>
          let w' = w_unlock SEM_BOARDING_QUEUE_SLOTS w in
          (case r of
             None \<Rightarrow> Some (board_retry p, w')
           | Some m \<Rightarrow>
               if response_result m = 1
               then Some (cond_signal (p\<lparr>p_info := g\<lparr>assigned_bus := bm_bus_id m\<rparr>,
                           p_adult_boarded := True, p_pc := P_Boarded\<rparr>), w')
               else Some (board_retry p, w'))
      | _ \<Rightarrow> None)"

definition wait_for_child_thread :: "passenger_st \<Rightarrow> passenger_st option" where
  "wait_for_child_thread p =
     (case p_pc p of
        P_Join rc \<Rightarrow>
          if has_child_with (p_info p) then Some (cond_signal (p\<lparr>p_pc := P_JoinWait rc\<rparr>))
          else Some (p\<lparr>p_pc := P_Done rc\<rparr>)
      | P_JoinWait rc \<Rightarrow> if p_child p = C_Finished then Some (p\<lparr>p_pc := P_Done rc\<rparr>) else None
      | _ \<Rightarrow> None)"

definition passenger_step :: "env_in \<Rightarrow> passenger_st \<Rightarrow> world \<Rightarrow> (passenger_st \<times> world) option" where
  "passenger_step i p w =
     (let g = p_info p; s = shm w in
      case p_pc p of
        P_Check \<Rightarrow>
          if \<not> simulation_running s then Some (p\<lparr>p_pc := P_Done 0\<rparr>, w)
          else if \<not> station_open s then Some (p\<lparr>p_pc := P_Done 0\<rparr>, w)
          else Some (p\<lparr>p_pc := P_Thread\<rparr>, w)
      | P_Thread \<Rightarrow> Some (start_child_thread i p, w)
      | P_Count \<Rightarrow>
          Some (p\<lparr>p_pc := (if is_vip g then P_CheckClosed else P_Office)\<rparr>,
                upd_shm (count_created g) w)
      | P_Office \<Rightarrow> purchase_ticket p w
      | P_TicketSlot \<Rightarrow> purchase_ticket p w
      | P_SendTicket \<Rightarrow> purchase_ticket p w
      | P_TicketUndo \<Rightarrow> purchase_ticket p w
      | P_WaitTicket \<Rightarrow> purchase_ticket p w
      | P_OfficeAbort \<Rightarrow> purchase_ticket p w
      | P_LeaveNoTicket \<Rightarrow> Some (p\<lparr>p_pc := P_Join 1\<rparr>, upd_shm (count_left_early g) w)
      | P_CheckClosed \<Rightarrow>
          Some (p\<lparr>p_pc := (if station_closed s then P_LeaveClosed else P_EnterCheck)\<rparr>, w)
      | P_LeaveClosed \<Rightarrow> Some (p\<lparr>p_pc := P_Join 1\<rparr>, upd_shm (count_left_early g) w)
      | P_EnterCheck \<Rightarrow> enter_station p w
      | P_EnterLock \<Rightarrow> enter_station p w
      | P_EnterSection \<Rightarrow> enter_station p w
      | P_EnterUnlock entered \<Rightarrow> enter_station p w
      | P_EnterFailed \<Rightarrow>
          if p_running p \<and> p_attempts p < 10
          then Some (p\<lparr>p_attempts := p_attempts p + 1, p_pc := P_EnterCheck\<rparr>, w)
          else Some (p\<lparr>p_pc := (if p_attempts p \<ge> 10 then P_LeaveNotEntered else P_BoardHead)\<rparr>, w)
      | P_LeaveNotEntered \<Rightarrow> Some (p\<lparr>p_pc := P_Join 1\<rparr>, upd_shm (count_left_early g) w)
      | P_BoardHead \<Rightarrow>
          if \<not> p_running p then Some (p\<lparr>p_pc := P_LeaveStation\<rparr>, w)
          else if \<not> simulation_running s \<or> \<not> boarding_allowed s
          then Some (p\<lparr>p_pc := P_LeaveStation\<rparr>, w)
          else Some (p\<lparr>p_pc := P_BoardRead\<rparr>, w)
      | P_BoardRead \<Rightarrow> attempt_boarding p w
      | P_BoardSlot b \<Rightarrow> attempt_boarding p w
      | P_BoardSend b \<Rightarrow> attempt_boarding p w
      | P_BoardUndo \<Rightarrow> attempt_boarding p w
      | P_BoardWait \<Rightarrow> attempt_boarding p w
      | P_BoardUnlock r \<Rightarrow> attempt_boarding p w
      | P_LeaveStation \<Rightarrow> Some (p\<lparr>p_pc := P_Join 1\<rparr>, upd_shm (leave_station g) w)
      | P_Boarded \<Rightarrow> Some (p\<lparr>p_pc := P_Join 0\<rparr>, w)
      | P_Join rc \<Rightarrow> map_option (\<lambda>q. (q, w)) (wait_for_child_thread p)
      | P_JoinWait rc \<Rightarrow> map_option (\<lambda>q. (q, w)) (wait_for_child_thread p)
      | P_Done rc \<Rightarrow> None)"

lemmas passenger_step_defs = passenger_step_def start_child_thread_def purchase_ticket_def
  enter_station_def attempt_boarding_def wait_for_child_thread_def

text \<open>
  \<open>child_thread_func\<close>: one step tests the condition of the wait loop; a blocked thread
  may also wake up for no reason, as POSIX allows.
\<close>

definition child_step :: "passenger_st \<Rightarrow> passenger_st option" where
  "child_step p =
     (case p_child p of
        C_Test \<Rightarrow>
          if \<not> p_adult_boarded p \<and> p_running p then Some (p\<lparr>p_child := C_Wait\<rparr>)
          else Some (p\<lparr>p_child := C_Finished, p_child_boarded := p_adult_boarded p\<rparr>)
      | C_Wait \<Rightarrow> Some (p\<lparr>p_child := C_Test\<rparr>)
      | _ \<Rightarrow> None)"

definition passenger_handle_shutdown :: "passenger_st \<Rightarrow> passenger_st" where
  "passenger_handle_shutdown p = p\<lparr>p_running := False\<rparr>"

section \<open>The steps by their effect\<close>

fun p_finished :: "ppc \<Rightarrow> bool" where
  "p_finished P_Boarded = True" | "p_finished (P_Join rc) = True"
| "p_finished (P_JoinWait rc) = True" | "p_finished (P_Done rc) = True"
| "p_finished _ = False"

lemma response_result_approved [simp]: "response_result m = 1 \<longleftrightarrow> bm_approved m"
  by (simp add: response_result_def)

lemma cond_signal_frame [simp]:
  "p_pc (cond_signal p) = p_pc p" "p_info (cond_signal p) = p_info p"
  "p_running (cond_signal p) = p_running p" "p_attempts (cond_signal p) = p_attempts p"
  "p_killed (cond_signal p) = p_killed p" "p_adult_boarded (cond_signal p) = p_adult_boarded p"
  by (simp_all add: cond_signal_def)

lemmas passenger_code = passenger_step_defs Let_def board_retry_def

text \<open>Every step of a passenger is one of the following; world changes are explicit.\<close>

lemma passenger_stepE [consumes 1, case_names stop arrive thread count office ticket_slot
    ticket_slot_fail send_ticket send_ticket_fail ticket_undo ticket_granted ticket_denied
    ticket_fail office_abort leave_early check_closed enter_check enter_lock
    enter_lock_fail enter_section enter_section_fail enter_unlock enter_again enter_give_up
    enter_stopped board_wait_bus board_choose board_slot board_slot_fail board_send
    board_send_fail board_undo board_answer board_fail board_unlock_none board_denied
    board_granted leave_station finish]:
  assumes "passenger_step e p w = Some (p', w')"
  obtains
    "p_pc p = P_Check" "p_pc p' = P_Done 0" "p_info p' = p_info p" "w' = w"
  | "p_pc p = P_Check" "p_pc p' = P_Thread" "p_info p' = p_info p" "w' = w"
  | "p_pc p = P_Thread" "p_pc p' = P_Count"
      "p_info p' = p_info p \<or> has_child_with (p_info p) \<and> p_info p' = (p_info p)\<lparr>has_child_with := False, seat_count := 1\<rparr>"
      "w' = w"
  | "p_pc p = P_Count" "p_pc p' = (if is_vip (p_info p) then P_CheckClosed else P_Office)"
      "p_info p' = p_info p" "w' = upd_shm (count_created (p_info p)) w"
  | "p_pc p = P_Office" "p_pc p' = P_TicketSlot" "p_info p' = p_info p"
      "w' = upd_shm office_enter w"
  | "p_pc p = P_TicketSlot" "p_pc p' = P_SendTicket" "p_info p' = p_info p"
      "w_lock SEM_TICKET_QUEUE_SLOTS w = Some (True, w')"
  | "p_pc p = P_TicketSlot" "p_pc p' = P_OfficeAbort" "p_info p' = p_info p" "\<not> ipc_alive w"
      "w' = w"
  | "p_pc p = P_SendTicket" "p_pc p' = P_WaitTicket" "p_info p' = p_info p" "ipc_alive w"
      "w' = w\<lparr>ticket_q := ticket_q w @ [ticket_request (p_info p)]\<rparr>"
  | "p_pc p = P_SendTicket" "p_pc p' = P_TicketUndo" "p_info p' = p_info p" "\<not> ipc_alive w"
      "w' = w"
  | "p_pc p = P_TicketUndo" "p_pc p' = P_OfficeAbort" "p_info p' = p_info p"
      "w' = w_unlock SEM_TICKET_QUEUE_SLOTS w"
  | r q where "p_pc p = P_WaitTicket" "p_pc p' = P_CheckClosed"
      "p_info p' = (p_info p)\<lparr>has_ticket := True\<rparr>" "tm_approved r" "ipc_alive w"
      "k_select tm_mtype (pid (p_info p)) (ticket_resp_q w) = Some (r, q)"
      "w' = w\<lparr>ticket_resp_q := q\<rparr>"
  | r q where "p_pc p = P_WaitTicket" "p_pc p' = P_LeaveNoTicket" "p_info p' = p_info p"
      "\<not> tm_approved r" "ipc_alive w"
      "k_select tm_mtype (pid (p_info p)) (ticket_resp_q w) = Some (r, q)"
      "w' = w\<lparr>ticket_resp_q := q\<rparr>"
  | "p_pc p = P_WaitTicket" "p_pc p' = P_OfficeAbort" "p_info p' = p_info p" "\<not> ipc_alive w"
      "w' = w"
  | "p_pc p = P_OfficeAbort" "p_pc p' = P_LeaveNoTicket" "p_info p' = p_info p"
      "w' = upd_shm office_abort w"
  | "p_pc p \<in> {P_LeaveNoTicket, P_LeaveClosed, P_LeaveNotEntered}" "p_pc p' = P_Join 1"
      "p_info p' = p_info p" "w' = upd_shm (count_left_early (p_info p)) w"
  | "p_pc p = P_CheckClosed"
      "p_pc p' = (if station_closed (shm w) then P_LeaveClosed else P_EnterCheck)"
      "p_info p' = p_info p" "w' = w"
  | "p_pc p = P_EnterCheck"
      "p_pc p' = (if station_open (shm w) then P_EnterLock else P_EnterFailed)"
      "p_info p' = p_info p" "p_attempts p' = p_attempts p" "w' = w"
  | "p_pc p = P_EnterLock" "p_pc p' = P_EnterSection" "p_info p' = p_info p"
      "p_attempts p' = p_attempts p" "w_lock SEM_STATION_ENTRY w = Some (True, w')"
  | "p_pc p = P_EnterLock" "p_pc p' = P_EnterFailed" "p_info p' = p_info p"
      "p_attempts p' = p_attempts p" "\<not> ipc_alive w" "w' = w"
  | "p_pc p = P_EnterSection" "p_pc p' = P_EnterUnlock (station_open (shm w))"
      "p_info p' = p_info p" "p_attempts p' = p_attempts p" "ipc_alive w"
      "w' = upd_shm (station_enter (p_info p)) w"
  | "p_pc p = P_EnterSection" "p_pc p' = P_EnterUnlock False" "p_info p' = p_info p"
      "p_attempts p' = p_attempts p" "\<not> ipc_alive w" "w' = w"
  | entered where "p_pc p = P_EnterUnlock entered"
      "p_pc p' = (if \<not> entered then P_EnterFailed else if p_attempts p \<ge> 10 then P_LeaveNotEntered else P_BoardHead)"
      "p_info p' = p_info p" "p_attempts p' = p_attempts p" "w' = w_unlock SEM_STATION_ENTRY w"
  | "p_pc p = P_EnterFailed" "p_pc p' = P_EnterCheck" "p_info p' = p_info p"
      "p_attempts p' = p_attempts p + 1" "w' = w"
  | "p_pc p = P_EnterFailed" "p_pc p' = P_LeaveNotEntered" "p_info p' = p_info p"
      "p_attempts p' = p_attempts p" "w' = w"
  | "p_pc p = P_EnterFailed" "p_pc p' = P_BoardHead" "p_info p' = p_info p" "\<not> p_running p"
      "w' = w"
  | "p_pc p \<in> {P_BoardHead, P_BoardRead}"
      "p_pc p' \<in> {P_BoardHead, P_BoardRead, P_LeaveStation}" "p_info p' = p_info p" "w' = w"
  | "p_pc p = P_BoardRead" "p_pc p' = P_BoardSlot (active_bus_id (shm w))" "p_info p' = p_info p"
      "w' = w"
  | b where "p_pc p = P_BoardSlot b" "p_pc p' = P_BoardSend b" "p_info p' = p_info p"
      "w_lock SEM_BOARDING_QUEUE_SLOTS w = Some (True, w')"
  | b where "p_pc p = P_BoardSlot b" "p_pc p' = P_BoardHead" "p_info p' = p_info p"
      "\<not> ipc_alive w" "w' = w"
  | b where "p_pc p = P_BoardSend b" "p_pc p' = P_BoardWait" "p_info p' = p_info p" "ipc_alive w"
      "w' = w\<lparr>boarding_q := boarding_q w @ [boarding_request (p_info p) b]\<rparr>"
  | b where "p_pc p = P_BoardSend b" "p_pc p' = P_BoardUndo" "p_info p' = p_info p"
      "\<not> ipc_alive w" "w' = w"
  | "p_pc p = P_BoardUndo" "p_pc p' = P_BoardHead" "p_info p' = p_info p"
      "w' = w_unlock SEM_BOARDING_QUEUE_SLOTS w"
  | r q where "p_pc p = P_BoardWait" "p_pc p' = P_BoardUnlock (Some r)" "p_info p' = p_info p"
      "ipc_alive w" "k_select bm_mtype (pid (p_info p)) (boarding_resp_q w) = Some (r, q)"
      "w' = w\<lparr>boarding_resp_q := q\<rparr>"
  | "p_pc p = P_BoardWait" "p_pc p' = P_BoardUnlock None" "p_info p' = p_info p"
      "\<not> ipc_alive w" "w' = w"
  | "p_pc p = P_BoardUnlock None" "p_pc p' = P_BoardHead" "p_info p' = p_info p"
      "w' = w_unlock SEM_BOARDING_QUEUE_SLOTS w"
  | m where "p_pc p = P_BoardUnlock (Some m)" "\<not> bm_approved m" "p_pc p' = P_BoardHead"
      "p_info p' = p_info p" "w' = w_unlock SEM_BOARDING_QUEUE_SLOTS w"
  | m where "p_pc p = P_BoardUnlock (Some m)" "bm_approved m" "p_pc p' = P_Boarded"
      "p_info p' = (p_info p)\<lparr>assigned_bus := bm_bus_id m\<rparr>"
      "w' = w_unlock SEM_BOARDING_QUEUE_SLOTS w"
  | "p_pc p = P_LeaveStation" "p_pc p' = P_Join 1" "p_info p' = p_info p"
      "w' = upd_shm (leave_station (p_info p)) w"
  | "p_finished (p_pc p)" "p_finished (p_pc p')" "p_info p' = p_info p" "w' = w"
  using assms
proof (cases "p_pc p")
  case P_Check
  with assms that(1,2) show ?thesis by (auto simp: passenger_code split: code_splits)
next
  case P_Thread
  with assms that(3) show ?thesis by (auto simp: passenger_code split: code_splits)
next
  case P_Count
  with assms that(4) show ?thesis by (auto simp: passenger_code split: code_splits)
next
  case P_Office
  with assms that(5) show ?thesis by (auto simp: passenger_code split: code_splits)
next
  case P_TicketSlot
  with assms that(6,7) show ?thesis
    by (auto simp: passenger_step_defs Let_def board_retry_def w_lock_Some 
        split: if_splits option.splits)
next
  case P_SendTicket
  with assms that(8,9) show ?thesis
    by (auto simp: passenger_step_defs Let_def board_retry_def send_ticket_def 
        split: if_splits option.splits)
next
  case P_TicketUndo
  with assms that(10) show ?thesis by (auto simp: passenger_code split: code_splits)
next
  case P_WaitTicket
  with assms that(11,12,13) show ?thesis
    by (auto simp: passenger_step_defs Let_def board_retry_def recv_ticket_resp_def 
        split: if_splits option.splits)
next
  case P_OfficeAbort
  with assms that(14) show ?thesis by (auto simp: passenger_code split: code_splits)
next
  case P_LeaveNoTicket
  with assms that(15) show ?thesis by (auto simp: passenger_code split: code_splits)
next
  case P_CheckClosed
  with assms have "p' = p\<lparr>p_pc := (if station_closed (shm w) then P_LeaveClosed else P_EnterCheck)\<rparr>"
    and "w' = w"
    by (auto simp: passenger_step_defs)
  with that(16) P_CheckClosed show ?thesis by simp
next
  case P_LeaveClosed
  with assms that(15) show ?thesis by (auto simp: passenger_code split: code_splits)
next
  case P_EnterCheck
  with assms have "p' = p\<lparr>p_pc := (if station_open (shm w) then P_EnterLock else P_EnterFailed)\<rparr>"
    and "w' = w"
    by (auto simp: passenger_step_defs)
  with that(17) P_EnterCheck show ?thesis by simp
next
  case P_EnterLock
  with assms that(18,19) show ?thesis
    by (auto simp: passenger_step_defs Let_def board_retry_def w_lock_Some 
        split: if_splits option.splits)
next
  case P_EnterSection
  with assms that(20,21) show ?thesis by (auto simp: passenger_code split: code_splits)
next
  case (P_EnterUnlock en)
  with assms that(22) show ?thesis by (auto simp: passenger_code split: code_splits)
next
  case P_EnterFailed
  with assms that(23,24,25) show ?thesis by (auto simp: passenger_code split: code_splits)
next
  case P_LeaveNotEntered
  with assms that(15) show ?thesis by (auto simp: passenger_code split: code_splits)
next
  case P_BoardHead
  with assms that(26) show ?thesis by (auto simp: passenger_code split: code_splits)
next
  case P_BoardRead
  show ?thesis
  proof (cases "active_bus_id (shm w) < 0 \<or> \<not> boarding_allowed (shm w)")
    case True
    with assms P_BoardRead have "p' = board_retry p" "w' = w"
      by (auto simp: passenger_step_defs)
    with that(26) P_BoardRead show ?thesis by (simp add: board_retry_def)
  next
    case False
    with assms P_BoardRead have "p' = p\<lparr>p_pc := P_BoardSlot (active_bus_id (shm w))\<rparr>" "w' = w"
      by (auto simp: passenger_step_defs)
    with that(27) P_BoardRead show ?thesis by simp
  qed
next
  case (P_BoardSlot b)
  with assms that(28,29) show ?thesis
    by (auto simp: passenger_step_defs Let_def board_retry_def w_lock_Some 
        split: if_splits option.splits)
next
  case (P_BoardSend b)
  with assms that(30,31) show ?thesis
    by (auto simp: passenger_step_defs Let_def board_retry_def send_boarding_def 
        split: if_splits option.splits)
next
  case P_BoardUndo
  with assms that(32) show ?thesis by (auto simp: passenger_code split: code_splits)
next
  case P_BoardWait
  with assms that(33,34) show ?thesis
    by (auto simp: passenger_step_defs Let_def board_retry_def recv_boarding_resp_def 
        split: if_splits option.splits)
next
  case (P_BoardUnlock r)
  with assms that(35,36,37) show ?thesis by (auto simp: passenger_code split: code_splits)
next
  case P_LeaveStation
  with assms that(38) show ?thesis by (auto simp: passenger_code split: code_splits)
next
  case P_Boarded
  with assms that(39) show ?thesis by (auto simp: passenger_code split: code_splits)
next
  case (P_Join rc)
  with assms that(39) show ?thesis by (auto simp: passenger_code split: code_splits)
next
  case (P_JoinWait rc)
  with assms that(39) show ?thesis by (auto simp: passenger_code split: code_splits)
next
  case (P_Done rc)
  with assms show ?thesis by (simp add: passenger_step_defs)
qed

lemma passenger_step_local:
  assumes "passenger_step e p w = Some (p', w')"
  shows "p_running p' = p_running p \<and> p_killed p' = p_killed p"
  using assms
  by (auto simp: passenger_step_defs Let_def board_retry_def split: ppc.splits if_splits option.splits prod.splits)

end
