(* ===== verification/Dispatcher.thy ===== *)
theory Dispatcher
  imports Passenger
begin

text \<open>
  The dispatcher process of src/dispatcher.c: initialisation of the shared state, the
  reaction to signals, the two watchdogs (dead drivers, overdue buses), the test for
  the end of the simulation, the shutdown accounting and the final statistics.
\<close>

section \<open>Initialisation\<close>

definition init_bus :: "nat \<Rightarrow> bus_state_t" where
  "init_bus i = \<lparr>bus_ident = int i, at_station = True, boarding_open = False, passenger_count = 0,
     bike_count = 0, entering_count = 0, departure_time = 0, return_time = 0\<rparr>"

definition init_shared_state :: "int \<Rightarrow> shm_data_t" where
  "init_shared_state p =
     \<lparr>simulation_running = True, station_open = True, boarding_allowed = True,
      early_departure_flag = False, spawning_stopped = False, station_closed = False,
      test_fill_queue = False,
      total_passengers_created = 0, passengers_transported = 0, passengers_waiting = 0,
      passengers_in_office = 0, passengers_left_early = 0,
      adults_created = 0, children_created = 0, vip_people_created = 0,
      tickets_sold_people = 0, tickets_denied = 0, boarded_people = 0, boarded_vip_people = 0,
      buses = init_bus, active_bus_id = 0, ticket_office_busy = (\<lambda>_. 0), tickets_issued = 0,
      dispatcher_pid = p, driver_pids = (\<lambda>_. 0), ticket_office_pids = (\<lambda>_. 0)\<rparr>"

section \<open>Signals\<close>

text \<open>The process ids \<open>forward_signal_to_drivers\<close> sends the signal to.\<close>

definition forward_signal_to_drivers :: "shm_data_t \<Rightarrow> int list" where
  "forward_signal_to_drivers s = filter (\<lambda>p. p > 0) (map (driver_pids s) [0..<MAX_BUSES])"

definition close_station :: "shm_data_t \<Rightarrow> shm_data_t" where
  "close_station s = s\<lparr>station_closed := True, station_open := False, spawning_stopped := True\<rparr>"

section \<open>The watchdogs\<close>

text \<open>\<open>dead p\<close>: \<open>kill (p, 0)\<close> fails with ESRCH.\<close>

definition clear_dead_driver :: "(int \<Rightarrow> bool) \<Rightarrow> nat \<Rightarrow> shm_data_t \<Rightarrow> shm_data_t" where
  "clear_dead_driver dead k s =
     (if driver_pids s k > 0 \<and> dead (driver_pids s k)
      then upd_bus k (\<lambda>u. u\<lparr>boarding_open := False\<rparr>)
             (s\<lparr>driver_pids := (driver_pids s)(k := 0)\<rparr>)
      else s)"

definition check_driver_health :: "cfg \<Rightarrow> int \<Rightarrow> (int \<Rightarrow> bool) \<Rightarrow> shm_data_t \<Rightarrow> shm_data_t" where
  "check_driver_health c t dead s =
     (let active_bus = active_bus_id s;
          active_driver_dead =
            list_ex (\<lambda>k. driver_pids s k > 0 \<and> dead (driver_pids s k) \<and> int k = active_bus)
              [0..<MAX_BUSES];
          s1 = fold (clear_dead_driver dead) [0..<MAX_BUSES] s
      in if active_driver_dead \<or> (active_bus \<ge> 0 \<and> driver_pids s1 (nat active_bus) = 0) then
           (case find (\<lambda>k. driver_pids s1 k > 0 \<and> at_station (buses s1 k)) [0..<MAX_BUSES] of
              Some k \<Rightarrow>
                upd_bus k (\<lambda>u. u\<lparr>departure_time := t + boarding_interval c, boarding_open := True\<rparr>)
                  (s1\<lparr>active_bus_id := int k\<rparr>)
            | None \<Rightarrow> s1\<lparr>active_bus_id := -1\<rparr>)
         else s1)"

text \<open>One round of the loop of \<open>check_bus_departures\<close>: the process to signal, if any.\<close>

definition bus_overdue :: "int \<Rightarrow> nat \<Rightarrow> shm_data_t \<Rightarrow> int option" where
  "bus_overdue t k s =
     (let bus = buses s k in
      if \<not> at_station bus \<or> passenger_count bus = 0 then None
      else if departure_time bus = 0 then None
      else if t > departure_time bus + 2 \<and> driver_pids s k > 0 then Some (driver_pids s k)
      else None)"

section \<open>The end of the simulation\<close>

definition all_buses_at_station_and_empty :: "shm_data_t \<Rightarrow> bool" where
  "all_buses_at_station_and_empty s =
     list_all (\<lambda>k. at_station (buses s k) \<and> passenger_count (buses s k) = 0
                  \<and> entering_count (buses s k) = 0) [0..<MAX_BUSES]"

definition check_simulation_end :: "shm_data_t \<Rightarrow> bool" where
  "check_simulation_end s =
     (if test_fill_queue s then False
      else if \<not> simulation_running s then True
      else if spawning_stopped s \<and> passengers_waiting s \<le> 0 \<and> passengers_in_office s \<le> 0
              \<and> all_buses_at_station_and_empty s then True
      else False)"

definition account_bus :: "nat \<Rightarrow> shm_data_t \<Rightarrow> shm_data_t" where
  "account_bus k s =
     (let n = passenger_count (buses s k) in
      if n > 0 then upd_bus k (\<lambda>u. u\<lparr>passenger_count := 0\<rparr>)
                      (s\<lparr>passengers_transported := passengers_transported s + n\<rparr>)
      else s)"

definition shutdown_accounting :: "shm_data_t \<Rightarrow> shm_data_t" where
  "shutdown_accounting s = fold account_bus [0..<MAX_BUSES] (s\<lparr>simulation_running := False\<rparr>)"

text \<open>The sum \<open>print_final_stats\<close> compares with the number of people created.\<close>

definition final_sum :: "shm_data_t \<Rightarrow> int" where
  "final_sum s = passengers_transported s + passengers_waiting s + passengers_in_office s
     + on_bus s + passengers_left_early s"

definition stats_diff :: "shm_data_t \<Rightarrow> int" where
  "stats_diff s = total_passengers_created s - final_sum s"

definition stats_inconsistent :: "shm_data_t \<Rightarrow> bool" where
  "stats_inconsistent s \<longleftrightarrow> total_passengers_created s \<noteq> final_sum s"

lemmas dispatcher_sections [section_defs] =
  close_station_def check_driver_health_def shutdown_accounting_def

section \<open>The process\<close>

datatype xpc =
    X_Loop | X_Early | X_Block | X_SetEntry | X_SetSlots | X_Health | X_Overdue nat
  | X_End | X_Shutdown | X_Cleanup | X_Done

record disp_st =
  x_pc :: xpc
  x_running :: bool
  x_early_depart :: bool
  x_block_station :: bool
  x_killed :: bool

definition init_dispatcher :: disp_st where
  "init_dispatcher = \<lparr>x_pc = X_Loop, x_running = True, x_early_depart = False,
     x_block_station = False, x_killed = False\<rparr>"

text \<open>
  A step yields the new state, the new world and the processes SIGUSR1 is sent to.
  The counters of the queue-depth warning and of the status line are not kept: both
  calls only read the shared state.
\<close>

definition dispatcher_step ::
  "cfg \<Rightarrow> env_in \<Rightarrow> (int \<Rightarrow> bool) \<Rightarrow> disp_st \<Rightarrow> world \<Rightarrow> (disp_st \<times> world \<times> int list) option" where
  "dispatcher_step c i dead x w =
     (case x_pc x of
        X_Loop \<Rightarrow> Some (x\<lparr>x_pc := (if x_running x then X_Early else X_Shutdown)\<rparr>, w, [])
      | X_Early \<Rightarrow>
          if x_early_depart x
          then Some (x\<lparr>x_early_depart := False, x_pc := X_Block\<rparr>, w, forward_signal_to_drivers (shm w))
          else Some (x\<lparr>x_pc := X_Block\<rparr>, w, [])
      | X_Block \<Rightarrow>
          if x_block_station x \<and> \<not> station_closed (shm w)
          then Some (x\<lparr>x_pc := X_SetEntry\<rparr>, upd_shm close_station w, [])
          else Some (x\<lparr>x_pc := X_Health\<rparr>, w, [])
      | X_SetEntry \<Rightarrow> Some (x\<lparr>x_pc := X_SetSlots\<rparr>, w_setval SEM_STATION_ENTRY 1000 w, [])
      | X_SetSlots \<Rightarrow> Some (x\<lparr>x_pc := X_Health\<rparr>, w_setval SEM_TICKET_QUEUE_SLOTS 1000 w, [])
      | X_Health \<Rightarrow>
          Some (x\<lparr>x_pc := X_Overdue 0\<rparr>, upd_shm (check_driver_health c (now i) dead) w, [])
      | X_Overdue k \<Rightarrow>
          if k < MAX_BUSES
          then Some (x\<lparr>x_pc := X_Overdue (k + 1)\<rparr>, w,
                     (case bus_overdue (now i) k (shm w) of None \<Rightarrow> [] | Some p \<Rightarrow> [p]))
          else Some (x\<lparr>x_pc := X_End\<rparr>, w, [])
      | X_End \<Rightarrow>
          Some (x\<lparr>x_pc := (if check_simulation_end (shm w) then X_Shutdown else X_Loop)\<rparr>, w, [])
      | X_Shutdown \<Rightarrow>
          Some (x\<lparr>x_pc := X_Cleanup\<rparr>,
                (if ipc_alive w then upd_shm shutdown_accounting w else w), [])
      | X_Cleanup \<Rightarrow> Some (x\<lparr>x_pc := X_Done\<rparr>, w\<lparr>ipc_alive := False\<rparr>, [])
      | X_Done \<Rightarrow> None)"

definition dispatcher_handle_sigusr1 :: "disp_st \<Rightarrow> disp_st" where
  "dispatcher_handle_sigusr1 x = x\<lparr>x_early_depart := True\<rparr>"
definition dispatcher_handle_sigusr2 :: "disp_st \<Rightarrow> disp_st" where
  "dispatcher_handle_sigusr2 x = x\<lparr>x_block_station := True\<rparr>"
definition dispatcher_handle_shutdown :: "disp_st \<Rightarrow> disp_st" where
  "dispatcher_handle_shutdown x = x\<lparr>x_running := False\<rparr>"

section \<open>The steps by their effect\<close>

text \<open>What the watchdog may write: the doors and departure times, the table of drivers, the active bus.\<close>

lemma clear_dead_driver_frame:
  "\<exists>bs dp. clear_dead_driver dead k s = s\<lparr>buses := bs, driver_pids := dp\<rparr>"
proof (cases "driver_pids s k > 0 \<and> dead (driver_pids s k)")
  case True
  then have "clear_dead_driver dead k s =
      s\<lparr>buses := (buses s)(k := (buses s k)\<lparr>boarding_open := False\<rparr>),
        driver_pids := (driver_pids s)(k := 0)\<rparr>"
    by (simp add: clear_dead_driver_def upd_bus_def)
  then show ?thesis by blast
next
  case False
  then have "clear_dead_driver dead k s = s\<lparr>buses := buses s, driver_pids := driver_pids s\<rparr>"
    by (auto simp: clear_dead_driver_def)
  then show ?thesis by blast
qed

lemma clear_all_frame:
  "\<exists>bs dp. fold (clear_dead_driver dead) ks s = s\<lparr>buses := bs, driver_pids := dp\<rparr>"
proof (induction ks arbitrary: s)
  case Nil
  have "fold (clear_dead_driver dead) [] s = s\<lparr>buses := buses s, driver_pids := driver_pids s\<rparr>" by simp
  then show ?case by blast
next
  case (Cons k ks)
  obtain bs dp where "clear_dead_driver dead k s = s\<lparr>buses := bs, driver_pids := dp\<rparr>"
    using clear_dead_driver_frame by blast
  with Cons.IH [of "s\<lparr>buses := bs, driver_pids := dp\<rparr>"] show ?case by auto
qed

lemma reassign_frame:
  "\<exists>bs a. (case find P [0..<MAX_BUSES] of
        Some k \<Rightarrow> upd_bus k f (m\<lparr>active_bus_id := int k\<rparr>)
      | None \<Rightarrow> m\<lparr>active_bus_id := -1\<rparr>)
    = m\<lparr>buses := bs, active_bus_id := a\<rparr> \<and> -1 \<le> a \<and> a < int MAX_BUSES"
proof (cases "find P [0..<MAX_BUSES]")
  case None
  then show ?thesis
    by (intro exI [of _ "buses m"] exI [of _ "-1"]) simp
next
  case (Some k)
  then have "k < MAX_BUSES" by (auto dest: find_SomeD)
  with Some show ?thesis
    by (intro exI [of _ "(buses m)(k := f (buses m k))"] exI [of _ "int k"])
      (simp add: upd_bus_def)
qed

lemma check_driver_health_frame:
  "\<exists>bs dp a. check_driver_health c t dead s = s\<lparr>buses := bs, driver_pids := dp, active_bus_id := a\<rparr>
     \<and> (a = active_bus_id s \<or> -1 \<le> a \<and> a < int MAX_BUSES)"
proof -
  obtain bs dp where s1: "fold (clear_dead_driver dead) [0..<MAX_BUSES] s
      = s\<lparr>buses := bs, driver_pids := dp\<rparr>" (is "_ = ?s1")
    using clear_all_frame by blast
  obtain C where eq: "check_driver_health c t dead s =
     (if C then (case find (\<lambda>k. driver_pids ?s1 k > 0 \<and> at_station (buses ?s1 k)) [0..<MAX_BUSES] of
         Some k \<Rightarrow>
           upd_bus k (\<lambda>u. u\<lparr>departure_time := t + boarding_interval c, boarding_open := True\<rparr>)
             (?s1\<lparr>active_bus_id := int k\<rparr>)
       | None \<Rightarrow> ?s1\<lparr>active_bus_id := -1\<rparr>) else ?s1)"
    by (rule that, unfold check_driver_health_def Let_def s1, rule refl)
  show ?thesis
  proof (cases C)
    case True
    from reassign_frame
    obtain bs' a where "check_driver_health c t dead s = ?s1\<lparr>buses := bs', active_bus_id := a\<rparr>"
      "-1 \<le> a" "a < int MAX_BUSES"
      unfolding eq if_P [OF True] by blast
    then show ?thesis
      by (intro exI [of _ bs'] exI [of _ dp] exI [of _ a]) simp
  next
    case False
    then have "check_driver_health c t dead s =
      s\<lparr>buses := bs, driver_pids := dp, active_bus_id := active_bus_id s\<rparr>"
      unfolding eq by simp
    then show ?thesis by blast
  qed
qed

lemma shutdown_accounting_frame:
  "\<exists>bs n. shutdown_accounting s
     = s\<lparr>simulation_running := False, buses := bs, passengers_transported := n\<rparr>"
proof -
  have one: "\<exists>bs n. account_bus k m = m\<lparr>buses := bs, passengers_transported := n\<rparr>" for k m
  proof (cases "passenger_count (buses m k) > 0")
    case True
    then have "account_bus k m = m\<lparr>buses := (buses m)(k := (buses m k)\<lparr>passenger_count := 0\<rparr>),
        passengers_transported := passengers_transported m + passenger_count (buses m k)\<rparr>"
      by (simp add: account_bus_def upd_bus_def Let_def)
    then show ?thesis by blast
  next
    case False
    then have "account_bus k m = m\<lparr>buses := buses m, passengers_transported := passengers_transported m\<rparr>"
      by (simp add: account_bus_def)
    then show ?thesis by blast
  qed
  have "\<exists>bs n. fold account_bus ks m = m\<lparr>buses := bs, passengers_transported := n\<rparr>" for ks m
  proof (induction ks arbitrary: m)
    case Nil
    have "fold account_bus [] m
        = m\<lparr>buses := buses m, passengers_transported := passengers_transported m\<rparr>" by simp
    then show ?case by blast
  next
    case (Cons k ks)
    obtain bs n where "account_bus k m = m\<lparr>buses := bs, passengers_transported := n\<rparr>"
      using one by blast
    with Cons.IH [of "account_bus k m"] show ?case by auto
  qed
  from this [of "[0..<MAX_BUSES]" "s\<lparr>simulation_running := False\<rparr>"]
  show ?thesis by (auto simp: shutdown_accounting_def)
qed

lemma dispatcher_stepE [consumes 1, case_names quiet close setval health account cleanup]:
  assumes "dispatcher_step c e dead x w = Some (x', w', sig)"
  obtains "w' = w"
  | "x_pc x = X_Block" "x_block_station x" "\<not> station_closed (shm w)" "w' = upd_shm close_station w"
  | n where "(x_pc x, n) \<in> {(X_SetEntry, SEM_STATION_ENTRY), (X_SetSlots, SEM_TICKET_QUEUE_SLOTS)}"
      "w' = w_setval n 1000 w"
  | "x_pc x = X_Health" "w' = upd_shm (check_driver_health c (now e) dead) w"
  | "x_pc x = X_Shutdown" "ipc_alive w" "w' = upd_shm shutdown_accounting w"
  | "x_pc x = X_Cleanup" "w' = w\<lparr>ipc_alive := False\<rparr>"
  using assms
proof (cases "x_pc x")
  case X_Loop
  with assms that(1) show ?thesis by (auto simp: dispatcher_step_def split: if_splits)
next
  case X_Early
  with assms that(1) show ?thesis by (auto simp: dispatcher_step_def split: if_splits)
next
  case X_Block
  show ?thesis
  proof (cases "x_block_station x \<and> \<not> station_closed (shm w)")
    case True
    with assms X_Block have "w' = upd_shm close_station w" by (simp add: dispatcher_step_def)
    with that(2) True X_Block show ?thesis by simp
  next
    case False
    with assms X_Block have "w' = w" by (auto simp: dispatcher_step_def)
    with that(1) show ?thesis by simp
  qed
next
  case X_SetEntry
  with assms that(3) show ?thesis by (auto simp: dispatcher_step_def split: if_splits)
next
  case X_SetSlots
  with assms that(3) show ?thesis by (auto simp: dispatcher_step_def split: if_splits)
next
  case X_Health
  with assms that(4) show ?thesis by (auto simp: dispatcher_step_def split: if_splits)
next
  case (X_Overdue k)
  with assms that(1) show ?thesis by (auto simp: dispatcher_step_def split: if_splits)
next
  case X_End
  with assms that(1) show ?thesis by (auto simp: dispatcher_step_def split: if_splits)
next
  case X_Shutdown
  show ?thesis
  proof (cases "ipc_alive w")
    case True
    with assms X_Shutdown have "w' = upd_shm shutdown_accounting w" by (simp add: dispatcher_step_def)
    with that(5) True X_Shutdown show ?thesis by simp
  next
    case False
    with assms X_Shutdown have "w' = w" by (simp add: dispatcher_step_def)
    with that(1) show ?thesis by simp
  qed
next
  case X_Cleanup
  with assms that(6) show ?thesis by (auto simp: dispatcher_step_def split: if_splits)
next
  case X_Done
  with assms show ?thesis by (simp add: dispatcher_step_def)
qed

end
