(* ===== verification/System.thy ===== *)
theory System
  imports Dispatcher
begin

text \<open>
  The whole simulation: the shared world with any number of passenger processes, the
  three drivers, the two ticket offices and the dispatcher, interleaved arbitrarily.
  One step of the system is one atomic section or system call of one process, the
  delivery of a signal, the death of a process, or an action of the main process.
  The sections under \<open>SEM_SHM_MUTEX\<close> are atomic because the mutex serialises them;
  a process that is killed keeps its program point for ever.
\<close>

record system =
  wrld :: world
  ps :: "passenger_st list"
  ds :: "driver_st list"
  fs :: "office_st list"
  dx :: disp_st

definition init_world :: "int \<Rightarrow> world" where
  "init_world p = \<lparr>shm = init_shared_state p, sems = initial_sems, ticket_q = [],
     ticket_resp_q = [], boarding_q = [], boarding_resp_q = [], ipc_alive = True\<rparr>"

text \<open>
  The dispatcher has initialised the segment and \<open>main\<close> has spawned the drivers and
  the offices.
\<close>

definition sys_init :: "int \<Rightarrow> (nat \<Rightarrow> int) \<Rightarrow> (nat \<Rightarrow> int) \<Rightarrow> system" where
  "sys_init xp dp fp = \<lparr>wrld = init_world xp, ps = [],
     ds = map (\<lambda>b. init_driver b (dp b)) [0..<MAX_BUSES],
     fs = map (\<lambda>k. init_office (fp k)) [0..<TICKET_OFFICES],
     dx = init_dispatcher\<rparr>"

definition sys_start :: "system \<Rightarrow> bool" where
  "sys_start s \<longleftrightarrow> (\<exists>xp dp fp. (\<forall>b < MAX_BUSES. dp b > 0) \<and> s = sys_init xp dp fp)"

text \<open>SIGUSR1 sent to a list of process ids: only drivers receive it here.\<close>

definition deliver_usr1 :: "int list \<Rightarrow> driver_st list \<Rightarrow> driver_st list" where
  "deliver_usr1 pids xs =
     map (\<lambda>d. if d_pid d \<in> set pids then driver_handle_early_departure d else d) xs"

definition driver_gone :: "driver_st \<Rightarrow> bool" where
  "driver_gone d \<longleftrightarrow> d_killed d \<or> d_pc d = D_Done"

inductive sys_step :: "cfg \<Rightarrow> system \<Rightarrow> system \<Rightarrow> bool" for c :: cfg where
  passenger: "\<lbrakk> i < length (ps s); \<not> p_killed (ps s ! i);
      passenger_step e (ps s ! i) (wrld s) = Some (p', w') \<rbrakk> \<Longrightarrow>
    sys_step c s (s\<lparr>ps := (ps s)[i := p'], wrld := w'\<rparr>)"
| child: "\<lbrakk> i < length (ps s); \<not> p_killed (ps s ! i); child_step (ps s ! i) = Some p' \<rbrakk> \<Longrightarrow>
    sys_step c s (s\<lparr>ps := (ps s)[i := p']\<rparr>)"
| driver: "\<lbrakk> b < length (ds s); \<not> d_killed (ds s ! b);
      driver_step c e b (ds s ! b) (wrld s) = Some (d', w') \<rbrakk> \<Longrightarrow>
    sys_step c s (s\<lparr>ds := (ds s)[b := d'], wrld := w'\<rparr>)"
| office: "\<lbrakk> k < length (fs s); \<not> o_killed (fs s ! k);
      office_step e k (fs s ! k) (wrld s) = Some (f', w') \<rbrakk> \<Longrightarrow>
    sys_step c s (s\<lparr>fs := (fs s)[k := f'], wrld := w'\<rparr>)"
| dispatcher: "\<lbrakk> \<not> x_killed (dx s);
      \<And>d. d \<in> set (ds s) \<Longrightarrow> dead (d_pid d) \<Longrightarrow> driver_gone d;
      dispatcher_step c e dead (dx s) (wrld s) = Some (x', w', sig) \<rbrakk> \<Longrightarrow>
    sys_step c s (s\<lparr>dx := x', wrld := w', ds := deliver_usr1 sig (ds s)\<rparr>)"
| spawn: "\<lbrakk> 0 < q; q \<notin> (pid \<circ> p_info) ` set (ps s) \<rbrakk> \<Longrightarrow>
    sys_step c s (s\<lparr>ps := ps s @ [init_passenger_st (init_passenger q r1 r2 r3 r4 r5)]\<rparr>)"
| main_stop: "sys_step c s (s\<lparr>wrld := upd_shm (\<lambda>m. m\<lparr>spawning_stopped := True\<rparr>) (wrld s)\<rparr>)"
| main_cleanup: "sys_step c s (s\<lparr>wrld := (wrld s)\<lparr>ipc_alive := False\<rparr>\<rparr>)"
| sig_early: "sys_step c s (s\<lparr>dx := dispatcher_handle_sigusr1 (dx s)\<rparr>)"
| sig_close: "sys_step c s (s\<lparr>dx := dispatcher_handle_sigusr2 (dx s)\<rparr>)"
| term_dispatcher: "sys_step c s (s\<lparr>dx := dispatcher_handle_shutdown (dx s)\<rparr>)"
| term_passenger: "i < length (ps s) \<Longrightarrow>
    sys_step c s (s\<lparr>ps := (ps s)[i := passenger_handle_shutdown (ps s ! i)]\<rparr>)"
| term_driver: "b < length (ds s) \<Longrightarrow>
    sys_step c s (s\<lparr>ds := (ds s)[b := driver_handle_shutdown (ds s ! b)]\<rparr>)"
| term_office: "k < length (fs s) \<Longrightarrow>
    sys_step c s (s\<lparr>fs := (fs s)[k := office_handle_shutdown (fs s ! k)]\<rparr>)"
| kill_passenger: "i < length (ps s) \<Longrightarrow>
    sys_step c s (s\<lparr>ps := (ps s)[i := (ps s ! i)\<lparr>p_killed := True\<rparr>]\<rparr>)"
| kill_driver: "b < length (ds s) \<Longrightarrow>
    sys_step c s (s\<lparr>ds := (ds s)[b := (ds s ! b)\<lparr>d_killed := True\<rparr>]\<rparr>)"
| kill_office: "k < length (fs s) \<Longrightarrow>
    sys_step c s (s\<lparr>fs := (fs s)[k := (fs s ! k)\<lparr>o_killed := True\<rparr>]\<rparr>)"
| kill_dispatcher: "sys_step c s (s\<lparr>dx := (dx s)\<lparr>x_killed := True\<rparr>\<rparr>)"

inductive_cases sys_stepE: "sys_step c s t"

definition reachable :: "cfg \<Rightarrow> system \<Rightarrow> bool" where
  "reachable c s \<longleftrightarrow> reach sys_start (sys_step c) s"

section \<open>What the steps of each process leave alone\<close>

lemma passenger_step_frame:
  assumes "passenger_step e p w = Some (p', w')"
  shows "buses (shm w') = buses (shm w) \<and> active_bus_id (shm w') = active_bus_id (shm w)
    \<and> driver_pids (shm w') = driver_pids (shm w)
    \<and> simulation_running (shm w') = simulation_running (shm w)
    \<and> station_open (shm w') = station_open (shm w)
    \<and> station_closed (shm w') = station_closed (shm w)
    \<and> spawning_stopped (shm w') = spawning_stopped (shm w)
    \<and> boarding_allowed (shm w') = boarding_allowed (shm w)
    \<and> ipc_alive w' = ipc_alive w"
  using assms
  by (cases "p_pc p")
    (auto simp: passenger_step_defs Let_def world_simps section_defs recv_ticket_resp_def
      recv_boarding_resp_def board_retry_def split: if_splits option.splits prod.splits)

lemma office_step_frame:
  assumes "office_step e k f w = Some (f', w')"
  shows "buses (shm w') = buses (shm w) \<and> active_bus_id (shm w') = active_bus_id (shm w)
    \<and> driver_pids (shm w') = driver_pids (shm w)
    \<and> simulation_running (shm w') = simulation_running (shm w)
    \<and> station_open (shm w') = station_open (shm w)
    \<and> station_closed (shm w') = station_closed (shm w)
    \<and> spawning_stopped (shm w') = spawning_stopped (shm w)
    \<and> boarding_allowed (shm w') = boarding_allowed (shm w)
    \<and> ipc_alive w' = ipc_alive w"
  using assms
  by (cases "o_pc f")
    (auto simp: office_step_def Let_def world_simps section_defs recv_ticket_def
      recv_ticket_nowait_def split: if_splits option.splits prod.splits)

section \<open>The steps in six groups\<close>

text \<open>
  Signals, deaths, the child thread and the main process touch no program point, no
  message and no counter: \<open>same_code\<close>. An invariant over program points, messages and
  counters has then only five proper cases.
\<close>

definition p_view :: "passenger_st \<Rightarrow> ppc \<times> passenger_info_t \<times> nat \<times> bool" where
  "p_view p = (p_pc p, p_info p, p_attempts p, p_adult_boarded p)"

definition all_running :: "system \<Rightarrow> bool" where
  "all_running s \<longleftrightarrow> (\<forall>p \<in> set (ps s). p_running p)"

definition same_code :: "system \<Rightarrow> system \<Rightarrow> bool" where
  "same_code s t \<longleftrightarrow>
     map p_view (ps t) = map p_view (ps s) \<and> (all_running t \<longrightarrow> all_running s)
     \<and> map d_pc (ds t) = map d_pc (ds s) \<and> map o_pc (fs t) = map o_pc (fs s)
     \<and> x_pc (dx t) = x_pc (dx s)
     \<and> (\<exists>v a. wrld t = (wrld s)\<lparr>shm := (shm (wrld s))\<lparr>spawning_stopped := v\<rparr>, ipc_alive := a\<rparr>
            \<and> (a \<longrightarrow> ipc_alive (wrld s)) \<and> (spawning_stopped (shm (wrld s)) \<longrightarrow> v))"

lemma same_codeD:
  assumes "same_code s t"
  shows "map p_view (ps t) = map p_view (ps s)" "all_running t \<Longrightarrow> all_running s"
    "map d_pc (ds t) = map d_pc (ds s)" "map o_pc (fs t) = map o_pc (fs s)"
    "x_pc (dx t) = x_pc (dx s)"
    "\<exists>v a. wrld t = (wrld s)\<lparr>shm := (shm (wrld s))\<lparr>spawning_stopped := v\<rparr>, ipc_alive := a\<rparr>"
    "ipc_alive (wrld t) \<Longrightarrow> ipc_alive (wrld s)"
    "sems (wrld t) = sems (wrld s)" "ticket_q (wrld t) = ticket_q (wrld s)"
    "ticket_resp_q (wrld t) = ticket_resp_q (wrld s)" "boarding_q (wrld t) = boarding_q (wrld s)"
    "boarding_resp_q (wrld t) = boarding_resp_q (wrld s)"
  using assms unfolding same_code_def by auto

lemma map_update_same: "f y = f (xs ! i) \<Longrightarrow> map f (xs[i := y]) = map f xs"
  by (cases "i < length xs") (simp_all add: map_update list_update_same_conv list_update_beyond)

lemma child_step_view:
  "child_step p = Some p' \<Longrightarrow> p_view p' = p_view p \<and> p_running p' = p_running p \<and> p_killed p' = p_killed p"
  by (auto simp: child_step_def p_view_def split: cpc.splits if_splits)

lemma all_running_update:
  assumes "all_running (s\<lparr>ps := (ps s)[i := p']\<rparr>)"
    and "i < length (ps s)" and "p_running p' \<longrightarrow> p_running (ps s ! i)"
  shows "all_running s"
  unfolding all_running_def
proof
  fix p assume "p \<in> set (ps s)"
  then obtain j where j: "j < length (ps s)" "p = ps s ! j" by (auto simp: in_set_conv_nth)
  have "\<forall>k < length (ps s). p_running ((ps s)[i := p'] ! k)"
    using assms(1) by (simp add: all_running_def all_set_conv_all_nth)
  with j assms(2,3) show "p_running p" by (cases "j = i") (auto dest: spec [of _ j])
qed

lemma same_codeI:
  assumes "map p_view (ps t) = map p_view (ps s)" and "all_running t \<Longrightarrow> all_running s"
    and "map d_pc (ds t) = map d_pc (ds s)" and "map o_pc (fs t) = map o_pc (fs s)"
    and "x_pc (dx t) = x_pc (dx s)" and "wrld t = wrld s"
  shows "same_code s t"
proof -
  have "wrld t = (wrld s)\<lparr>shm := (shm (wrld s))\<lparr>spawning_stopped := spawning_stopped (shm (wrld s))\<rparr>,
      ipc_alive := ipc_alive (wrld s)\<rparr>"
    using assms(6) by simp
  with assms(1-5) show ?thesis unfolding same_code_def by blast
qed

lemma all_running_cong: "ps t = ps s \<Longrightarrow> all_running t = all_running s"
  by (simp add: all_running_def)

lemma sys_step_groups [consumes 1, case_names passenger driver office dispatcher spawn control]:
  assumes "sys_step c s t"
  obtains
    i e p' w' where "i < length (ps s)" "passenger_step e (ps s ! i) (wrld s) = Some (p', w')"
      "t = s\<lparr>ps := (ps s)[i := p'], wrld := w'\<rparr>"
  | b e d' w' where "b < length (ds s)" "driver_step c e b (ds s ! b) (wrld s) = Some (d', w')"
      "t = s\<lparr>ds := (ds s)[b := d'], wrld := w'\<rparr>"
  | k e f' w' where "k < length (fs s)" "office_step e k (fs s ! k) (wrld s) = Some (f', w')"
      "t = s\<lparr>fs := (fs s)[k := f'], wrld := w'\<rparr>"
  | e dead x' w' sig where "dispatcher_step c e dead (dx s) (wrld s) = Some (x', w', sig)"
      "t = s\<lparr>dx := x', wrld := w', ds := deliver_usr1 sig (ds s)\<rparr>"
  | q r1 r2 r3 r4 r5 where "0 < q" "q \<notin> (pid \<circ> p_info) ` set (ps s)"
      "t = s\<lparr>ps := ps s @ [init_passenger_st (init_passenger q r1 r2 r3 r4 r5)]\<rparr>"
  | "same_code s t"
  using assms
proof (cases rule: sys_step.cases)
  case (passenger i e p' w')
  with that(1) show ?thesis by blast
next
  case (child i p')
  with child_step_view [OF child(4)] have "same_code s t"
    by (intro same_codeI) (auto simp: map_update_same intro: all_running_update)
  with that(6) show ?thesis .
next
  case (driver b e d' w')
  with that(2) show ?thesis by blast
next
  case (office k e f' w')
  with that(3) show ?thesis by blast
next
  case (dispatcher dead e x' w' sig)
  with that(4) show ?thesis by blast
next
  case (spawn q r1 r2 r3 r4 r5)
  with that(5) show ?thesis by blast
next
  case main_stop
  then have "wrld t = (wrld s)\<lparr>shm := (shm (wrld s))\<lparr>spawning_stopped := True\<rparr>,
      ipc_alive := ipc_alive (wrld s)\<rparr>" and "ps t = ps s" "ds t = ds s" "fs t = fs s" "dx t = dx s"
    by (simp_all add: upd_shm_def)
  then have "same_code s t" unfolding same_code_def all_running_def by metis
  with that(6) show ?thesis .
next
  case main_cleanup
  then have "wrld t = (wrld s)\<lparr>shm := (shm (wrld s))\<lparr>spawning_stopped := spawning_stopped (shm (wrld s))\<rparr>,
      ipc_alive := False\<rparr>" and "ps t = ps s" "ds t = ds s" "fs t = fs s" "dx t = dx s"
    by simp_all
  then have "same_code s t" unfolding same_code_def all_running_def by metis
  with that(6) show ?thesis .
next
  case sig_early
  then have "same_code s t"
    by (intro same_codeI) (auto simp: dispatcher_handle_sigusr1_def all_running_def)
  with that(6) show ?thesis .
next
  case sig_close
  then have "same_code s t"
    by (intro same_codeI) (auto simp: dispatcher_handle_sigusr2_def all_running_def)
  with that(6) show ?thesis .
next
  case term_dispatcher
  then have "same_code s t"
    by (intro same_codeI) (auto simp: dispatcher_handle_shutdown_def all_running_def)
  with that(6) show ?thesis .
next
  case (term_passenger i)
  then have "same_code s t"
    by (intro same_codeI)
      (auto simp: passenger_handle_shutdown_def map_update_same p_view_def dest: all_running_update)
  with that(6) show ?thesis .
next
  case (term_driver b)
  then have "same_code s t"
    by (intro same_codeI) (auto simp: driver_handle_shutdown_def map_update_same all_running_def)
  with that(6) show ?thesis .
next
  case (term_office k)
  then have "same_code s t"
    by (intro same_codeI) (auto simp: office_handle_shutdown_def map_update_same all_running_def)
  with that(6) show ?thesis .
next
  case (kill_passenger i)
  then have "same_code s t"
    by (intro same_codeI) (auto simp: map_update_same p_view_def intro: all_running_update)
  with that(6) show ?thesis .
next
  case (kill_driver b)
  then have "same_code s t"
    by (intro same_codeI) (auto simp: map_update_same all_running_def)
  with that(6) show ?thesis .
next
  case (kill_office k)
  then have "same_code s t"
    by (intro same_codeI) (auto simp: map_update_same all_running_def)
  with that(6) show ?thesis .
next
  case kill_dispatcher
  then have "same_code s t"
    by (intro same_codeI) (auto simp: all_running_def)
  with that(6) show ?thesis .
qed

lemma deliver_usr1_pcs [simp]: "map d_pc (deliver_usr1 sig xs) = map d_pc xs"
  by (auto simp: deliver_usr1_def driver_handle_early_departure_def)

end
