(* ===== verification/Bus_Safety.thy ===== *)
theory Bus_Safety
  imports System
begin

text \<open>
  The safety of a bus: its counters stay within capacity, the door is reserved exactly
  while its driver lets somebody in, and the bus is at the station exactly while its
  driver is not travelling. Each driver is the only process that writes the counters of
  its bus, except for the dispatcher's accounting at shutdown.
\<close>

section \<open>The invariant of one bus\<close>

fun door_request :: "dpc \<Rightarrow> boarding_msg_t option" where
  "door_request (D_EntLock m r) = Some m"
| "door_request (D_Board m r) = Some m"
| "door_request _ = None"

fun travelling :: "dpc \<Rightarrow> bool" where
  "travelling (D_Travel f) = True"
| "travelling _ = False"

definition fits :: "boarding_msg_t \<Rightarrow> bus_state_t \<Rightarrow> bool" where
  "fits m u \<longleftrightarrow> passenger_count u + seats_of (bm_passenger m) \<le> BUS_CAPACITY
     \<and> (has_bike (bm_passenger m) \<longrightarrow> bike_count u < BIKE_CAPACITY)"

definition bus_inv :: "driver_st \<Rightarrow> bus_state_t \<Rightarrow> bool" where
  "bus_inv d u \<longleftrightarrow>
     0 \<le> passenger_count u \<and> passenger_count u \<le> BUS_CAPACITY
     \<and> 0 \<le> bike_count u \<and> bike_count u \<le> BIKE_CAPACITY
     \<and> entering_count u = (if door_request (d_pc d) = None then 0 else 1)
     \<and> (at_station u \<longleftrightarrow> \<not> travelling (d_pc d))
     \<and> (\<forall>m. door_request (d_pc d) = Some m \<longrightarrow> fits m u)
     \<and> (d_pc d = D_Start \<longrightarrow> passenger_count u = 0)"

lemma init_bus_inv: "bus_inv (init_driver b p) (init_bus b)"
  by (simp add: bus_inv_def init_driver_def init_bus_def)

lemma idle_points [simp]:
  "d_idle q \<Longrightarrow> door_request q = None"
  "d_idle q \<Longrightarrow> \<not> travelling q"
  "d_idle q \<Longrightarrow> q \<noteq> D_Start"
  by (cases q; simp)+

lemma driver_step_bus_inv:
  assumes "driver_step c e b d w = Some (d', w')" and "bus_inv d (buses (shm w) b)"
  shows "bus_inv d' (buses (shm w') b)"
  using assms
  by (cases rule: driver_stepE)
    (auto simp: bus_inv_def fits_def world_simps section_defs Let_def can_board_iff)

lemma driver_step_other_bus:
  assumes "driver_step c e b d w = Some (d', w')" and "k \<noteq> b"
  shows "buses (shm w') k = buses (shm w) k"
  using assms by (cases rule: driver_stepE) (auto simp: world_simps section_defs Let_def)

section \<open>The dispatcher and the buses\<close>

text \<open>What the dispatcher may do to a bus: open or close boarding, set a departure time, and empty it.\<close>

definition bus_untouched :: "bus_state_t \<Rightarrow> bus_state_t \<Rightarrow> bool" where
  "bus_untouched u v \<longleftrightarrow> at_station v = at_station u \<and> bike_count v = bike_count u
     \<and> entering_count v = entering_count u
     \<and> (passenger_count v = passenger_count u \<or> passenger_count v = 0)"

lemma bus_untouched_inv: "bus_untouched u v \<Longrightarrow> bus_inv d u \<Longrightarrow> bus_inv d v"
  by (auto simp: bus_untouched_def bus_inv_def fits_def)

lemma health_keeps_buses: "bus_untouched (buses s k) (buses (check_driver_health c t dead s) k)"
proof -
  have clear: "bus_untouched u (buses (clear_dead_driver dead j m) k)"
    if "bus_untouched u (buses m k)" for u j m
    using that by (auto simp: clear_dead_driver_def bus_untouched_def)
  have fold: "bus_untouched u (buses (fold (clear_dead_driver dead) js m) k)"
    if "bus_untouched u (buses m k)" for u js m
    using that by (induction js arbitrary: m) (auto intro: clear)
  have "bus_untouched (buses s k) (buses s k)" by (simp add: bus_untouched_def)
  then show ?thesis
    using fold [of "buses s k" s "[0..<MAX_BUSES]"]
    by (auto simp: check_driver_health_def Let_def bus_untouched_def split: option.splits)
qed

lemma account_bus_eq:
  "account_bus k s =
     (upd_bus k (\<lambda>u. u\<lparr>passenger_count := min 0 (passenger_count u)\<rparr>) s)
       \<lparr>passengers_transported := passengers_transported s + max 0 (passenger_count (buses s k))\<rparr>"
  by (auto simp: account_bus_def Let_def upd_bus_def)

lemma shutdown_accounting_effect:
  "passengers_transported (shutdown_accounting s) =
     passengers_transported s + bus_total (\<lambda>u. max 0 (passenger_count u)) s"
  "buses (shutdown_accounting s) k =
     (if k < MAX_BUSES then (buses s k)\<lparr>passenger_count := min 0 (passenger_count (buses s k))\<rparr>
      else buses s k)"
  "simulation_running (shutdown_accounting s) = False"
  by (auto simp: shutdown_accounting_def account_bus_eq bus_total_unfold upt_rec numeral_2_eq_2
      numeral_3_eq_3 less_Suc_eq)

lemma dispatcher_keeps_buses:
  assumes "dispatcher_step c e dead x w = Some (x', w', sig)"
    and "0 \<le> passenger_count (buses (shm w) k)"
  shows "bus_untouched (buses (shm w) k) (buses (shm w') k)"
proof -
  have same: "bus_untouched u u" for u by (simp add: bus_untouched_def)
  have acc: "bus_untouched (buses (shm w) k) (buses (shutdown_accounting (shm w)) k)"
    using assms(2) by (auto simp: shutdown_accounting_effect bus_untouched_def min_def)
  show ?thesis
    using assms(1) health_keeps_buses [of "shm w" k]
    by (cases "x_pc x")
      (auto simp: dispatcher_step_def world_simps close_station_def same acc split: if_splits)
qed

section \<open>Every reachable bus is safe\<close>

definition buses_inv :: "system \<Rightarrow> bool" where
  "buses_inv s \<longleftrightarrow> length (ds s) = MAX_BUSES
     \<and> (\<forall>b < MAX_BUSES. bus_inv (ds s ! b) (buses (shm (wrld s)) b))"

lemma buses_inv_start: "sys_start s \<Longrightarrow> buses_inv s"
  by (auto simp: sys_start_def sys_init_def buses_inv_def init_world_def init_shared_state_def
      init_bus_inv simp del: upt_Suc)

lemma bus_inv_pc: "d_pc d' = d_pc d \<Longrightarrow> bus_inv d u \<Longrightarrow> bus_inv d' u"
  by (simp add: bus_inv_def)

lemma buses_inv_local:
  assumes "buses_inv s" and "ds t = ds s" and "buses (shm (wrld t)) = buses (shm (wrld s))"
  shows "buses_inv t"
  using assms by (simp add: buses_inv_def)

lemma buses_inv_drivers:
  assumes "buses_inv s" and "length (ds t) = length (ds s)"
    and "\<And>b. b < MAX_BUSES \<Longrightarrow> d_pc (ds t ! b) = d_pc (ds s ! b)"
    and "\<And>b. b < MAX_BUSES \<Longrightarrow> bus_untouched (buses (shm (wrld s)) b) (buses (shm (wrld t)) b)"
  shows "buses_inv t"
  using assms unfolding buses_inv_def by (metis bus_inv_pc bus_untouched_inv)

lemma deliver_usr1_nth [simp]:
  "length (deliver_usr1 sig xs) = length xs"
  "b < length xs \<Longrightarrow> d_pc (deliver_usr1 sig xs ! b) = d_pc (xs ! b)"
  "b < length xs \<Longrightarrow> d_pid (deliver_usr1 sig xs ! b) = d_pid (xs ! b)"
  "b < length xs \<Longrightarrow> d_killed (deliver_usr1 sig xs ! b) = d_killed (xs ! b)"
  by (auto simp: deliver_usr1_def driver_handle_early_departure_def)

lemma buses_inv_driver:
  assumes inv: "buses_inv s" and b: "b < length (ds s)"
    and step: "driver_step c e b (ds s ! b) (wrld s) = Some (d', w')"
  shows "buses_inv (s\<lparr>ds := (ds s)[b := d'], wrld := w'\<rparr>)"
proof -
  have "bus_inv (((ds s)[b := d']) ! k) (buses (shm w') k)" if k: "k < MAX_BUSES" for k
  proof (cases "k = b")
    case True
    with inv b k driver_step_bus_inv [OF step] show ?thesis by (simp add: buses_inv_def)
  next
    case False
    with inv k driver_step_other_bus [OF step] show ?thesis by (simp add: buses_inv_def)
  qed
  with inv show ?thesis by (simp add: buses_inv_def)
qed

lemma buses_inv_step:
  assumes "sys_step c s t" and inv: "buses_inv s"
  shows "buses_inv t"
  using assms(1)
proof (cases rule: sys_step.cases)
  case (passenger i e p' w')
  with inv passenger_step_frame show ?thesis by (intro buses_inv_local [OF inv]) auto
next
  case (driver b e d' w')
  with inv show ?thesis by (auto intro: buses_inv_driver)
next
  case (office k e f' w')
  with inv office_step_frame show ?thesis by (intro buses_inv_local [OF inv]) auto
next
  case (dispatcher dead e x' w' sig)
  have "0 \<le> passenger_count (buses (shm (wrld s)) b)" if "b < MAX_BUSES" for b
    using inv that by (auto simp: buses_inv_def bus_inv_def)
  with dispatcher inv dispatcher_keeps_buses show ?thesis
    by (intro buses_inv_drivers [OF inv]) (auto simp: buses_inv_def)
next
  case (term_driver b)
  with inv show ?thesis
    by (intro buses_inv_drivers [OF inv])
      (auto simp: nth_list_update driver_handle_shutdown_def bus_untouched_def)
next
  case (kill_driver b)
  with inv show ?thesis
    by (intro buses_inv_drivers [OF inv]) (auto simp: nth_list_update bus_untouched_def)
qed (use inv in \<open>auto simp: upd_shm_def intro: buses_inv_local [OF inv]\<close>)

interpretation bus_safety: inductive_invariant sys_start "sys_step c" buses_inv for c
  by unfold_locales (auto intro: buses_inv_start buses_inv_step)

end
