(* ===== verification/Flags.thy ===== *)
theory Flags
  imports Bus_Safety
begin

text \<open>
  The flags of the shared segment: boarding is never forbidden, the early-departure flag
  is never raised, the station is open until it is closed and then never again, and the
  active bus is a bus of the line or none.
\<close>

definition flags_ok :: "shm_data_t \<Rightarrow> bool" where
  "flags_ok m \<longleftrightarrow> boarding_allowed m \<and> \<not> early_departure_flag m
     \<and> station_open m = (\<not> station_closed m)
     \<and> (station_closed m \<longrightarrow> spawning_stopped m)
     \<and> -1 \<le> active_bus_id m \<and> active_bus_id m < int MAX_BUSES"

lemma init_flags: "flags_ok (init_shared_state p)"
  by (simp add: flags_ok_def init_shared_state_def)

lemma active_after_return_range:
  assumes "b < MAX_BUSES" and "-1 \<le> active_bus_id s" and "active_bus_id s < int MAX_BUSES"
  shows "-1 \<le> active_after_return b s \<and> active_after_return b s < int MAX_BUSES"
  using assms by (auto simp: active_after_return_def)

lemma find_next_bus_bounds: "b < MAX_BUSES \<Longrightarrow> -1 \<le> find_next_bus b s \<and> find_next_bus b s < 3"
  using find_next_bus_range [of b s] by auto

lemma driver_step_flags:
  assumes "driver_step c e b d w = Some (d', w')" and b: "b < MAX_BUSES" and inv: "flags_ok (shm w)"
  shows "flags_ok (shm w')"
  using assms(1)
proof (cases rule: driver_stepE)
  case switch
  with inv find_next_bus_bounds [OF b, of "shm w"] show ?thesis
    by (auto simp: flags_ok_def world_simps section_defs)
next
  case (return f)
  with inv active_after_return_range [OF b, of "shm w"] show ?thesis
    by (auto simp: flags_ok_def world_simps section_defs)
qed (use inv in \<open>auto simp: flags_ok_def world_simps section_defs Let_def\<close>)

lemma dispatcher_step_flags:
  assumes "dispatcher_step c e dead x w = Some (x', w', sig)" and inv: "flags_ok (shm w)"
  shows "flags_ok (shm w')"
  using assms(1)
proof (cases rule: dispatcher_stepE)
  case health
  with inv check_driver_health_frame [of c "now e" dead "shm w"] show ?thesis
    by (auto simp: flags_ok_def world_simps)
next
  case account
  with inv shutdown_accounting_frame [of "shm w"] show ?thesis
    by (auto simp: flags_ok_def world_simps)
qed (use inv in \<open>auto simp: flags_ok_def world_simps close_station_def\<close>)

lemma passenger_step_flags:
  assumes "passenger_step e p w = Some (p', w')" and inv: "flags_ok (shm w)"
  shows "flags_ok (shm w')"
  using assms(1)
  by (cases rule: passenger_stepE)
    (use inv in \<open>auto simp: flags_ok_def world_simps section_defs Let_def\<close>)

lemma office_step_flags:
  assumes "office_step e k f w = Some (f', w')" and "k < TICKET_OFFICES" and inv: "flags_ok (shm w)"
  shows "flags_ok (shm w')"
  using assms(1,2)
  by (cases rule: office_stepE)
    (use inv in \<open>auto simp: flags_ok_def world_simps section_defs Let_def dest!: housekeepingD(7)\<close>)

definition flags_inv :: "system \<Rightarrow> bool" where
  "flags_inv s \<longleftrightarrow> length (ds s) = MAX_BUSES \<and> length (fs s) = TICKET_OFFICES
     \<and> flags_ok (shm (wrld s))
     \<and> (x_pc (dx s) \<in> {X_SetEntry, X_SetSlots} \<longrightarrow> station_closed (shm (wrld s)))"

lemma flags_inv_start: "sys_start s \<Longrightarrow> flags_inv s"
  by (auto simp: sys_start_def sys_init_def flags_inv_def init_world_def init_flags
      init_dispatcher_def)

text \<open>The dispatcher raises the two semaphores only after it has closed the station.\<close>

lemma dispatcher_step_setting:
  assumes "dispatcher_step c e dead x w = Some (x', w', sig)"
    and "x_pc x \<in> {X_SetEntry, X_SetSlots} \<longrightarrow> station_closed (shm w)"
  shows "x_pc x' \<in> {X_SetEntry, X_SetSlots} \<longrightarrow> station_closed (shm w')"
  using assms
  by (cases "x_pc x") (auto simp: dispatcher_step_def world_simps close_station_def split: if_splits)

lemma flags_inv_step:
  assumes "sys_step c s t" and inv: "flags_inv s"
  shows "flags_inv t"
  using assms(1)
proof (cases rule: sys_step.cases)
  case (passenger i e p' w')
  with inv passenger_step_flags [OF passenger(4)] passenger_step_frame [OF passenger(4)]
  show ?thesis by (simp add: flags_inv_def)
next
  case (driver b e d' w')
  with inv driver_step_flags [OF driver(4)] driver_step_frame [OF driver(4)]
  show ?thesis by (simp add: flags_inv_def)
next
  case (office k e f' w')
  with inv office_step_flags [OF office(4)] office_step_frame [OF office(4)]
  show ?thesis by (simp add: flags_inv_def)
next
  case (dispatcher dead e x' w' sig)
  with inv dispatcher_step_flags [OF dispatcher(4)] dispatcher_step_setting [OF dispatcher(4)]
  show ?thesis by (simp add: flags_inv_def)
qed (use inv in \<open>auto simp: flags_inv_def flags_ok_def upd_shm_def
    dispatcher_handle_sigusr1_def dispatcher_handle_sigusr2_def dispatcher_handle_shutdown_def\<close>)

interpretation flags: inductive_invariant sys_start "sys_step c" flags_inv for c
  by unfold_locales (auto intro: flags_inv_start flags_inv_step)

section \<open>Closing is final\<close>

lemma closed_stays_closed_step:
  assumes "sys_step c s t" and inv: "flags_inv s" and "station_closed (shm (wrld s))"
  shows "station_closed (shm (wrld t))"
  using assms(1)
proof (cases rule: sys_step.cases)
  case (passenger i e p' w')
  with assms(3) show ?thesis by (auto dest: passenger_step_frame)
next
  case (driver b e d' w')
  with assms(3) show ?thesis by (auto dest!: driver_step_frame)
next
  case (office k e f' w')
  with assms(3) show ?thesis by (auto dest: office_step_frame)
next
  case (dispatcher dead e x' w' sig)
  have "station_closed (shm w')"
    using dispatcher(4)
  proof (cases rule: dispatcher_stepE)
    case health
    with assms(3) check_driver_health_frame [of c "now e" dead "shm (wrld s)"] show ?thesis
      by (auto simp: world_simps)
  next
    case account
    with assms(3) shutdown_accounting_frame [of "shm (wrld s)"] show ?thesis
      by (auto simp: world_simps)
  qed (use assms(3) in \<open>auto simp: world_simps close_station_def\<close>)
  with dispatcher(1) show ?thesis by simp
qed (use assms(3) in \<open>auto simp: upd_shm_def\<close>)

end
