(* ===== verification/Passenger_Inv.thy ===== *)
theory Passenger_Inv
  imports Flags
begin

text \<open>
  What holds of every passenger process on its own: its attributes stay those of
  \<open>init_passenger\<close>, it goes past the ticket office only with a ticket, it boards only
  with a ticket, and it fails to enter the station only when the station has closed.
\<close>

section \<open>Local variables across a step\<close>

lemma passenger_step_attempts:
  assumes "passenger_step e p w = Some (p', w')"
  shows "p_attempts p' =
    (if p_pc p = P_EnterFailed \<and> p_pc p' = P_EnterCheck then p_attempts p + 1 else p_attempts p)"
  using assms
  by (auto simp: passenger_step_defs Let_def board_retry_def split: ppc.splits if_splits option.splits prod.splits)

lemma passenger_step_adult:
  assumes "passenger_step e p w = Some (p', w')"
  shows "p_adult_boarded p' = (p_adult_boarded p \<or> p_pc p' = P_Boarded)"
  using assms
  by (auto simp: passenger_step_defs Let_def board_retry_def split: ppc.splits if_splits option.splits prod.splits)

text \<open>The exit code and the boarded flag are fixed once the passenger has finished.\<close>

fun exit_code :: "ppc \<Rightarrow> int option" where
  "exit_code P_Boarded = Some 0" | "exit_code (P_Join rc) = Some rc"
| "exit_code (P_JoinWait rc) = Some rc" | "exit_code (P_Done rc) = Some rc"
| "exit_code _ = None"

lemma finished_exit_code: "p_finished pc \<longleftrightarrow> exit_code pc \<noteq> None"
  by (cases pc) auto

lemma finish_keeps_exit_code:
  assumes "passenger_step e p w = Some (p', w')" and "p_finished (p_pc p)"
  shows "exit_code (p_pc p') = exit_code (p_pc p) \<and> p_info p' = p_info p \<and> w' = w"
  using assms
  by (auto simp: passenger_step_defs Let_def split: ppc.splits if_splits)

section \<open>The invariant of one passenger\<close>

definition info_ok :: "passenger_info_t \<Rightarrow> bool" where
  "info_ok g \<longleftrightarrow> 0 < pid g \<and> ADULT_MIN_AGE \<le> age g \<and> age g \<le> MAX_AGE \<and> \<not> is_child g
     \<and> seat_count g = (if has_child_with g then 2 else 1)
     \<and> (is_vip g \<longrightarrow> has_ticket g)
     \<and> (has_child_with g \<longrightarrow> \<not> has_bike g \<and> MIN_AGE \<le> child_age g \<and> child_age g < CHILD_AGE_LIMIT)"

lemma init_passenger_ok: "0 < q \<Longrightarrow> info_ok (init_passenger q r1 r2 r3 r4 r5)"
  by (simp add: info_ok_def init_passenger_def Let_def)

fun past_office :: "ppc \<Rightarrow> bool" where
  "past_office P_CheckClosed = True" | "past_office P_LeaveClosed = True"
| "past_office P_EnterCheck = True" | "past_office P_EnterLock = True"
| "past_office P_EnterSection = True" | "past_office (P_EnterUnlock en) = True"
| "past_office P_EnterFailed = True" | "past_office P_LeaveNotEntered = True"
| "past_office P_BoardHead = True" | "past_office P_BoardRead = True"
| "past_office (P_BoardSlot b) = True" | "past_office (P_BoardSend b) = True"
| "past_office P_BoardUndo = True" | "past_office P_BoardWait = True"
| "past_office (P_BoardUnlock r) = True" | "past_office P_LeaveStation = True"
| "past_office P_Boarded = True" | "past_office _ = False"

text \<open>The station has closed as soon as somebody failed to enter it.\<close>

definition entry_ok :: "bool \<Rightarrow> ppc \<Rightarrow> nat \<Rightarrow> bool" where
  "entry_ok closed pc n \<longleftrightarrow> n \<le> 10
     \<and> (pc = P_EnterFailed \<or> pc = P_EnterUnlock False \<or> n > 0 \<longrightarrow> closed)
     \<and> (pc = P_EnterUnlock True \<longrightarrow> n = 0)"

definition passenger_ok :: "bool \<Rightarrow> bool \<Rightarrow> passenger_st \<Rightarrow> bool" where
  "passenger_ok alive closed p \<longleftrightarrow> info_ok (p_info p)
     \<and> (past_office (p_pc p) \<or> p_adult_boarded p \<longrightarrow> has_ticket (p_info p))
     \<and> (p_adult_boarded p \<longrightarrow> exit_code (p_pc p) = Some 0)
     \<and> (exit_code (p_pc p) = Some 0 \<and> p_pc p \<noteq> P_Done 0 \<longrightarrow> p_adult_boarded p)
     \<and> exit_code (p_pc p) \<in> {None, Some 0, Some 1}
     \<and> (alive \<longrightarrow> entry_ok closed (p_pc p) (p_attempts p))"

lemma passenger_ok_init: "0 < q \<Longrightarrow> passenger_ok a c (init_passenger_st (init_passenger q r1 r2 r3 r4 r5))"
  by (simp add: passenger_ok_def init_passenger_st_def init_passenger_ok entry_ok_def)

lemma passenger_ok_mono:
  "passenger_ok a c p \<Longrightarrow> p_view q = p_view p \<Longrightarrow> (a' \<Longrightarrow> a) \<Longrightarrow> (c \<Longrightarrow> c') \<Longrightarrow> passenger_ok a' c' q"
  by (auto simp: passenger_ok_def p_view_def entry_ok_def)

lemma passenger_step_info:
  assumes "passenger_step e p w = Some (p', w')" and "info_ok (p_info p)"
    and "past_office (p_pc p) \<or> p_adult_boarded p \<longrightarrow> has_ticket (p_info p)"
  shows "info_ok (p_info p') \<and> pid (p_info p') = pid (p_info p)
    \<and> (past_office (p_pc p') \<or> p_adult_boarded p' \<longrightarrow> has_ticket (p_info p'))"
  using assms(1)
proof (cases rule: passenger_stepE)
  case finish
  have "past_office (p_pc p') \<or> p_adult_boarded p' \<longrightarrow> past_office (p_pc p) \<or> p_adult_boarded p"
    using assms(1) finish(1) by (auto simp: passenger_step_defs Let_def split: ppc.splits if_splits)
  with assms finish(3) show ?thesis by auto
qed (use assms(2,3) passenger_step_adult [OF assms(1)] in \<open>auto simp: info_ok_def split: if_splits\<close>)

lemma passenger_step_exits:
  assumes "passenger_step e p w = Some (p', w')" and "exit_code (p_pc p) = None"
  shows "exit_code (p_pc p') = None \<or> p_pc p' = P_Boarded \<or> p_pc p' = P_Join 1
    \<or> p_pc p = P_Check \<and> p_pc p' = P_Done 0"
  using assms
  by (auto simp: passenger_step_defs Let_def board_retry_def split: ppc.splits if_splits option.splits prod.splits)

lemma finish_step:
  assumes "passenger_step e p w = Some (p', w')" and "p_finished (p_pc p)"
  shows "p_pc p' \<noteq> P_Boarded \<and> (p_pc p \<noteq> P_Done rc)"
  using assms by (auto simp: passenger_step_defs Let_def split: ppc.splits if_splits)

lemma passenger_step_exit:
  assumes step: "passenger_step e p w = Some (p', w')" and ok: "passenger_ok a c p"
  shows "(p_adult_boarded p' \<longrightarrow> exit_code (p_pc p') = Some 0)
     \<and> (exit_code (p_pc p') = Some 0 \<and> p_pc p' \<noteq> P_Done 0 \<longrightarrow> p_adult_boarded p')
     \<and> exit_code (p_pc p') \<in> {None, Some 0, Some 1}"
proof (cases "p_finished (p_pc p)")
  case True
  note fin = finish_keeps_exit_code [OF step True] finish_step [OF step True]
    passenger_step_adult [OF step]
  from fin have "exit_code (p_pc p') = exit_code (p_pc p)" "p_adult_boarded p' = p_adult_boarded p"
    "p_pc p \<noteq> P_Done 0"
    by blast+
  with ok show ?thesis by (auto simp: passenger_ok_def)
next
  case False
  then have none: "exit_code (p_pc p) = None" by (simp add: finished_exit_code)
  with ok have "\<not> p_adult_boarded p" by (auto simp: passenger_ok_def)
  with passenger_step_exits [OF step none] passenger_step_adult [OF step] show ?thesis by auto
qed

lemma passenger_step_entry:
  assumes "passenger_step e p w = Some (p', w')" and "flags_ok (shm w)" and "ipc_alive w"
    and "entry_ok (station_closed (shm w)) (p_pc p) (p_attempts p)"
  shows "entry_ok (station_closed (shm w)) (p_pc p') (p_attempts p')"
proof (cases "p_pc p = P_EnterFailed")
  case True
  with assms show ?thesis
    by (auto simp: passenger_step_defs entry_ok_def split: if_splits)
next
  case False
  then have "p_attempts p' = p_attempts p"
    using passenger_step_attempts [OF assms(1)] by simp
  with assms False show ?thesis
    using assms(1)
    by (cases rule: passenger_stepE)
      (auto simp: entry_ok_def flags_ok_def world_simps split: if_splits)
qed

lemma passenger_step_ok:
  assumes step: "passenger_step e p w = Some (p', w')" and flags: "flags_ok (shm w)"
    and ok: "passenger_ok (ipc_alive w) (station_closed (shm w)) p"
  shows "passenger_ok (ipc_alive w') (station_closed (shm w')) p'"
  using passenger_step_info [OF step] passenger_step_exit [OF step ok]
    passenger_step_entry [OF step flags] passenger_step_frame [OF step] ok
  by (simp add: passenger_ok_def)

section \<open>The system\<close>

lemma sys_step_alive:
  assumes "sys_step c s t" and alive: "ipc_alive (wrld t)"
  shows "ipc_alive (wrld s)"
  using assms(1)
proof (cases rule: sys_step_groups)
  case (dispatcher e dead x' w' sig)
  from dispatcher(1) have "ipc_alive w' \<Longrightarrow> ipc_alive (wrld s)"
    by (cases rule: dispatcher_stepE) (auto simp: world_simps split: if_splits)
  with dispatcher(2) alive show ?thesis by simp
qed (use alive in \<open>auto simp: same_code_def dest!: passenger_step_frame office_step_frame driver_step_frame\<close>)

definition passengers_inv :: "system \<Rightarrow> bool" where
  "passengers_inv s \<longleftrightarrow> flags_inv s \<and> distinct (map (pid \<circ> p_info) (ps s))
     \<and> (\<forall>p \<in> set (ps s). passenger_ok (ipc_alive (wrld s)) (station_closed (shm (wrld s))) p)"

lemma passengers_inv_start: "sys_start s \<Longrightarrow> passengers_inv s"
  using flags_inv_start [of s] by (auto simp: passengers_inv_def sys_start_def sys_init_def)

lemma passengers_inv_others:
  assumes "passengers_inv s" and "flags_inv t" and "map p_view (ps t) = map p_view (ps s)"
    and "ipc_alive (wrld t) \<Longrightarrow> ipc_alive (wrld s)"
    and "station_closed (shm (wrld s)) \<Longrightarrow> station_closed (shm (wrld t))"
  shows "passengers_inv t"
proof -
  have "map (pid \<circ> p_info) (ps t) = map (pid \<circ> p_info) (ps s)"
    by (rule map_view_cong [OF assms(3)]) (simp add: p_view_def)
  moreover have "passenger_ok (ipc_alive (wrld t)) (station_closed (shm (wrld t))) p"
    if "p \<in> set (ps t)" for p
  proof -
    from that assms(3) obtain q where "q \<in> set (ps s)" "p_view p = p_view q"
      by (metis image_iff list.set_map)
    with assms(1) have "passenger_ok (ipc_alive (wrld s)) (station_closed (shm (wrld s))) q"
      by (simp add: passengers_inv_def)
    then show ?thesis
      using \<open>p_view p = p_view q\<close> assms(4,5) by (rule passenger_ok_mono)
  qed
  ultimately show ?thesis using assms(1,2) by (simp add: passengers_inv_def)
qed

lemma passengers_inv_step:
  assumes step: "sys_step c s t" and inv: "passengers_inv s"
  shows "passengers_inv t"
proof -
  have flags: "flags_inv s" using inv by (simp add: passengers_inv_def)
  note fl_t = flags_inv_step [OF step flags]
  note others = passengers_inv_others [OF inv fl_t _ sys_step_alive [OF step]
      closed_stays_closed_step [OF step flags]]
  from step show ?thesis
  proof (cases rule: sys_step_groups)
    case (passenger i e p' w')
    let ?p = "ps s ! i"
    have ok: "passenger_ok (ipc_alive (wrld s)) (station_closed (shm (wrld s))) ?p"
      and fl: "flags_ok (shm (wrld s))"
      using inv passenger(1) by (auto simp: passengers_inv_def flags_inv_def)
    from passenger_step_ok [OF passenger(2) fl ok]
    have new: "passenger_ok (ipc_alive w') (station_closed (shm w')) p'" .
    have "map (pid \<circ> p_info) ((ps s)[i := p']) = map (pid \<circ> p_info) (ps s)"
      using passenger_step_info [OF passenger(2)] ok
      by (intro map_update_same) (auto simp: passenger_ok_def)
    with inv passenger new passenger_step_frame [OF passenger(2)] fl_t show ?thesis
      by (auto simp: passengers_inv_def elim!: set_update_casesE)
  next
    case (spawn q r1 r2 r3 r4 r5)
    then have "p_info (init_passenger_st (init_passenger q r1 r2 r3 r4 r5))
        = init_passenger q r1 r2 r3 r4 r5" "pid (init_passenger q r1 r2 r3 r4 r5) = q"
      by (simp_all add: init_passenger_st_def init_passenger_def Let_def)
    with spawn inv passenger_ok_init [OF spawn(1)] fl_t show ?thesis
      by (auto simp: passengers_inv_def)
  next
    case control
    then show ?thesis by (intro others) (simp_all add: same_code_def)
  qed (intro others; simp)+
qed

interpretation passenger_safety: inductive_invariant sys_start "sys_step c" passengers_inv for c
  by unfold_locales (auto intro: passengers_inv_start passengers_inv_step)

lemma passengers_inv_nth:
  assumes "passengers_inv s" and "i < length (ps s)"
  shows "info_ok (p_info (ps s ! i))"
    "past_office (p_pc (ps s ! i)) \<Longrightarrow> has_ticket (p_info (ps s ! i))"
    "p_adult_boarded (ps s ! i) \<Longrightarrow> has_ticket (p_info (ps s ! i))"
    "ipc_alive (wrld s) \<Longrightarrow>
       entry_ok (station_closed (shm (wrld s))) (p_pc (ps s ! i)) (p_attempts (ps s ! i))"
  using assms by (auto simp: passengers_inv_def passenger_ok_def)

text \<open>A process id names one passenger.\<close>

lemma pid_unique:
  assumes "passengers_inv s" and "i < length (ps s)" and "j < length (ps s)"
    and "pid (p_info (ps s ! i)) = pid (p_info (ps s ! j))"
  shows "i = j"
  using assms by (auto simp: passengers_inv_def distinct_conv_nth)

end
