(* ===== verification/Boarding_Protocol.thy ===== *)
theory Boarding_Protocol
  imports Passenger_Inv
begin

text \<open>
  The request/response protocol between passengers and drivers. At every moment the
  people who wait for an answer are exactly those whose request or response is in a
  queue or in the hands of a driver, so every answer finds its passenger, nobody gets
  two answers, and a request is never lost or duplicated.
\<close>

section \<open>Messages in flight\<close>

definition request_ok :: "boarding_msg_t \<Rightarrow> bool" where
  "request_ok m \<longleftrightarrow> bm_mtype m = (if is_vip (bm_passenger m) then 1 else 2)
     \<and> info_ok (bm_passenger m) \<and> has_ticket (bm_passenger m)"

definition response_ok :: "boarding_msg_t \<Rightarrow> bool" where
  "response_ok r \<longleftrightarrow> bm_mtype r = pid (bm_passenger r) \<and> info_ok (bm_passenger r)
     \<and> 0 \<le> bm_bus_id r \<and> bm_bus_id r < int MAX_BUSES"

lemma request_ok_valid: "request_ok m \<Longrightarrow> validate_boarding_request m"
  by (auto simp: request_ok_def validate_boarding_request_def info_ok_def split: if_splits)

lemma boarding_request_ok: "info_ok g \<Longrightarrow> has_ticket g \<Longrightarrow> request_ok (boarding_request g b)"
  by (simp add: request_ok_def boarding_request_def)

lemma bm_passenger_simps [simp]:
  "bm_passenger (boarding_request g b) = g"
  "bm_passenger (boarding_response k m) = bm_passenger m"
  by (simp_all add: boarding_request_def boarding_response_def)

lemma boarding_response_ok:
  "request_ok m \<Longrightarrow> k < MAX_BUSES \<Longrightarrow>
     response_ok ((boarding_response k m)\<lparr>bm_approved := True\<rparr>)
     \<and> response_ok ((boarding_response k m)\<lparr>bm_reason := x\<rparr>)"
  by (simp add: request_ok_def response_ok_def boarding_response_def)

text \<open>What the driver holds at a program point.\<close>

fun hand_ok :: "dpc \<Rightarrow> bool" where
  "hand_ok (D_Check m) = request_ok m"
| "hand_ok (D_EntLock m r) = (request_ok m \<and> response_ok r \<and> bm_passenger r = bm_passenger m \<and> bm_approved r)"
| "hand_ok (D_Board m r) = (request_ok m \<and> response_ok r \<and> bm_passenger r = bm_passenger m \<and> bm_approved r)"
| "hand_ok (D_EntUnlock m r) = (request_ok m \<and> response_ok r \<and> bm_passenger r = bm_passenger m \<and> bm_approved r)"
| "hand_ok (D_Reply r) = response_ok r"
| "hand_ok _ = True"

fun hand_infos :: "dpc \<Rightarrow> passenger_info_t multiset" where
  "hand_infos (D_Check m) = {#bm_passenger m#}"
| "hand_infos (D_EntLock m r) = {#bm_passenger m#}"
| "hand_infos (D_Board m r) = {#bm_passenger m#}"
| "hand_infos (D_EntUnlock m r) = {#bm_passenger r#}"
| "hand_infos (D_Reply r) = {#bm_passenger r#}"
| "hand_infos _ = {#}"

definition queue_infos :: "world \<Rightarrow> passenger_info_t multiset" where
  "queue_infos w = image_mset bm_passenger (mset (boarding_q w) + mset (boarding_resp_q w))"

definition board_waiting :: "passenger_st \<Rightarrow> passenger_info_t multiset" where
  "board_waiting p = (if p_pc p = P_BoardWait then {#p_info p#} else {#})"

lemma idle_hand [simp]: "d_idle pc \<Longrightarrow> hand_infos pc = {#} \<and> hand_ok pc"
  by (cases pc) auto

definition messages_ok :: "world \<Rightarrow> bool" where
  "messages_ok w \<longleftrightarrow> (\<forall>m \<in> set (boarding_q w). request_ok m) \<and> (\<forall>r \<in> set (boarding_resp_q w). response_ok r)"

section \<open>One step of each process\<close>

lemma driver_step_messages:
  assumes "driver_step c e b d w = Some (d', w')" and b: "b < MAX_BUSES"
    and "messages_ok w" and "hand_ok (d_pc d)"
  shows "messages_ok w' \<and> hand_ok (d_pc d')"
  using assms(1)
proof (cases rule: driver_stepE)
  case (receive m q)
  with assms show ?thesis
    using k_select_set [OF receive(5)] by (auto simp: messages_ok_def)
next
  case (admit m)
  with assms boarding_response_ok [OF _ b] show ?thesis
    by (auto simp: messages_ok_def world_simps boarding_response_def)
next
  case (deny m)
  with assms boarding_response_ok [OF _ b] show ?thesis by auto
qed (use assms in \<open>auto simp: messages_ok_def world_simps dest!: k_select_set\<close>)

lemma driver_step_traffic:
  assumes "driver_step c e b d w = Some (d', w')" and "ipc_alive w"
    and "messages_ok w" and "hand_ok (d_pc d)"
  shows "queue_infos w' + hand_infos (d_pc d') = queue_infos w + hand_infos (d_pc d)"
  using assms(1)
proof (cases rule: driver_stepE)
  case (discard m q)
  with assms(3) k_select_in [OF discard(5)] request_ok_valid show ?thesis
    by (auto simp: messages_ok_def)
next
  case (receive m q)
  with k_select_mset [OF receive(5)] show ?thesis by (simp add: queue_infos_def)
qed (use assms(2-4) in \<open>auto simp: queue_infos_def world_simps\<close>)

lemma passenger_step_traffic:
  assumes "passenger_step e p w = Some (p', w')" and alive: "ipc_alive w"
    and "messages_ok w" and "info_ok (p_info p)" and "past_office (p_pc p) \<Longrightarrow> has_ticket (p_info p)"
    and own: "\<And>r. r \<in> set (boarding_resp_q w) \<Longrightarrow> bm_mtype r = pid (p_info p) \<Longrightarrow> p_pc p = P_BoardWait
        \<Longrightarrow> bm_passenger r = p_info p"
  shows "queue_infos w' + board_waiting p = queue_infos w + board_waiting p' \<and> messages_ok w'"
  using assms(1)
proof (cases rule: passenger_stepE)
  case (board_answer r q)
  have "bm_mtype r = pid (p_info p)"
    using k_select_pos [OF board_answer(5)] assms(4) by (simp add: info_ok_def)
  with own k_select_in [OF board_answer(5)] board_answer(1) have "bm_passenger r = p_info p" by blast
  with board_answer k_select_mset [OF board_answer(5)] k_select_set [OF board_answer(5)] assms(3)
  show ?thesis by (auto simp: queue_infos_def board_waiting_def messages_ok_def)
qed (use assms(2-5) boarding_request_ok in
      \<open>auto simp: queue_infos_def board_waiting_def messages_ok_def world_simps split: if_splits\<close>)

lemma office_step_traffic:
  assumes "office_step e k f w = Some (f', w')" and "k < TICKET_OFFICES"
  shows "boarding_q w' = boarding_q w \<and> boarding_resp_q w' = boarding_resp_q w"
  using assms
  by (cases rule: office_stepE) (auto simp: world_simps dest: housekeepingD)

lemma dispatcher_step_traffic:
  assumes "dispatcher_step c e dead x w = Some (x', w', sig)"
  shows "boarding_q w' = boarding_q w \<and> boarding_resp_q w' = boarding_resp_q w
    \<and> ticket_q w' = ticket_q w \<and> ticket_resp_q w' = ticket_resp_q w"
  using assms by (cases rule: dispatcher_stepE) (auto simp: world_simps)

section \<open>The invariant\<close>

definition in_flight :: "system \<Rightarrow> passenger_info_t multiset" where
  "in_flight s = queue_infos (wrld s) + sum_list (map (\<lambda>d. hand_infos (d_pc d)) (ds s))"

definition boarding_waiters :: "system \<Rightarrow> passenger_info_t multiset" where
  "boarding_waiters s = sum_list (map board_waiting (ps s))"

definition protocol_ok :: "system \<Rightarrow> bool" where
  "protocol_ok s \<longleftrightarrow> in_flight s = boarding_waiters s \<and> messages_ok (wrld s)
     \<and> (\<forall>d \<in> set (ds s). hand_ok (d_pc d))"

definition boarding_inv :: "system \<Rightarrow> bool" where
  "boarding_inv s \<longleftrightarrow> passengers_inv s \<and> (ipc_alive (wrld s) \<longrightarrow> protocol_ok s)"

text \<open>A response in the queue belongs to the waiting passenger with that process id.\<close>

lemma response_owner:
  assumes "passengers_inv s" and "protocol_ok s" and r: "r \<in> set (boarding_resp_q (wrld s))"
    and i: "i < length (ps s)" and "bm_mtype r = pid (p_info (ps s ! i))"
  shows "bm_passenger r = p_info (ps s ! i) \<and> p_pc (ps s ! i) = P_BoardWait"
proof -
  have "bm_passenger r \<in># in_flight s" using r by (simp add: in_flight_def queue_infos_def)
  then have "bm_passenger r \<in># boarding_waiters s" using assms(2) by (simp add: protocol_ok_def)
  then obtain j where j: "j < length (ps s)" "p_pc (ps s ! j) = P_BoardWait"
    "p_info (ps s ! j) = bm_passenger r"
    by (auto simp: boarding_waiters_def in_sum_list_map board_waiting_def in_set_conv_nth
        split: if_splits)
  have "response_ok r" using assms(2) r by (simp add: protocol_ok_def messages_ok_def)
  with assms(5) j have "pid (p_info (ps s ! j)) = pid (p_info (ps s ! i))"
    by (simp add: response_ok_def)
  with pid_unique [OF assms(1) j(1) i] j show ?thesis by simp
qed

lemma boarding_inv_start: "sys_start s \<Longrightarrow> boarding_inv s"
  using passengers_inv_start [of s]
  by (auto simp: boarding_inv_def sys_start_def sys_init_def protocol_ok_def in_flight_def
      queue_infos_def boarding_waiters_def init_world_def messages_ok_def init_driver_def upt_rec)

lemma protocol_ok_passenger:
  assumes pinv: "passengers_inv s" and ok: "protocol_ok s" and alive: "ipc_alive (wrld s)"
    and i: "i < length (ps s)" and step: "passenger_step e (ps s ! i) (wrld s) = Some (p', w')"
  shows "protocol_ok (s\<lparr>ps := (ps s)[i := p'], wrld := w'\<rparr>)"
proof -
  let ?p = "ps s ! i"
  have "messages_ok (wrld s)" using ok by (simp add: protocol_ok_def)
  moreover have "info_ok (p_info ?p)" "past_office (p_pc ?p) \<Longrightarrow> has_ticket (p_info ?p)"
    using passengers_inv_nth [OF pinv i] by auto
  moreover have "bm_passenger r = p_info ?p"
    if "r \<in> set (boarding_resp_q (wrld s))" "bm_mtype r = pid (p_info ?p)" for r
    using response_owner [OF pinv ok that(1) i that(2)] by simp
  ultimately have traffic:
    "queue_infos w' + board_waiting ?p = queue_infos (wrld s) + board_waiting p'" "messages_ok w'"
    using passenger_step_traffic [OF step alive] by blast+
  have waiters: "sum_list (map board_waiting ((ps s)[i := p'])) + board_waiting ?p
      = boarding_waiters s + board_waiting p'"
    using sum_update [OF i] by (simp add: boarding_waiters_def)
  have "in_flight s = boarding_waiters s" using ok by (simp add: protocol_ok_def)
  then have "queue_infos w' + sum_list (map (\<lambda>d. hand_infos (d_pc d)) (ds s))
      = sum_list (map board_waiting ((ps s)[i := p']))"
    unfolding in_flight_def by (rule balance_both [OF traffic(1) waiters])
  with ok traffic(2) show ?thesis
    by (simp add: protocol_ok_def in_flight_def boarding_waiters_def)
qed

lemma protocol_ok_driver:
  assumes ok: "protocol_ok s" and alive: "ipc_alive (wrld s)" and b: "b < length (ds s)"
    and len: "length (ds s) = MAX_BUSES"
    and step: "driver_step c e b (ds s ! b) (wrld s) = Some (d', w')"
  shows "protocol_ok (s\<lparr>ds := (ds s)[b := d'], wrld := w'\<rparr>)"
proof -
  let ?d = "ds s ! b"
  have msgs: "messages_ok (wrld s)" and hand: "hand_ok (d_pc ?d)"
    using ok b by (auto simp: protocol_ok_def)
  have b3: "b < MAX_BUSES" using b len by simp
  have "in_flight (s\<lparr>ds := (ds s)[b := d'], wrld := w'\<rparr>) = in_flight s"
    using balance_move [OF driver_step_traffic [OF step alive msgs hand]
        sum_update [OF b, of "\<lambda>d. hand_infos (d_pc d)" d']]
    by (simp add: in_flight_def)
  with ok driver_step_messages [OF step b3 msgs hand] show ?thesis
    by (auto simp: protocol_ok_def boarding_waiters_def elim!: set_update_casesE)
qed

lemma protocol_ok_cong:
  assumes "protocol_ok s" and "boarding_q (wrld t) = boarding_q (wrld s)"
    and "boarding_resp_q (wrld t) = boarding_resp_q (wrld s)"
    and "map d_pc (ds t) = map d_pc (ds s)" and "boarding_waiters t = boarding_waiters s"
  shows "protocol_ok t"
proof -
  have "map (\<lambda>d. hand_infos (d_pc d)) (ds t) = map (\<lambda>d. hand_infos (d_pc d)) (ds s)"
    by (rule map_view_cong [OF assms(4)]) simp
  moreover have "(\<forall>d \<in> set (ds t). hand_ok (d_pc d)) = (\<forall>d \<in> set (ds s). hand_ok (d_pc d))"
    using assms(4) by (rule ball_map_view)
  ultimately show ?thesis
    using assms by (simp add: protocol_ok_def in_flight_def queue_infos_def messages_ok_def)
qed

lemma boarding_inv_step:
  assumes step: "sys_step c s t" and inv: "boarding_inv s"
  shows "boarding_inv t"
proof (cases "ipc_alive (wrld t)")
  case False
  with inv passengers_inv_step [OF step] show ?thesis by (simp add: boarding_inv_def)
next
  case True
  then have alive: "ipc_alive (wrld s)" using sys_step_alive [OF step] by simp
  with inv have pinv: "passengers_inv s" and ok: "protocol_ok s" by (simp_all add: boarding_inv_def)
  from pinv have len: "length (ds s) = MAX_BUSES" "length (fs s) = TICKET_OFFICES"
    by (simp_all add: passengers_inv_def flags_inv_def)
  from step have "protocol_ok t"
  proof (cases rule: sys_step_groups)
    case (passenger i e p' w')
    with protocol_ok_passenger [OF pinv ok alive] show ?thesis by simp
  next
    case (driver b e d' w')
    with protocol_ok_driver [OF ok alive _ len(1)] show ?thesis by simp
  next
    case (office k e f' w')
    with office_step_traffic [OF office(2)] len show ?thesis
      by (intro protocol_ok_cong [OF ok]) (auto simp: boarding_waiters_def)
  next
    case (dispatcher e dead x' w' sig)
    with dispatcher_step_traffic [OF dispatcher(1)] show ?thesis
      by (intro protocol_ok_cong [OF ok]) (auto simp: boarding_waiters_def)
  next
    case (spawn q r1 r2 r3 r4 r5)
    then show ?thesis
      by (intro protocol_ok_cong [OF ok])
        (auto simp: boarding_waiters_def board_waiting_def init_passenger_st_def)
  next
    case control
    then have "map board_waiting (ps t) = map board_waiting (ps s)"
      by (intro map_view_cong [OF same_codeD(1)]) (auto simp: p_view_def board_waiting_def)
    with same_codeD [OF control] show ?thesis
      by (intro protocol_ok_cong [OF ok]) (simp_all add: boarding_waiters_def)
  qed
  with passengers_inv_step [OF step pinv] show ?thesis by (simp add: boarding_inv_def)
qed

interpretation boarding_protocol: inductive_invariant sys_start "sys_step c" boarding_inv for c
  by unfold_locales (auto intro: boarding_inv_start boarding_inv_step)

end
