(* ===== verification/Accounts.thy ===== *)
theory Accounts
  imports Passenger_Inv
begin

text \<open>
  The contract behind every conservation law of the simulation. A quantity of the shared
  world (a counter, a semaphore value, the length of a queue) and the contributions of
  the single processes, read off their program points, add up to a constant. Each law
  is local to one step of one process; the locale turns the local laws into a statement
  about every reachable state.
\<close>

definition tally ::
  "(passenger_st \<Rightarrow> int) \<Rightarrow> (dpc \<Rightarrow> int) \<Rightarrow> (nat \<Rightarrow> opc \<Rightarrow> int) \<Rightarrow> system \<Rightarrow> int" where
  "tally P D K s = sum_list (map P (ps s)) + sum_list (map (\<lambda>d. D (d_pc d)) (ds s))
     + K 0 (o_pc (fs s ! 0)) + K 1 (o_pc (fs s ! 1))"

locale ledger =
  fixes V :: "world \<Rightarrow> int" and P :: "passenger_st \<Rightarrow> int" and D :: "dpc \<Rightarrow> int"
    and K :: "nat \<Rightarrow> opc \<Rightarrow> int" and I :: "system \<Rightarrow> bool" and force :: "system \<Rightarrow> bool"
    and low :: "world \<Rightarrow> bool" and total :: int
  assumes known: "reachable c s \<Longrightarrow> I s"
    and known_flags: "I s \<Longrightarrow> flags_inv s"
    and force_mono: "sys_step c s t \<Longrightarrow> I s \<Longrightarrow> force t \<Longrightarrow> force s"
    and initially: "V (init_world xp) = total" "low (init_world xp)"
      "D D_Start = 0" "K k O_Start = 0"
    and spawn_law: "P (init_passenger_st g) = 0"
    and view_law: "p_view p = p_view q \<Longrightarrow> P p = P q"
    and passenger_law: "I s \<Longrightarrow> force s \<Longrightarrow> V (wrld s) + tally P D K s = total \<Longrightarrow> low (wrld s) \<Longrightarrow>
        i < length (ps s) \<Longrightarrow> passenger_step e (ps s ! i) (wrld s) = Some (p', w') \<Longrightarrow>
        low w' \<and> V w' + P p' = V (wrld s) + P (ps s ! i)"
    and driver_law: "I s \<Longrightarrow> force s \<Longrightarrow> V (wrld s) + tally P D K s = total \<Longrightarrow> low (wrld s) \<Longrightarrow>
        b < MAX_BUSES \<Longrightarrow> driver_step c e b (ds s ! b) (wrld s) = Some (d', w') \<Longrightarrow>
        low w' \<and> V w' + D (d_pc d') = V (wrld s) + D (d_pc (ds s ! b))"
    and office_law: "I s \<Longrightarrow> force s \<Longrightarrow> V (wrld s) + tally P D K s = total \<Longrightarrow> low (wrld s) \<Longrightarrow>
        k < TICKET_OFFICES \<Longrightarrow> office_step e k (fs s ! k) (wrld s) = Some (f', w') \<Longrightarrow>
        low w' \<and> V w' + K k (o_pc f') = V (wrld s) + K k (o_pc (fs s ! k))"
    and dispatcher_law: "I s \<Longrightarrow> force s \<Longrightarrow> low (wrld s) \<Longrightarrow>
        dispatcher_step c e dead (dx s) (wrld s) = Some (x', w', sig) \<Longrightarrow>
        force (s\<lparr>dx := x', wrld := w', ds := deliver_usr1 sig (ds s)\<rparr>) \<Longrightarrow>
        low w' \<and> V w' = V (wrld s)"
    and control_law:
      "V (w\<lparr>shm := (shm w)\<lparr>spawning_stopped := v\<rparr>, ipc_alive := a\<rparr>) = V w"
      "low (w\<lparr>shm := (shm w)\<lparr>spawning_stopped := v\<rparr>, ipc_alive := a\<rparr>) = low w"
begin

definition balanced :: "system \<Rightarrow> bool" where
  "balanced s \<longleftrightarrow> V (wrld s) + tally P D K s = total \<and> low (wrld s)"

lemma balanced_start: "sys_start s \<Longrightarrow> balanced s"
  using initially
  by (auto simp: sys_start_def sys_init_def balanced_def tally_def init_driver_def
      init_office_def upt_rec)

lemma balanced_step:
  assumes step: "sys_step c s t" and I: "I s" and t: "force t" and bal: "balanced s"
  shows "balanced t"
proof -
  have force: "force s" using force_mono [OF step I t] .
  from bal have eq: "V (wrld s) + tally P D K s = total" and low: "low (wrld s)"
    by (simp_all add: balanced_def)
  have len: "length (ds s) = MAX_BUSES" "length (fs s) = TICKET_OFFICES"
    using known_flags [OF I] by (simp_all add: flags_inv_def)
  note facts = I force eq low
  from step show ?thesis
  proof (cases rule: sys_step_groups)
    case (passenger i e p' w')
    with passenger_law [OF facts passenger(1,2)] sum_update [OF passenger(1), of P p'] eq
    show ?thesis by (simp add: balanced_def tally_def)
  next
    case (driver b e d' w')
    then have "b < MAX_BUSES" using len by simp
    from driver_law [OF facts this driver(2)] driver
      sum_update [OF driver(1), of "\<lambda>d. D (d_pc d)" d'] eq
    show ?thesis by (simp add: balanced_def tally_def)
  next
    case (office k e f' w')
    then have k: "k < TICKET_OFFICES" and "k = 0 \<or> k = 1" using len by auto
    with office office_law [OF facts k office(2)] eq len show ?thesis
      by (auto simp: balanced_def tally_def)
  next
    case (dispatcher e dead x' w' sig)
    have "map (\<lambda>d. D (d_pc d)) (deliver_usr1 sig (ds s)) = map (\<lambda>d. D (d_pc d)) (ds s)"
      by (rule map_view_cong [of d_pc]) simp_all
    with dispatcher dispatcher_law [OF I force low dispatcher(1)] t eq show ?thesis
      by (simp add: balanced_def tally_def)
  next
    case (spawn q r1 r2 r3 r4 r5)
    with eq low spawn_law show ?thesis by (simp add: balanced_def tally_def)
  next
    case control
    have "map P (ps t) = map P (ps s)"
      by (rule map_view_cong [OF same_codeD(1) [OF control]]) (rule view_law)
    moreover have "map (\<lambda>d. D (d_pc d)) (ds t) = map (\<lambda>d. D (d_pc d)) (ds s)"
      by (intro map_view_cong [OF same_codeD(3) [OF control]]) simp
    moreover have "o_pc (fs t ! k) = o_pc (fs s ! k)" if "k < 2" for k
      using same_codeD(4) [OF control] len that by (metis length_map nth_map TICKET_OFFICES_def)
    moreover have "V (wrld t) = V (wrld s)" "low (wrld t) = low (wrld s)"
      using same_codeD(6) [OF control] control_law by auto
    ultimately show ?thesis using eq low by (simp add: balanced_def tally_def)
  qed
qed

lemma always_balanced: "reachable c s \<Longrightarrow> force s \<Longrightarrow> balanced s"
  unfolding reachable_def
proof (induction rule: reach.induct)
  case (reach_start s)
  then show ?case using balanced_start by blast
next
  case (reach_move s t)
  have I: "I s" using reach_move.hyps(1) known by (simp add: reachable_def)
  with reach_move force_mono have "balanced s" by blast
  with reach_move I balanced_step show ?case by blast
qed

lemma balance: "reachable c s \<Longrightarrow> force s \<Longrightarrow> V (wrld s) + tally P D K s = total"
  using always_balanced by (simp add: balanced_def)

lemma low_always: "reachable c s \<Longrightarrow> force s \<Longrightarrow> low (wrld s)"
  using always_balanced by (simp add: balanced_def)

end

text \<open>The reachable states satisfy the invariants proved so far.\<close>

lemma reachable_flags: "reachable c s \<Longrightarrow> flags_inv s"
  unfolding reachable_def by (rule flags.always)

lemma reachable_passengers: "reachable c s \<Longrightarrow> passengers_inv s"
  unfolding reachable_def by (rule passenger_safety.always)

lemma reachable_buses: "reachable c s \<Longrightarrow> buses_inv s"
  unfolding reachable_def by (rule bus_safety.always)

lemma tally_nonneg:
  assumes "\<And>p. 0 \<le> P p" "\<And>d. 0 \<le> D d" "\<And>k f. 0 \<le> K k f"
  shows "0 \<le> tally P D K s"
  unfolding tally_def by (intro add_nonneg_nonneg sum_list_map_nonneg assms)

end
