(* ===== verification/Semaphores.thy ===== *)
theory Semaphores
  imports Boarding_Protocol Accounts
begin

text \<open>
  The counting semaphores. Each semaphore counts tokens: its value and the tokens held
  by processes (at certain program points) and by messages in a queue always add up to
  the initial value. One locale states the law and proves it of every reachable state;
  the six semaphores the program uses are its interpretations.
\<close>

locale token_semaphore =
  fixes n :: nat and total :: int and until_closed :: bool
    and P :: "ppc \<Rightarrow> int" and D :: "dpc \<Rightarrow> int" and K :: "nat \<Rightarrow> opc \<Rightarrow> int"
    and Q :: "world \<Rightarrow> int"
  assumes start: "initial_sems n = total" "P P_Check = 0" "D D_Start = 0" "K k O_Start = 0"
      "Q (init_world xp) = 0"
    and nonneg: "0 \<le> P pp" "0 \<le> D pd" "0 \<le> K k po" "0 \<le> Q w" "total \<le> 1000"
    and passenger_law: "passenger_step e p w = Some (p', w') \<Longrightarrow> ipc_alive w \<Longrightarrow>
        0 \<le> sems w n \<Longrightarrow> sems w n \<le> 1000 \<Longrightarrow>
        0 \<le> sems w' n \<and> sems w' n + Q w' + P (p_pc p') = sems w n + Q w + P (p_pc p)"
    and driver_law: "driver_step c e b d w = Some (d', w') \<Longrightarrow> ipc_alive w \<Longrightarrow>
        0 \<le> sems w n \<Longrightarrow> sems w n \<le> 1000 \<Longrightarrow>
        0 \<le> sems w' n \<and> sems w' n + Q w' + D (d_pc d') = sems w n + Q w + D (d_pc d)"
    and office_law: "office_step e k f w = Some (f', w') \<Longrightarrow> k < TICKET_OFFICES \<Longrightarrow> ipc_alive w \<Longrightarrow>
        0 \<le> sems w n \<Longrightarrow> sems w n \<le> 1000 \<Longrightarrow>
        0 \<le> sems w' n \<and> sems w' n + Q w' + K k (o_pc f') = sems w n + Q w + K k (o_pc f)"
    and dispatcher_law: "dispatcher_step c e dead x w = Some (x', w', sig) \<Longrightarrow> ipc_alive w \<Longrightarrow>
        (until_closed \<Longrightarrow> x_pc x \<notin> {X_SetEntry, X_SetSlots}) \<Longrightarrow>
        sems w' n = sems w n \<and> Q w' = Q w"
    and queue_law: "Q (w\<lparr>shm := m, ipc_alive := a\<rparr>) = Q w"
begin

definition in_force :: "system \<Rightarrow> bool" where
  "in_force s \<longleftrightarrow> ipc_alive (wrld s) \<and> (until_closed \<longrightarrow> \<not> station_closed (shm (wrld s)))"

lemma in_force_mono: "sys_step c s t \<Longrightarrow> flags_inv s \<Longrightarrow> in_force t \<Longrightarrow> in_force s"
  unfolding in_force_def using sys_step_alive closed_stays_closed_step by blast

lemma value_bounds:
  assumes "sems w n + Q w + tally (\<lambda>p. P (p_pc p)) D K s = total"
  shows "sems w n \<le> 1000"
proof -
  have "0 \<le> tally (\<lambda>p. P (p_pc p)) D K s" by (intro tally_nonneg nonneg)
  with assms nonneg(4) [of w] nonneg(5) show ?thesis by linarith
qed

end

text \<open>A token semaphore is a ledger whose quantity is the value plus the queued tokens.\<close>

sublocale token_semaphore \<subseteq> account: ledger "\<lambda>w. sems w n + Q w" "\<lambda>p. P (p_pc p)" D K flags_inv in_force
  "\<lambda>w. 0 \<le> sems w n" total
proof unfold_locales
  show "sems (init_world xp) n + Q (init_world xp) = total" for xp
    using start by (simp add: init_world_def)
  show "0 \<le> sems (init_world xp) n" for xp by (simp add: init_world_def initial_sems_def)
  fix s i e p' w'
  assume "in_force s" and bal: "sems (wrld s) n + Q (wrld s) + tally (\<lambda>p. P (p_pc p)) D K s = total"
    and low: "0 \<le> sems (wrld s) n"
    and step: "passenger_step e (ps s ! i) (wrld s) = Some (p', w')"
  then have "ipc_alive (wrld s)" by (simp add: in_force_def)
  from passenger_law [OF step this low value_bounds [OF bal]]
  show "0 \<le> sems w' n \<and> sems w' n + Q w' + P (p_pc p') = sems (wrld s) n + Q (wrld s) + P (p_pc (ps s ! i))" .
next
  fix s c e b d' w'
  assume "in_force s" and bal: "sems (wrld s) n + Q (wrld s) + tally (\<lambda>p. P (p_pc p)) D K s = total"
    and low: "0 \<le> sems (wrld s) n"
    and step: "driver_step c e b (ds s ! b) (wrld s) = Some (d', w')"
  then have "ipc_alive (wrld s)" by (simp add: in_force_def)
  from driver_law [OF step this low value_bounds [OF bal]]
  show "0 \<le> sems w' n \<and> sems w' n + Q w' + D (d_pc d') = sems (wrld s) n + Q (wrld s) + D (d_pc (ds s ! b))" .
next
  fix s k e f' w'
  assume "in_force s" and bal: "sems (wrld s) n + Q (wrld s) + tally (\<lambda>p. P (p_pc p)) D K s = total"
    and low: "0 \<le> sems (wrld s) n" and k: "k < TICKET_OFFICES"
    and step: "office_step e k (fs s ! k) (wrld s) = Some (f', w')"
  then have "ipc_alive (wrld s)" by (simp add: in_force_def)
  from office_law [OF step k this low value_bounds [OF bal]]
  show "0 \<le> sems w' n \<and> sems w' n + Q w' + K k (o_pc f') = sems (wrld s) n + Q (wrld s) + K k (o_pc (fs s ! k))" .
next
  fix s c e dead x' w' sig
  assume flags: "flags_inv s" and force: "in_force s" and low: "0 \<le> sems (wrld s) n"
    and step: "dispatcher_step c e dead (dx s) (wrld s) = Some (x', w', sig)"
  have "until_closed \<Longrightarrow> \<not> station_closed (shm (wrld s))" and alive: "ipc_alive (wrld s)"
    using force unfolding in_force_def by blast+
  then have "x_pc (dx s) \<notin> {X_SetEntry, X_SetSlots}" if until_closed
    using flags that by (auto simp: flags_inv_def)
  with dispatcher_law [OF step alive] low
  show "0 \<le> sems w' n \<and> sems w' n + Q w' = sems (wrld s) n + Q (wrld s)" by simp
qed (use start in_force_mono queue_law in
      \<open>auto simp: reachable_flags p_view_def init_passenger_st_def\<close>)

section \<open>The semaphores of the program\<close>

text \<open>Slots of the boarding queue: taken before a request is sent, given back after the answer.\<close>

fun board_slot :: "ppc \<Rightarrow> int" where
  "board_slot (P_BoardSend b) = 1" | "board_slot P_BoardUndo = 1"
| "board_slot P_BoardWait = 1" | "board_slot (P_BoardUnlock r) = 1" | "board_slot _ = 0"

text \<open>Slots of the ticket queue: taken by the passenger, given back by the office that receives.\<close>

fun ticket_slot :: "ppc \<Rightarrow> int" where
  "ticket_slot P_SendTicket = 1" | "ticket_slot P_TicketUndo = 1" | "ticket_slot _ = 0"

fun office_slot :: "opc \<Rightarrow> int" where
  "office_slot (O_Unlock m) = 1" | "office_slot (O_DrainUnlock m) = 1" | "office_slot _ = 0"

text \<open>The entrance of the station, one passenger at a time until the station closes.\<close>

fun entry_token :: "ppc \<Rightarrow> int" where
  "entry_token P_EnterSection = 1" | "entry_token (P_EnterUnlock en) = 1" | "entry_token _ = 0"

text \<open>The two doors, shared by all buses.\<close>

fun door_token :: "nat \<Rightarrow> dpc \<Rightarrow> int" where
  "door_token n (D_Board m r) = (if entrance_sem m = n then 1 else 0)"
| "door_token n (D_EntUnlock m r) = (if entrance_sem m = n then 1 else 0)"
| "door_token n _ = 0"

text \<open>The desk of a ticket office.\<close>

fun at_desk :: "opc \<Rightarrow> int" where
  "at_desk (O_Process m) = 1" | "at_desk (O_Reply r) = 1" | "at_desk O_OffUnlock = 1" | "at_desk _ = 0"

lemma token_nonneg [simp]:
  "0 \<le> board_slot pp" "0 \<le> ticket_slot pp" "0 \<le> office_slot po" "0 \<le> entry_token pp"
  "0 \<le> door_token n pd" "0 \<le> at_desk po"
       apply (cases pp; simp)
      apply (cases pp; simp)
     apply (cases po; simp)
    apply (cases pp; simp)
   apply (cases pd; simp)
  apply (cases po; simp)
  done

lemma idle_token [simp]:
  "d_idle pd \<Longrightarrow> door_token n pd = 0" "o_idle po \<Longrightarrow> office_slot po = 0"
  "p_finished pp \<Longrightarrow> board_slot pp = 0 \<and> ticket_slot pp = 0 \<and> entry_token pp = 0"
    apply (cases pd; simp)
   apply (cases po; simp)
  apply (cases pp; simp)
  done

lemma k_select_length: "k_select ty t q = Some (m, q') \<Longrightarrow> length q = Suc (length q')"
  using k_select_mset by (metis size_add_mset size_mset)

section \<open>The laws of one step\<close>

lemma passenger_sem_law:
  assumes "passenger_step e p w = Some (p', w')" and "ipc_alive w"
    and "0 \<le> sems w n" "sems w n \<le> 1000"
  shows "0 \<le> sems w' n \<and> sems w' n
      + (if n = 10 then board_slot (p_pc p') else if n = 9 then ticket_slot (p_pc p') + int (length (ticket_q w'))
         else if n = 2 then entry_token (p_pc p') else 0)
    = sems w n
      + (if n = 10 then board_slot (p_pc p) else if n = 9 then ticket_slot (p_pc p) + int (length (ticket_q w))
         else if n = 2 then entry_token (p_pc p) else 0)"
  using assms(1)
  by (cases rule: passenger_stepE) (use assms(2-4) in \<open>auto simp: world_simps w_unlock_eq\<close>)

lemma driver_sem_law:
  assumes "driver_step c e b d w = Some (d', w')" and "ipc_alive w"
    and "0 \<le> sems w n" "sems w n \<le> 1000"
  shows "0 \<le> sems w' n \<and> sems w' n + door_token n (d_pc d') = sems w n + door_token n (d_pc d)"
  using assms(1)
  by (cases rule: driver_stepE) (use assms(2-4) in \<open>auto simp: world_simps w_unlock_eq\<close>)

lemma office_sem_law:
  assumes "office_step e k f w = Some (f', w')" and "k < TICKET_OFFICES" and "ipc_alive w"
    and "0 \<le> sems w n" "sems w n \<le> 1000" and "n \<notin> {7, 8}"
  shows "0 \<le> sems w' n
    \<and> sems w' n + (if n = 9 then office_slot (o_pc f') + int (length (ticket_q w')) else 0)
      = sems w n + (if n = 9 then office_slot (o_pc f) + int (length (ticket_q w)) else 0)"
  using assms(1,2)
proof (cases rule: office_stepE)
  case quiet
  with assms(4-6) housekeepingD [OF quiet(3)] show ?thesis by simp
next
  case (work m)
  with assms(4-6) housekeepingD [OF work(2)] show ?thesis by auto
qed (use assms(3-6) in \<open>auto simp: world_simps w_unlock_eq dest: k_select_length\<close>)

lemma office_desk_law:
  assumes "office_step e j f w = Some (f', w')" and "j < TICKET_OFFICES" and "ipc_alive w"
    and "0 \<le> sems w (7 + k)" "sems w (7 + k) \<le> 1000" and "k < TICKET_OFFICES"
  shows "0 \<le> sems w' (7 + k)
    \<and> sems w' (7 + k) + (if j = k then at_desk (o_pc f') else 0)
      = sems w (7 + k) + (if j = k then at_desk (o_pc f) else 0)"
proof -
  have "k = 0 \<or> k = 1" and "j = 0 \<or> j = 1" using assms(2,6) by auto
  with assms show ?thesis
    by (cases "o_pc f")
      (auto simp: office_step_def Let_def case_prod_beta recv_ticket_def recv_ticket_nowait_def
        world_simps w_unlock_eq split: if_splits option.splits)
qed

lemma dispatcher_sem_law:
  assumes "dispatcher_step c e dead x w = Some (x', w', sig)"
    and "n \<in> {2, 9} \<Longrightarrow> x_pc x \<notin> {X_SetEntry, X_SetSlots}"
  shows "sems w' n = sems w n \<and> ticket_q w' = ticket_q w"
  using assms(1) by (cases rule: dispatcher_stepE) (use assms(2) in \<open>auto simp: world_simps\<close>)

lemma initial_token [simp]:
  "ticket_q (init_world xp) = []" "shm (init_world xp) = init_shared_state xp"
  by (simp_all add: init_world_def)

section \<open>The six semaphores\<close>

lemma door_token_other [simp]: "n \<noteq> 3 \<Longrightarrow> n \<noteq> 4 \<Longrightarrow> door_token n pd = 0"
  by (cases pd) (auto simp: entrance_sem_def)

interpretation boarding_slots: token_semaphore 10 100 False board_slot "\<lambda>_. 0" "\<lambda>_ _. 0" "\<lambda>_. 0"
proof unfold_locales
  show "initial_sems 10 = 100" by (simp add: initial_sems_def)
qed (use passenger_sem_law [where n = 10] driver_sem_law [where n = 10]
       dispatcher_sem_law [where n = 10] office_sem_law [where n = 10]
       driver_step_frame in \<open>auto simp: ac_simps\<close>)

interpretation ticket_slots: token_semaphore 9 200 True ticket_slot "\<lambda>_. 0" "\<lambda>_. office_slot" "\<lambda>w. int (length (ticket_q w))"
proof unfold_locales
  show "initial_sems 9 = 200" by (simp add: initial_sems_def)
qed (use passenger_sem_law [where n = 9] driver_sem_law [where n = 9]
       dispatcher_sem_law [where n = 9] office_sem_law [where n = 9]
       driver_step_frame in \<open>auto simp: ac_simps\<close>)

interpretation station_entry: token_semaphore 2 1 True entry_token "\<lambda>_. 0" "\<lambda>_ _. 0" "\<lambda>_. 0"
proof unfold_locales
  show "initial_sems 2 = 1" by (simp add: initial_sems_def)
qed (use passenger_sem_law [where n = 2] driver_sem_law [where n = 2]
       dispatcher_sem_law [where n = 2] office_sem_law [where n = 2]
       driver_step_frame in \<open>auto simp: ac_simps\<close>)

interpretation passenger_door: token_semaphore 3 1 False "\<lambda>_. 0" "door_token 3" "\<lambda>_ _. 0" "\<lambda>_. 0"
proof unfold_locales
  show "initial_sems 3 = 1" by (simp add: initial_sems_def)
qed (use passenger_sem_law [where n = 3] driver_sem_law [where n = 3]
       dispatcher_sem_law [where n = 3] office_sem_law [where n = 3]
       driver_step_frame in \<open>auto simp: ac_simps\<close>)

interpretation bike_door: token_semaphore 4 1 False "\<lambda>_. 0" "door_token 4" "\<lambda>_ _. 0" "\<lambda>_. 0"
proof unfold_locales
  show "initial_sems 4 = 1" by (simp add: initial_sems_def)
qed (use passenger_sem_law [where n = 4] driver_sem_law [where n = 4]
       dispatcher_sem_law [where n = 4] office_sem_law [where n = 4]
       driver_step_frame in \<open>auto simp: ac_simps\<close>)

interpretation desk_0: token_semaphore 7 1 False "\<lambda>_. 0" "\<lambda>_. 0" "\<lambda>k pc. if k = 0 then at_desk pc else 0" "\<lambda>_. 0"
proof unfold_locales
  show "initial_sems 7 = 1" by (simp add: initial_sems_def)
qed (use passenger_sem_law [where n = 7] driver_sem_law [where n = 7]
       dispatcher_sem_law [where n = 7] office_desk_law [where k = 0]
       driver_step_frame in \<open>auto simp: ac_simps\<close>)

interpretation desk_1: token_semaphore 8 1 False "\<lambda>_. 0" "\<lambda>_. 0" "\<lambda>k pc. if k = 1 then at_desk pc else 0" "\<lambda>_. 0"
proof unfold_locales
  show "initial_sems 8 = 1" by (simp add: initial_sems_def)
qed (use passenger_sem_law [where n = 8] driver_sem_law [where n = 8]
       dispatcher_sem_law [where n = 8] office_desk_law [where k = 1]
       driver_step_frame in \<open>auto simp: ac_simps\<close>)

end
