(* ===== verification/Ticket_Protocol.thy ===== *)
theory Ticket_Protocol
  imports Semaphores
begin

text \<open>
  The request/response protocol between passengers and ticket offices. The process ids
  of the passengers who wait for an answer are exactly those on a request or response in
  a queue or in the hands of an office; an answer always finds its passenger.
\<close>

section \<open>Messages in flight\<close>

definition ticket_pid :: "ticket_msg_t \<Rightarrow> int" where
  "ticket_pid m = pid (tm_passenger m)"

definition ticket_request_ok :: "ticket_msg_t \<Rightarrow> bool" where
  "ticket_request_ok m \<longleftrightarrow> tm_mtype m = MSG_TICKET_REQUEST \<and> info_ok (tm_passenger m)"

definition ticket_response_ok :: "ticket_msg_t \<Rightarrow> bool" where
  "ticket_response_ok r \<longleftrightarrow> tm_mtype r = ticket_pid r"

lemma ticket_request_valid:
  "ticket_request_ok m \<Longrightarrow> validate_ticket_request m \<and> validate_passenger (tm_passenger m)"
  by (auto simp: ticket_request_ok_def validate_ticket_request_def validate_passenger_def info_ok_def)

lemma ticket_decide_simps [simp]:
  "ticket_pid (fst (ticket_decide k m s)) = ticket_pid m"
  "ticket_response_ok (fst (ticket_decide k m s))"
  "ticket_pid (ticket_response k m) = ticket_pid m"
  "ticket_response_ok (ticket_response k m)"
  "ticket_pid (ticket_request g) = pid g"
  by (simp_all add: ticket_decide_def ticket_response_def ticket_response_ok_def ticket_pid_def
      Let_def ticket_request_def)

fun desk_ok :: "opc \<Rightarrow> bool" where
  "desk_ok (O_Unlock m) = ticket_request_ok m" | "desk_ok (O_Busy m) = ticket_request_ok m"
| "desk_ok (O_OffLock m) = ticket_request_ok m" | "desk_ok (O_Process m) = ticket_request_ok m"
| "desk_ok (O_DrainUnlock m) = ticket_request_ok m" | "desk_ok (O_DrainCount m) = ticket_request_ok m"
| "desk_ok (O_Reply r) = ticket_response_ok r" | "desk_ok (O_DrainReply r) = ticket_response_ok r"
| "desk_ok _ = True"

fun desk_pids :: "opc \<Rightarrow> int multiset" where
  "desk_pids (O_Unlock m) = {#ticket_pid m#}" | "desk_pids (O_Busy m) = {#ticket_pid m#}"
| "desk_pids (O_OffLock m) = {#ticket_pid m#}" | "desk_pids (O_Process m) = {#ticket_pid m#}"
| "desk_pids (O_DrainUnlock m) = {#ticket_pid m#}" | "desk_pids (O_DrainCount m) = {#ticket_pid m#}"
| "desk_pids (O_Reply r) = {#ticket_pid r#}" | "desk_pids (O_DrainReply r) = {#ticket_pid r#}"
| "desk_pids _ = {#}"

lemma idle_desk [simp]: "o_idle pc \<Longrightarrow> desk_pids pc = {#} \<and> desk_ok pc"
  by (cases pc) auto

definition queue_pids :: "world \<Rightarrow> int multiset" where
  "queue_pids w = image_mset ticket_pid (mset (ticket_q w) + mset (ticket_resp_q w))"

definition ticket_waiting :: "passenger_st \<Rightarrow> int multiset" where
  "ticket_waiting p = (if p_pc p = P_WaitTicket then {#pid (p_info p)#} else {#})"

definition tickets_ok :: "world \<Rightarrow> bool" where
  "tickets_ok w \<longleftrightarrow> (\<forall>m \<in> set (ticket_q w). ticket_request_ok m)
     \<and> (\<forall>r \<in> set (ticket_resp_q w). ticket_response_ok r)"

section \<open>One step of each process\<close>

lemma office_step_tickets:
  assumes "office_step e k f w = Some (f', w')" and "k < TICKET_OFFICES" and "ipc_alive w"
    and "tickets_ok w" and "desk_ok (o_pc f)"
  shows "tickets_ok w' \<and> desk_ok (o_pc f') \<and>
    queue_pids w' + desk_pids (o_pc f') = queue_pids w + desk_pids (o_pc f)"
  using assms(1,2)
proof (cases rule: office_stepE)
  case quiet
  with assms(4) housekeepingD [OF quiet(3)] show ?thesis
    by (simp add: tickets_ok_def queue_pids_def)
next
  case (receive m q)
  with assms(4) k_select_mset [OF receive(4)] k_select_set [OF receive(4)] show ?thesis
    by (simp add: tickets_ok_def queue_pids_def)
next
  case (invalid m)
  with assms(5) ticket_request_valid [of m] show ?thesis by simp
next
  case (work m)
  with assms(4,5) housekeepingD [OF work(2)] show ?thesis
    by (auto simp: tickets_ok_def queue_pids_def)
next
  case (drain m q)
  with assms(4) k_select_mset [OF drain(4)] k_select_set [OF drain(4)] show ?thesis
    by (simp add: tickets_ok_def queue_pids_def)
qed (use assms(3-5) in \<open>auto simp: tickets_ok_def queue_pids_def world_simps\<close>)

lemma passenger_step_tickets:
  assumes "passenger_step e p w = Some (p', w')" and alive: "ipc_alive w"
    and "tickets_ok w" and "info_ok (p_info p)"
  shows "queue_pids w' + ticket_waiting p = queue_pids w + ticket_waiting p' \<and> tickets_ok w'"
  using assms(1)
proof (cases rule: passenger_stepE)
  case (ticket_granted r q)
  with assms(3,4) k_select_mset [OF ticket_granted(6)] k_select_set [OF ticket_granted(6)]
    k_select_pos [OF ticket_granted(6)]
  show ?thesis
    by (auto simp: tickets_ok_def queue_pids_def ticket_waiting_def ticket_response_ok_def info_ok_def)
next
  case (ticket_denied r q)
  with assms(3,4) k_select_mset [OF ticket_denied(6)] k_select_set [OF ticket_denied(6)]
    k_select_pos [OF ticket_denied(6)]
  show ?thesis
    by (auto simp: tickets_ok_def queue_pids_def ticket_waiting_def ticket_response_ok_def info_ok_def)
next
  case send_ticket
  with assms(3,4) show ?thesis
    by (auto simp: tickets_ok_def queue_pids_def ticket_waiting_def ticket_request_ok_def ticket_request_def
        ticket_pid_def)
qed (use assms(2-4) in
      \<open>auto simp: queue_pids_def ticket_waiting_def tickets_ok_def world_simps split: if_splits\<close>)

section \<open>The invariant\<close>

definition tickets_in_flight :: "system \<Rightarrow> int multiset" where
  "tickets_in_flight s = queue_pids (wrld s) + sum_list (map (\<lambda>f. desk_pids (o_pc f)) (fs s))"

definition ticket_waiters :: "system \<Rightarrow> int multiset" where
  "ticket_waiters s = sum_list (map ticket_waiting (ps s))"

definition ticket_protocol_ok :: "system \<Rightarrow> bool" where
  "ticket_protocol_ok s \<longleftrightarrow> tickets_in_flight s = ticket_waiters s \<and> tickets_ok (wrld s)
     \<and> (\<forall>f \<in> set (fs s). desk_ok (o_pc f))"

definition ticket_inv :: "system \<Rightarrow> bool" where
  "ticket_inv s \<longleftrightarrow> passengers_inv s \<and> (ipc_alive (wrld s) \<longrightarrow> ticket_protocol_ok s)"

lemma ticket_inv_start: "sys_start s \<Longrightarrow> ticket_inv s"
  using passengers_inv_start [of s]
  by (auto simp: ticket_inv_def sys_start_def sys_init_def ticket_protocol_ok_def
      tickets_in_flight_def queue_pids_def ticket_waiters_def init_world_def tickets_ok_def
      init_office_def upt_rec)

lemma ticket_protocol_passenger:
  assumes pinv: "passengers_inv s" and ok: "ticket_protocol_ok s" and alive: "ipc_alive (wrld s)"
    and i: "i < length (ps s)" and step: "passenger_step e (ps s ! i) (wrld s) = Some (p', w')"
  shows "ticket_protocol_ok (s\<lparr>ps := (ps s)[i := p'], wrld := w'\<rparr>)"
proof -
  let ?p = "ps s ! i"
  have "tickets_ok (wrld s)" using ok by (simp add: ticket_protocol_ok_def)
  from passenger_step_tickets [OF step alive this passengers_inv_nth(1) [OF pinv i]]
  have traffic: "queue_pids w' + ticket_waiting ?p = queue_pids (wrld s) + ticket_waiting p'"
    "tickets_ok w'" by blast+
  have waiters: "sum_list (map ticket_waiting ((ps s)[i := p'])) + ticket_waiting ?p
      = ticket_waiters s + ticket_waiting p'"
    using sum_update [OF i] by (simp add: ticket_waiters_def)
  have "tickets_in_flight s = ticket_waiters s" using ok by (simp add: ticket_protocol_ok_def)
  then have "queue_pids w' + sum_list (map (\<lambda>f. desk_pids (o_pc f)) (fs s))
      = sum_list (map ticket_waiting ((ps s)[i := p']))"
    unfolding tickets_in_flight_def by (rule balance_both [OF traffic(1) waiters])
  with ok traffic(2) show ?thesis
    by (simp add: ticket_protocol_ok_def tickets_in_flight_def ticket_waiters_def)
qed

lemma ticket_protocol_office:
  assumes ok: "ticket_protocol_ok s" and alive: "ipc_alive (wrld s)" and k: "k < length (fs s)"
    and len: "length (fs s) = TICKET_OFFICES"
    and step: "office_step e k (fs s ! k) (wrld s) = Some (f', w')"
  shows "ticket_protocol_ok (s\<lparr>fs := (fs s)[k := f'], wrld := w'\<rparr>)"
proof -
  have msgs: "tickets_ok (wrld s)" and hand: "desk_ok (o_pc (fs s ! k))"
    using ok k by (auto simp: ticket_protocol_ok_def)
  have k2: "k < TICKET_OFFICES" using k len by simp
  note traffic = office_step_tickets [OF step k2 alive msgs hand]
  have "tickets_in_flight (s\<lparr>fs := (fs s)[k := f'], wrld := w'\<rparr>) = tickets_in_flight s"
    using balance_move [OF _ sum_update [OF k, of "\<lambda>f. desk_pids (o_pc f)" f']] traffic
    by (simp add: tickets_in_flight_def)
  with ok traffic show ?thesis
    by (auto simp: ticket_protocol_ok_def ticket_waiters_def elim!: set_update_casesE)
qed

lemma ticket_protocol_cong:
  assumes "ticket_protocol_ok s" and "ticket_q (wrld t) = ticket_q (wrld s)"
    and "ticket_resp_q (wrld t) = ticket_resp_q (wrld s)"
    and "map o_pc (fs t) = map o_pc (fs s)" and "ticket_waiters t = ticket_waiters s"
  shows "ticket_protocol_ok t"
proof -
  have "map (\<lambda>f. desk_pids (o_pc f)) (fs t) = map (\<lambda>f. desk_pids (o_pc f)) (fs s)"
    by (rule map_view_cong [OF assms(4)]) simp
  moreover have "(\<forall>f \<in> set (fs t). desk_ok (o_pc f)) = (\<forall>f \<in> set (fs s). desk_ok (o_pc f))"
    using assms(4) by (rule ball_map_view)
  ultimately show ?thesis
    using assms by (simp add: ticket_protocol_ok_def tickets_in_flight_def queue_pids_def tickets_ok_def)
qed

lemma ticket_inv_step:
  assumes step: "sys_step c s t" and inv: "ticket_inv s"
  shows "ticket_inv t"
proof (cases "ipc_alive (wrld t)")
  case False
  with inv passengers_inv_step [OF step] show ?thesis by (simp add: ticket_inv_def)
next
  case True
  then have alive: "ipc_alive (wrld s)" using sys_step_alive [OF step] by simp
  with inv have pinv: "passengers_inv s" and ok: "ticket_protocol_ok s"
    by (simp_all add: ticket_inv_def)
  from pinv have len: "length (fs s) = TICKET_OFFICES"
    by (simp add: passengers_inv_def flags_inv_def)
  from step have "ticket_protocol_ok t"
  proof (cases rule: sys_step_groups)
    case (passenger i e p' w')
    with ticket_protocol_passenger [OF pinv ok alive] show ?thesis by simp
  next
    case (driver b e d' w')
    with driver_step_frame [OF driver(2)] show ?thesis
      by (intro ticket_protocol_cong [OF ok]) (auto simp: ticket_waiters_def)
  next
    case (office k e f' w')
    with ticket_protocol_office [OF ok alive _ len] show ?thesis by simp
  next
    case (dispatcher e dead x' w' sig)
    with dispatcher_step_traffic [OF dispatcher(1)] show ?thesis
      by (intro ticket_protocol_cong [OF ok]) (auto simp: ticket_waiters_def)
  next
    case (spawn q r1 r2 r3 r4 r5)
    then show ?thesis
      by (intro ticket_protocol_cong [OF ok])
        (auto simp: ticket_waiters_def ticket_waiting_def init_passenger_st_def)
  next
    case control
    then have "map ticket_waiting (ps t) = map ticket_waiting (ps s)"
      by (intro map_view_cong [OF same_codeD(1)]) (auto simp: p_view_def ticket_waiting_def)
    with same_codeD [OF control] show ?thesis
      by (intro ticket_protocol_cong [OF ok]) (simp_all add: ticket_waiters_def)
  qed
  with passengers_inv_step [OF step pinv] show ?thesis by (simp add: ticket_inv_def)
qed

interpretation ticket_protocol: inductive_invariant sys_start "sys_step c" ticket_inv for c
  by unfold_locales (auto intro: ticket_inv_start ticket_inv_step)

end
