(* ===== verification/Books.thy ===== *)
theory Books
  imports Ticket_Protocol
begin

text \<open>
  The bookkeeping of the simulation. Every passenger process is at one of five stages,
  and the counters in shared memory are at every moment what the stages say: who has
  been counted as created, who waits inside the station, who is aboard or transported,
  and who left. The laws hold while the IPC objects exist and no passenger has been told
  to stop (the shutdown is treated separately).
\<close>

section \<open>Stages of a passenger\<close>

datatype stage = Fresh | Pending | Inside | Aboard | Gone

fun stage_pc :: "ppc \<Rightarrow> stage" where
  "stage_pc P_Check = Fresh" | "stage_pc P_Thread = Fresh" | "stage_pc P_Count = Fresh"
| "stage_pc (P_EnterUnlock en) = (if en then Inside else Pending)"
| "stage_pc P_BoardHead = Inside" | "stage_pc P_BoardRead = Inside"
| "stage_pc (P_BoardSlot b) = Inside" | "stage_pc (P_BoardSend b) = Inside"
| "stage_pc P_BoardUndo = Inside" | "stage_pc P_BoardWait = Inside"
| "stage_pc (P_BoardUnlock None) = Inside"
| "stage_pc (P_BoardUnlock (Some r)) = (if bm_approved r then Aboard else Inside)"
| "stage_pc P_LeaveStation = Inside"
| "stage_pc P_Boarded = Aboard"
| "stage_pc (P_Join rc) = (if rc = 0 then Aboard else Gone)"
| "stage_pc (P_JoinWait rc) = (if rc = 0 then Aboard else Gone)"
| "stage_pc (P_Done rc) = (if rc = 0 then Aboard else Gone)"
| "stage_pc _ = Pending"

text \<open>A passenger that found the station closed at the very start never counted.\<close>

definition stage :: "passenger_st \<Rightarrow> stage" where
  "stage p = (if p_pc p = P_Done 0 \<and> \<not> p_adult_boarded p then Fresh else stage_pc (p_pc p))"

definition seats :: "passenger_st \<Rightarrow> int" where
  "seats p = seat_count (p_info p)"

definition books :: "shm_data_t \<Rightarrow> int list" where
  "books m = [total_passengers_created m, adults_created m, children_created m, passengers_waiting m,
     passengers_left_early m, boarded_people m, passengers_transported m]"

lemma finish_stage:
  assumes step: "passenger_step e p w = Some (p', w')" and fin: "p_finished (p_pc p)"
    and ok: "passenger_ok a c p"
  shows "stage p' = stage p"
proof -
  note keep = finish_keeps_exit_code [OF step fin] finish_step [OF step fin]
    passenger_step_adult [OF step]
  have code: "exit_code pc = Some rc \<Longrightarrow> stage_pc pc = (if rc = 0 then Aboard else Gone)" for pc rc
    by (cases pc) auto
  obtain rc where rc: "exit_code (p_pc p) = Some rc" using fin by (auto simp: finished_exit_code)
  have "p_adult_boarded p" if "rc = 0"
    using ok rc that keep by (auto simp: passenger_ok_def)
  moreover have "p_adult_boarded p' = p_adult_boarded p" using keep by blast
  moreover have "p_pc p' = P_Done 0 \<Longrightarrow> rc = 0" using keep rc by auto
  ultimately show ?thesis
    using code [OF rc] code [of "p_pc p'" rc] keep rc by (auto simp: stage_def)
qed

text \<open>Every step of a passenger keeps its stage, or is one of six bookings.\<close>

lemma passenger_step_stage [consumes 4, case_names quiet created left enter granted refused walk]:
  assumes step: "passenger_step e p w = Some (p', w')" and alive: "ipc_alive w" and "p_running p"
    and ok: "passenger_ok True (station_closed (shm w)) p"
  obtains
    "stage p' = stage p" "stage p = Fresh \<or> seats p' = seats p" "books (shm w') = books (shm w)"
      "boarding_resp_q w' = boarding_resp_q w"
  | "stage p = Fresh" "stage p' = Pending" "seats p' = seats p"
      "shm w' = count_created (p_info p) (shm w)" "boarding_resp_q w' = boarding_resp_q w"
  | "stage p = Pending" "stage p' = Gone" "seats p' = seats p"
      "shm w' = count_left_early (p_info p) (shm w)" "boarding_resp_q w' = boarding_resp_q w"
  | "stage p = Pending" "stage p' = Inside" "seats p' = seats p" "station_open (shm w)"
      "shm w' = station_enter (p_info p) (shm w)" "boarding_resp_q w' = boarding_resp_q w"
  | r q where "p_pc p = P_BoardWait" "stage p = Inside" "stage p' = Aboard" "seats p' = seats p"
      "k_select bm_mtype (pid (p_info p)) (boarding_resp_q w) = Some (r, q)" "bm_approved r"
      "shm w' = shm w" "boarding_resp_q w' = q"
  | r q where "p_pc p = P_BoardWait" "stage p = Inside" "stage p' = Inside" "seats p' = seats p"
      "k_select bm_mtype (pid (p_info p)) (boarding_resp_q w) = Some (r, q)" "\<not> bm_approved r"
      "shm w' = shm w" "boarding_resp_q w' = q"
  | "p_pc p = P_LeaveStation" "stage p = Inside" "stage p' = Gone" "seats p' = seats p"
      "shm w' = leave_station (p_info p) (shm w)" "boarding_resp_q w' = boarding_resp_q w"
  using step
proof (cases rule: passenger_stepE)
  case stop
  moreover have "\<not> p_adult_boarded p" using ok stop(1) by (auto simp: passenger_ok_def)
  ultimately show ?thesis
    using that(1) passenger_step_adult [OF step] by (simp add: stage_def seats_def)
next
  case count
  show ?thesis by (rule that(2); use count in \<open>simp add: stage_def seats_def world_simps\<close>)
next
  case leave_early
  show ?thesis by (rule that(3); use leave_early in \<open>auto simp: stage_def seats_def world_simps\<close>)
next
  case enter_section
  show ?thesis
  proof (cases "station_open (shm w)")
    case True
    show ?thesis
      by (rule that(4); use enter_section True in \<open>simp add: stage_def seats_def world_simps\<close>)
  next
    case False
    show ?thesis
      by (rule that(1);
          use enter_section False in \<open>simp add: stage_def seats_def world_simps station_enter_def\<close>)
  qed
next
  case (enter_unlock en)
  have "en \<Longrightarrow> p_attempts p = 0"
    using ok enter_unlock(1) by (auto simp: passenger_ok_def entry_ok_def)
  then show ?thesis
    by (intro that(1)) (use enter_unlock in \<open>auto simp: stage_def seats_def\<close>)
next
  case (board_answer r q)
  show ?thesis
  proof (cases "bm_approved r")
    case True
    show ?thesis by (rule that(5) [of r q]; use board_answer True in \<open>simp add: stage_def seats_def\<close>)
  next
    case False
    show ?thesis by (rule that(6) [of r q]; use board_answer False in \<open>simp add: stage_def seats_def\<close>)
  qed
next
  case leave_station
  show ?thesis by (rule that(7); use leave_station in \<open>simp add: stage_def seats_def world_simps\<close>)
next
  case finish
  with finish_stage [OF step finish(1) ok] that(1) show ?thesis by (simp add: seats_def)
next
  case thread
  show ?thesis by (rule that(1); use thread in \<open>simp add: stage_def\<close>)
qed (rule that(1);
      use alive assms(3) in \<open>auto simp: stage_def seats_def books_def world_simps office_enter_def office_abort_def\<close>)+

end
