(* ===== verification/Waiting.thy ===== *)
theory Waiting
  imports Books
begin

text \<open>
  The counter \<open>passengers_waiting\<close>. It is decremented by the driver when it admits a
  passenger, before the passenger hears of it, and clamped at zero. The law: the counter
  is the number of people inside the station less those whose approval is on its way;
  so the clamp never acts.
\<close>

definition calm :: "system \<Rightarrow> bool" where
  "calm s \<longleftrightarrow> ipc_alive (wrld s) \<and> all_running s"

lemma calm_mono: "sys_step c s t \<Longrightarrow> calm t \<Longrightarrow> calm s"
proof -
  assume step: "sys_step c s t" and t: "calm t"
  from step have "all_running s"
  proof (cases rule: sys_step_groups)
    case (passenger i e p' w')
    with t have "all_running (s\<lparr>ps := (ps s)[i := p']\<rparr>)" by (simp add: calm_def all_running_def)
    then show ?thesis
      by (rule all_running_update) (use passenger(1) passenger_step_local [OF passenger(2)] in simp_all)
  qed (use t in \<open>auto simp: calm_def all_running_def same_code_def\<close>)
  with t sys_step_alive [OF step] show "calm s" by (simp add: calm_def)
qed

section \<open>Approvals on their way\<close>

definition granted :: "boarding_msg_t \<Rightarrow> int" where
  "granted r = (if bm_approved r then seats_of (bm_passenger r) else 0)"

fun granted_hand :: "dpc \<Rightarrow> int" where
  "granted_hand (D_EntUnlock m r) = granted r"
| "granted_hand (D_Reply r) = granted r"
| "granted_hand _ = 0"

definition granted_q :: "world \<Rightarrow> int" where
  "granted_q w = sum_list (map granted (boarding_resp_q w))"

definition inside_seats :: "passenger_st \<Rightarrow> int" where
  "inside_seats p = (if stage p = Inside then seats p else 0)"

lemma granted_idle [simp]: "d_idle pc \<Longrightarrow> granted_hand pc = 0"
  by (cases pc) auto

lemma granted_nonneg [simp]: "0 \<le> granted r" "0 \<le> granted_hand pc" "0 \<le> granted_q w"
proof -
  show g: "0 \<le> granted r" for r by (simp add: granted_def less_imp_le)
  show "0 \<le> granted_hand pc" by (cases pc) (auto simp: g)
  show "0 \<le> granted_q w" unfolding granted_q_def by (rule sum_list_map_nonneg) (rule g)
qed

lemma seats_of_info: "info_ok g \<Longrightarrow> seats_of g = seat_count g"
  by (simp add: info_ok_def seats_of_def split: if_splits)

section \<open>The crowd\<close>

definition crowd :: "passenger_info_t multiset \<Rightarrow> int" where
  "crowd M = sum_mset (image_mset seats_of M)"

lemma crowd_simps [simp]:
  "crowd {#} = 0" "crowd (add_mset g M) = seats_of g + crowd M" "crowd (M + N) = crowd M + crowd N"
  by (simp_all add: crowd_def)

lemma crowd_sum_list: "crowd (sum_list (map f xs)) = sum_list (map (\<lambda>x. crowd (f x)) xs)"
  by (induction xs) auto

lemma crowd_mset: "crowd (image_mset h (mset ms)) = sum_list (map (\<lambda>m. seats_of (h m)) ms)"
  by (induction ms) auto

lemma granted_le_crowd:
  "granted_hand pc \<le> crowd (hand_infos pc)" "granted_q w \<le> crowd (queue_infos w)"
proof -
  show "granted_hand pc \<le> crowd (hand_infos pc)"
    by (cases pc) (auto simp: granted_def less_imp_le)
  have "granted_q w \<le> sum_list (map (\<lambda>m. seats_of (bm_passenger m)) (boarding_resp_q w))"
    unfolding granted_q_def by (rule sum_list_map_mono_int) (simp add: granted_def less_imp_le)
  moreover have "0 \<le> sum_list (map (\<lambda>m. seats_of (bm_passenger m)) (boarding_q w))"
    by (rule sum_list_map_nonneg) (simp add: less_imp_le)
  ultimately show "granted_q w \<le> crowd (queue_infos w)"
    by (simp add: queue_infos_def crowd_mset)
qed

lemma waiting_le_inside:
  assumes "info_ok (p_info p)"
  shows "crowd (board_waiting p) \<le> inside_seats p"
  using assms
  by (auto simp: board_waiting_def inside_seats_def stage_def seats_def seats_of_info info_ok_def)

text \<open>
  Whoever is inside and does not wait for an answer, and every request that is not yet
  granted, is still in the counter.
\<close>

lemma waiting_slack:
  assumes inv: "boarding_inv s" and alive: "ipc_alive (wrld s)"
    and bal: "passengers_waiting (shm (wrld s)) + granted_q (wrld s)
      + tally (\<lambda>p. - inside_seats p) granted_hand (\<lambda>_ _. 0) s = 0"
  shows "sum_list (map (\<lambda>p. inside_seats p - crowd (board_waiting p)) (ps s))
      + sum_list (map (\<lambda>d. crowd (hand_infos (d_pc d)) - granted_hand (d_pc d)) (ds s))
      \<le> passengers_waiting (shm (wrld s))"
proof -
  have "protocol_ok s" using inv alive by (simp add: boarding_inv_def)
  then have "crowd (in_flight s) = crowd (boarding_waiters s)" by (simp add: protocol_ok_def)
  then have "crowd (queue_infos (wrld s)) + sum_list (map (\<lambda>d. crowd (hand_infos (d_pc d))) (ds s))
      = sum_list (map (\<lambda>p. crowd (board_waiting p)) (ps s))"
    by (simp add: in_flight_def boarding_waiters_def crowd_sum_list)
  moreover have "sum_list (map (\<lambda>p. - inside_seats p) (ps s)) = - sum_list (map inside_seats (ps s))"
    by (induction "ps s") (auto simp: uminus_sum_list_map comp_def)
  ultimately show ?thesis
    using bal granted_le_crowd(2) [of "wrld s"] by (simp add: tally_def sum_list_subtractf)
qed

lemma slack_nonneg:
  assumes "boarding_inv s"
  shows "p \<in> set (ps s) \<Longrightarrow> 0 \<le> inside_seats p - crowd (board_waiting p)"
    and "0 \<le> crowd (hand_infos pc) - granted_hand pc"
  using assms waiting_le_inside granted_le_crowd
  by (auto simp: boarding_inv_def passengers_inv_def passenger_ok_def)

lemma waiting_covers_passenger:
  assumes inv: "boarding_inv s" and alive: "ipc_alive (wrld s)"
    and bal: "passengers_waiting (shm (wrld s)) + granted_q (wrld s)
      + tally (\<lambda>p. - inside_seats p) granted_hand (\<lambda>_ _. 0) s = 0"
    and i: "i < length (ps s)"
  shows "inside_seats (ps s ! i) - crowd (board_waiting (ps s ! i)) \<le> passengers_waiting (shm (wrld s))"
proof -
  have "inside_seats (ps s ! i) - crowd (board_waiting (ps s ! i))
      \<le> sum_list (map (\<lambda>p. inside_seats p - crowd (board_waiting p)) (ps s))"
    using sum_list_map_member_le [OF i, of "\<lambda>p. inside_seats p - crowd (board_waiting p)"]
      slack_nonneg(1) [OF inv] by blast
  moreover have "0 \<le> sum_list (map (\<lambda>d. crowd (hand_infos (d_pc d)) - granted_hand (d_pc d)) (ds s))"
    by (rule sum_list_map_nonneg) (rule slack_nonneg(2) [OF inv])
  ultimately show ?thesis using waiting_slack [OF inv alive bal] by linarith
qed

lemma waiting_covers_driver:
  assumes inv: "boarding_inv s" and alive: "ipc_alive (wrld s)"
    and bal: "passengers_waiting (shm (wrld s)) + granted_q (wrld s)
      + tally (\<lambda>p. - inside_seats p) granted_hand (\<lambda>_ _. 0) s = 0"
    and b: "b < length (ds s)"
  shows "crowd (hand_infos (d_pc (ds s ! b))) - granted_hand (d_pc (ds s ! b))
      \<le> passengers_waiting (shm (wrld s))"
proof -
  have "crowd (hand_infos (d_pc (ds s ! b))) - granted_hand (d_pc (ds s ! b))
      \<le> sum_list (map (\<lambda>d. crowd (hand_infos (d_pc d)) - granted_hand (d_pc d)) (ds s))"
    using sum_list_map_member_le [OF b, of "\<lambda>d. crowd (hand_infos (d_pc d)) - granted_hand (d_pc d)"]
      slack_nonneg(2) [OF inv] by blast
  moreover have "0 \<le> sum_list (map (\<lambda>p. inside_seats p - crowd (board_waiting p)) (ps s))"
    by (rule sum_list_map_nonneg) (rule slack_nonneg(1) [OF inv])
  ultimately show ?thesis using waiting_slack [OF inv alive bal] by linarith
qed

section \<open>The laws of one step\<close>

lemma entering_books:
  "books (count_created g m) = [total_passengers_created m + seat_count g, adults_created m + 1,
     children_created m + (if has_child_with g then 1 else 0), passengers_waiting m,
     passengers_left_early m, boarded_people m, passengers_transported m]"
  by (simp add: books_def count_created_def)

text \<open>The answer a passenger receives is its own, and leaves the queue.\<close>

lemma answer_received:
  assumes inv: "boarding_inv s" and alive: "ipc_alive (wrld s)" and i: "i < length (ps s)"
    and r: "k_select bm_mtype (pid (p_info (ps s ! i))) (boarding_resp_q (wrld s)) = Some (r, q)"
    and q: "boarding_resp_q w' = q"
  shows "bm_passenger r = p_info (ps s ! i)" "granted_q w' = granted_q (wrld s) - granted r"
    "bm_approved r \<Longrightarrow> granted r = seats (ps s ! i)"
proof -
  have pinv: "passengers_inv s" and prot: "protocol_ok s"
    using inv alive by (simp_all add: boarding_inv_def)
  note info = passengers_inv_nth(1) [OF pinv i]
  have "bm_mtype r = pid (p_info (ps s ! i))" using k_select_pos [OF r] info by (simp add: info_ok_def)
  with response_owner [OF pinv prot k_select_in [OF r] i]
  show own: "bm_passenger r = p_info (ps s ! i)" by blast
  then show "bm_approved r \<Longrightarrow> granted r = seats (ps s ! i)"
    using info by (simp add: granted_def seats_def seats_of_info)
  have "sum_mset (image_mset granted (mset (boarding_resp_q (wrld s))))
      = granted r + sum_mset (image_mset granted (mset q))"
    using k_select_mset [OF r] by simp
  with q show "granted_q w' = granted_q (wrld s) - granted r"
    by (simp add: granted_q_def flip: sum_mset_sum_list)
qed

lemma waiting_passenger_law:
  assumes inv: "boarding_inv s" and calm: "calm s"
    and bal: "passengers_waiting (shm (wrld s)) + granted_q (wrld s)
      + tally (\<lambda>p. - inside_seats p) granted_hand (\<lambda>_ _. 0) s = 0"
    and i: "i < length (ps s)" and step: "passenger_step e (ps s ! i) (wrld s) = Some (p', w')"
  shows "passengers_waiting (shm w') + granted_q w' - inside_seats p'
    = passengers_waiting (shm (wrld s)) + granted_q (wrld s) - inside_seats (ps s ! i)"
proof -
  let ?p = "ps s ! i"
  have alive: "ipc_alive (wrld s)" and run: "p_running ?p"
    using calm i by (auto simp: calm_def all_running_def)
  have pinv: "passengers_inv s" using inv by (simp add: boarding_inv_def)
  have ok: "passenger_ok True (station_closed (shm (wrld s))) ?p"
    using pinv i alive by (auto simp: passengers_inv_def)
  from step alive run ok show ?thesis
  proof (cases rule: passenger_step_stage)
    case quiet
    then show ?thesis by (auto simp: inside_seats_def granted_q_def books_def)
  next
    case (granted r q)
    with answer_received [OF inv alive i granted(5,8)] show ?thesis by (simp add: inside_seats_def)
  next
    case (refused r q)
    with answer_received [OF inv alive i refused(5,8)] show ?thesis by (simp add: inside_seats_def granted_def)
  next
    case walk
    have "seats ?p \<le> passengers_waiting (shm (wrld s))"
      using waiting_covers_passenger [OF inv alive bal i] walk(1,2)
      by (simp add: inside_seats_def board_waiting_def)
    with walk show ?thesis
      by (simp add: inside_seats_def granted_q_def leave_station_def seats_def Let_def)
  qed (auto simp: inside_seats_def granted_q_def count_created_def count_left_early_def
      station_enter_def seats_def)
qed

lemma waiting_driver_law:
  assumes inv: "boarding_inv s" and calm: "calm s"
    and bal: "passengers_waiting (shm (wrld s)) + granted_q (wrld s)
      + tally (\<lambda>p. - inside_seats p) granted_hand (\<lambda>_ _. 0) s = 0"
    and b: "b < length (ds s)" and step: "driver_step c e b (ds s ! b) (wrld s) = Some (d', w')"
  shows "passengers_waiting (shm w') + granted_q w' + granted_hand (d_pc d')
    = passengers_waiting (shm (wrld s)) + granted_q (wrld s) + granted_hand (d_pc (ds s ! b))"
proof -
  have alive: "ipc_alive (wrld s)" using calm by (simp add: calm_def)
  have hand: "hand_ok (d_pc (ds s ! b))"
    using inv alive b by (auto simp: boarding_inv_def protocol_ok_def)
  from step show ?thesis
  proof (cases rule: driver_stepE)
    case (board m r)
    have "seats_of (bm_passenger m) \<le> passengers_waiting (shm (wrld s))"
      using waiting_covers_driver [OF inv alive bal b] board(1) by simp
    with board hand show ?thesis
      by (simp add: granted_q_def world_simps section_defs granted_def)
  next
    case (reply r)
    with alive show ?thesis by (simp add: granted_q_def world_simps)
  next
    case (deny m)
    then show ?thesis by (simp add: granted_def boarding_response_def)
  qed (auto simp: granted_q_def world_simps section_defs Let_def)
qed

end
