(* ===== verification/Conservation.thy ===== *)
theory Conservation
  imports Waiting
begin

text \<open>
  The conservation laws, each an interpretation of the ledger contract: people created,
  waiting, boarded, gone; adults and children; people boarded, transported and on a bus.
\<close>

lemma reachable_boarding: "reachable c s \<Longrightarrow> boarding_inv s"
  unfolding reachable_def by (rule boarding_protocol.always)

lemma reachable_tickets: "reachable c s \<Longrightarrow> ticket_inv s"
  unfolding reachable_def by (rule ticket_protocol.always)

lemma boarding_inv_flags: "boarding_inv s \<Longrightarrow> flags_inv s"
  by (simp add: boarding_inv_def passengers_inv_def)

section \<open>Frames\<close>

lemma office_step_books:
  assumes "office_step e k f w = Some (f', w')" and "k < TICKET_OFFICES"
  shows "books (shm w') = books (shm w) \<and> boarding_resp_q w' = boarding_resp_q w"
  using assms
proof (cases rule: office_stepE)
  case quiet
  from housekeepingD [OF quiet(3)] housekeeping_shm [OF quiet(3)] show ?thesis
    by (simp add: books_def)
next
  case (work m)
  from housekeepingD [OF work(2)] housekeeping_shm [OF work(2)] show ?thesis
    by (simp add: books_def)
qed (auto simp: books_def world_simps section_defs Let_def)

lemma dispatcher_step_books:
  assumes "dispatcher_step c e dead x w = Some (x', w', sig)"
  shows "butlast (books (shm w')) = butlast (books (shm w)) \<and> boarding_resp_q w' = boarding_resp_q w
    \<and> passengers_in_office (shm w') = passengers_in_office (shm w)"
  using assms
proof (cases rule: dispatcher_stepE)
  case health
  with check_driver_health_frame [of c "now e" dead "shm w"] show ?thesis
    by (auto simp: books_def world_simps)
next
  case account
  with shutdown_accounting_frame [of "shm w"] show ?thesis by (auto simp: books_def world_simps)
qed (auto simp: books_def world_simps close_station_def)

lemma driver_step_books:
  assumes "driver_step c e b d w = Some (d', w')"
  shows "total_passengers_created (shm w') = total_passengers_created (shm w)
    \<and> adults_created (shm w') = adults_created (shm w)
    \<and> children_created (shm w') = children_created (shm w)
    \<and> passengers_left_early (shm w') = passengers_left_early (shm w)
    \<and> passengers_in_office (shm w') = passengers_in_office (shm w)"
  using assms by (cases rule: driver_stepE) (auto simp: world_simps section_defs Let_def)

lemma init_books: "books (shm (init_world xp)) = [0, 0, 0, 0, 0, 0, 0]" "boarding_resp_q (init_world xp) = []"
  "passengers_in_office (shm (init_world xp)) = 0" "ticket_resp_q (init_world xp) = []"
  by (simp_all add: books_def init_world_def init_shared_state_def)

lemmas init_counters [simp] = init_books(2-) init_books(1) [unfolded books_def, simplified]

lemma init_office_count [simp]: "passengers_in_office (init_shared_state xp) = 0"
  by (simp add: init_shared_state_def)

lemma stage_view: "p_view p = p_view q \<Longrightarrow> stage p = stage q \<and> seats p = seats q"
  by (simp add: p_view_def stage_def seats_def)

lemma stage_init [simp]: "stage (init_passenger_st g) = Fresh"
  by (simp add: stage_def init_passenger_st_def)

lemma calm_passenger:
  assumes "boarding_inv s" and "calm s" and "i < length (ps s)"
  shows "ipc_alive (wrld s)" "p_running (ps s ! i)"
    "passenger_ok True (station_closed (shm (wrld s))) (ps s ! i)"
proof -
  show alive: "ipc_alive (wrld s)" and "p_running (ps s ! i)"
    using assms by (auto simp: calm_def all_running_def)
  show "passenger_ok True (station_closed (shm (wrld s))) (ps s ! i)"
    using assms alive by (auto simp: boarding_inv_def passengers_inv_def)
qed

section \<open>The accounts\<close>

interpretation waiting_account:
  ledger "\<lambda>w. passengers_waiting (shm w) + granted_q w" "\<lambda>p. - inside_seats p" granted_hand
    "\<lambda>_ _. 0" boarding_inv calm "\<lambda>_. True" 0
proof unfold_locales
  show "p_view p = p_view q \<Longrightarrow> - inside_seats p = - inside_seats q" for p q
    by (drule stage_view) (simp add: inside_seats_def)
  show "- inside_seats (init_passenger_st g) = 0" for g by (simp add: inside_seats_def)
qed (use reachable_boarding boarding_inv_flags calm_mono waiting_passenger_law waiting_driver_law
       office_step_books dispatcher_step_books in
     \<open>auto simp: granted_q_def books_def inside_seats_def boarding_inv_flags flags_inv_def\<close>)

definition counted_seats :: "passenger_st \<Rightarrow> int" where
  "counted_seats p = (if stage p = Fresh then 0 else seats p)"

definition gone_seats :: "passenger_st \<Rightarrow> int" where
  "gone_seats p = (if stage p = Gone then seats p else 0)"

definition aboard_seats :: "passenger_st \<Rightarrow> int" where
  "aboard_seats p = (if stage p = Aboard then seats p else 0)"

definition pending_seats :: "passenger_st \<Rightarrow> int" where
  "pending_seats p = (if stage p = Pending then seats p else 0)"

lemmas stage_seats = counted_seats_def gone_seats_def aboard_seats_def pending_seats_def inside_seats_def

lemma stage_seats_init [simp]:
  "counted_seats (init_passenger_st g) = 0" "gone_seats (init_passenger_st g) = 0"
  "aboard_seats (init_passenger_st g) = 0" "inside_seats (init_passenger_st g) = 0"
  "pending_seats (init_passenger_st g) = 0"
  by (simp_all add: stage_seats)

lemma stage_seats_view:
  assumes "p_view p = p_view q"
  shows "counted_seats p = counted_seats q" "gone_seats p = gone_seats q"
    "aboard_seats p = aboard_seats q" "inside_seats p = inside_seats q"
    "pending_seats p = pending_seats q"
  using stage_view [OF assms] by (simp_all add: stage_seats)

lemma created_passenger_law:
  assumes "boarding_inv s" and "calm s" and "i < length (ps s)"
    and step: "passenger_step e (ps s ! i) (wrld s) = Some (p', w')"
  shows "total_passengers_created (shm w') - counted_seats p'
      = total_passengers_created (shm (wrld s)) - counted_seats (ps s ! i)
    \<and> passengers_left_early (shm w') - gone_seats p'
      = passengers_left_early (shm (wrld s)) - gone_seats (ps s ! i)
    \<and> total_passengers_created (shm w') - adults_created (shm w') - children_created (shm w')
      = total_passengers_created (shm (wrld s)) - adults_created (shm (wrld s)) - children_created (shm (wrld s))"
proof -
  note calm = calm_passenger [OF assms(1-3)]
  have info: "info_ok (p_info (ps s ! i))" using calm(3) by (simp add: passenger_ok_def)
  from step calm show ?thesis
    by (cases rule: passenger_step_stage)
      (use info in \<open>auto simp: stage_seats seats_def books_def count_created_def count_left_early_def
         station_enter_def leave_station_def Let_def info_ok_def\<close>)
qed

interpretation created_account:
  ledger "\<lambda>w. total_passengers_created (shm w)" "\<lambda>p. - counted_seats p" "\<lambda>_. 0"
    "\<lambda>_ _. 0" boarding_inv calm "\<lambda>_. True" 0
  by unfold_locales
    (use reachable_boarding boarding_inv_flags calm_mono created_passenger_law driver_step_books
       office_step_books dispatcher_step_books in
     \<open>auto simp: books_def boarding_inv_flags dest: stage_seats_view\<close>)

interpretation left_account:
  ledger "\<lambda>w. passengers_left_early (shm w)" "\<lambda>p. - gone_seats p" "\<lambda>_. 0"
    "\<lambda>_ _. 0" boarding_inv calm "\<lambda>_. True" 0
  by unfold_locales
    (use reachable_boarding boarding_inv_flags calm_mono created_passenger_law driver_step_books
       office_step_books dispatcher_step_books in
     \<open>auto simp: books_def boarding_inv_flags dest: stage_seats_view\<close>)

interpretation people_account:
  ledger "\<lambda>w. total_passengers_created (shm w) - adults_created (shm w) - children_created (shm w)"
    "\<lambda>_. 0" "\<lambda>_. 0" "\<lambda>_ _. 0" boarding_inv calm "\<lambda>_. True" 0
  by unfold_locales
    (use reachable_boarding boarding_inv_flags calm_mono created_passenger_law driver_step_books
       office_step_books dispatcher_step_books in
     \<open>auto simp: books_def boarding_inv_flags\<close>)

text \<open>People boarded: those aboard, and those whose approval is on its way.\<close>

lemma boarded_passenger_law:
  assumes inv: "boarding_inv s" and calm: "calm s" and i: "i < length (ps s)"
    and step: "passenger_step e (ps s ! i) (wrld s) = Some (p', w')"
  shows "boarded_people (shm w') - granted_q w' - aboard_seats p'
      = boarded_people (shm (wrld s)) - granted_q (wrld s) - aboard_seats (ps s ! i)"
proof -
  note ok = calm_passenger [OF inv calm i]
  from step ok show ?thesis
  proof (cases rule: passenger_step_stage)
    case quiet
    then show ?thesis by (auto simp: stage_seats granted_q_def books_def)
  next
    case (granted r q)
    with answer_received [OF inv ok(1) i granted(5,8)] show ?thesis by (simp add: stage_seats)
  next
    case (refused r q)
    with answer_received [OF inv ok(1) i refused(5,8)] show ?thesis
      by (simp add: stage_seats granted_def)
  qed (auto simp: stage_seats granted_q_def count_created_def count_left_early_def
      station_enter_def leave_station_def Let_def)
qed

lemma boarded_driver_law:
  assumes inv: "boarding_inv s" and alive: "ipc_alive (wrld s)" and b: "b < length (ds s)"
    and step: "driver_step c e b (ds s ! b) (wrld s) = Some (d', w')"
  shows "boarded_people (shm w') - granted_q w' - granted_hand (d_pc d')
    = boarded_people (shm (wrld s)) - granted_q (wrld s) - granted_hand (d_pc (ds s ! b))"
proof -
  have hand: "hand_ok (d_pc (ds s ! b))"
    using inv alive b by (auto simp: boarding_inv_def protocol_ok_def)
  from step show ?thesis
  proof (cases rule: driver_stepE)
    case (board m r)
    with hand show ?thesis by (simp add: granted_q_def world_simps section_defs granted_def)
  next
    case (reply r)
    with alive show ?thesis by (simp add: granted_q_def world_simps)
  next
    case (deny m)
    then show ?thesis by (simp add: granted_def boarding_response_def)
  qed (auto simp: granted_q_def world_simps section_defs Let_def)
qed

interpretation boarded_account:
  ledger "\<lambda>w. boarded_people (shm w) - granted_q w" "\<lambda>p. - aboard_seats p"
    "\<lambda>pc. - granted_hand pc" "\<lambda>_ _. 0" boarding_inv calm "\<lambda>_. True" 0
proof unfold_locales
  show "p_view p = p_view q \<Longrightarrow> - aboard_seats p = - aboard_seats q" for p q
    by (drule stage_seats_view(3)) simp
qed (use reachable_boarding boarding_inv_flags calm_mono boarded_passenger_law boarded_driver_law
       office_step_books dispatcher_step_books in
     \<open>auto simp: granted_q_def books_def calm_def boarding_inv_flags flags_inv_def\<close>)

text \<open>
  A travelling bus has been added to \<open>passengers_transported\<close> when it left, so only the
  buses at the station count.
\<close>

definition riders_at_station :: "(nat \<Rightarrow> bus_state_t) \<Rightarrow> int" where
  "riders_at_station bs =
     sum_list (map (\<lambda>i. if at_station (bs i) then passenger_count (bs i) else 0) [0..<MAX_BUSES])"

lemma riders_unfold:
  "riders_at_station bs = (if at_station (bs 0) then passenger_count (bs 0) else 0)
    + (if at_station (bs 1) then passenger_count (bs 1) else 0)
    + (if at_station (bs 2) then passenger_count (bs 2) else 0)"
  by (simp add: riders_at_station_def upt_rec numeral_2_eq_2)

lemma riders_upd:
  assumes "b < MAX_BUSES"
  shows "riders_at_station (bs(b := u)) = riders_at_station bs
    - (if at_station (bs b) then passenger_count (bs b) else 0)
    + (if at_station u then passenger_count u else 0)"
  using bus_cases [OF assms] by (auto simp: riders_unfold)

definition riders_gap :: "shm_data_t \<Rightarrow> int" where
  "riders_gap m = boarded_people m - passengers_transported m - riders_at_station (buses m)"

lemma riders_driver_law:
  assumes "bus_inv d (buses (shm w) b)" and b: "b < MAX_BUSES"
    and step: "driver_step c e b d w = Some (d', w')"
  shows "riders_gap (shm w') = riders_gap (shm w)"
  using step
  by (cases rule: driver_stepE)
    (use assms(1) riders_upd [OF b] in
      \<open>auto simp: riders_gap_def world_simps section_defs Let_def bus_inv_def\<close>)

lemma health_keeps_riders:
  "passenger_count (buses (check_driver_health c t dead m) k) = passenger_count (buses m k)"
proof -
  have clear: "passenger_count (buses (clear_dead_driver dead j n) k) = passenger_count (buses n k)"
    for j n by (simp add: clear_dead_driver_def)
  have "passenger_count (buses (fold (clear_dead_driver dead) js n) k) = passenger_count (buses n k)"
    for js n by (induction js arbitrary: n) (simp_all add: clear)
  then show ?thesis by (simp add: check_driver_health_def Let_def split: option.split)
qed

lemma riders_cong:
  assumes "\<And>k. at_station (bs k) = at_station (bs' k)"
    and "\<And>k. passenger_count (bs k) = passenger_count (bs' k)"
  shows "riders_at_station bs = riders_at_station bs'"
  by (simp add: riders_unfold assms)

lemma riders_dispatcher_law:
  assumes "dispatcher_step c e dead x w = Some (x', w', sig)" and "simulation_running (shm w')"
  shows "riders_gap (shm w') = riders_gap (shm w)"
  using assms(1)
proof (cases rule: dispatcher_stepE)
  case health
  have "at_station (buses (check_driver_health c (now e) dead (shm w)) k) = at_station (buses (shm w) k)"
    for k using health_keeps_buses [of "shm w" k] by (simp add: bus_untouched_def)
  then have "riders_at_station (buses (check_driver_health c (now e) dead (shm w)))
      = riders_at_station (buses (shm w))"
    using health_keeps_riders by (intro riders_cong)
  with health check_driver_health_frame [of c "now e" dead "shm w"] show ?thesis
    by (auto simp: riders_gap_def world_simps)
next
  case account
  with assms(2) shutdown_accounting_effect(3) show ?thesis by (simp add: world_simps)
qed (auto simp: riders_gap_def world_simps close_station_def)

lemma running_mono: "sys_step c s t \<Longrightarrow> flags_inv s \<Longrightarrow> simulation_running (shm (wrld t)) \<Longrightarrow>
  simulation_running (shm (wrld s))"
proof -
  assume step: "sys_step c s t" and t: "simulation_running (shm (wrld t))"
  from step show ?thesis
  proof (cases rule: sys_step_groups)
    case (dispatcher e dead x' w' sig)
    from dispatcher(1) have "simulation_running (shm w') \<Longrightarrow> simulation_running (shm (wrld s))"
    proof (cases rule: dispatcher_stepE)
      case health
      with check_driver_health_frame [of c "now e" dead "shm (wrld s)"]
      show "simulation_running (shm w') \<Longrightarrow> simulation_running (shm (wrld s))"
        by (auto simp: world_simps)
    next
      case account
      with shutdown_accounting_effect(3)
      show "simulation_running (shm w') \<Longrightarrow> simulation_running (shm (wrld s))"
        by (simp add: world_simps)
    qed (auto simp: world_simps close_station_def split: if_splits)
    with dispatcher(2) t show ?thesis by simp
  qed (use t in \<open>auto simp: same_code_def dest!: passenger_step_frame office_step_frame driver_step_frame\<close>)
qed

definition riders_known :: "system \<Rightarrow> bool" where
  "riders_known s \<longleftrightarrow> flags_inv s \<and> buses_inv s"

interpretation riders_account:
  ledger "\<lambda>w. riders_gap (shm w)" "\<lambda>_. 0" "\<lambda>_. 0" "\<lambda>_ _. 0" riders_known
    "\<lambda>s. simulation_running (shm (wrld s))" "\<lambda>_. True" 0
proof unfold_locales
  show "reachable c s \<Longrightarrow> riders_known s" for c s
    by (simp add: riders_known_def reachable_flags reachable_buses)
  show "riders_gap (shm (init_world xp)) = 0" for xp
    by (simp add: riders_gap_def riders_unfold init_world_def init_shared_state_def init_bus_def)
  show "sys_step c s t \<Longrightarrow> riders_known s \<Longrightarrow> simulation_running (shm (wrld t)) \<Longrightarrow>
      simulation_running (shm (wrld s))" for c s t
    using running_mono by (auto simp: riders_known_def)
  show "True \<and> riders_gap (shm w') + 0 = riders_gap (shm (wrld s)) + 0"
    if "i < length (ps s)" "passenger_step e (ps s ! i) (wrld s) = Some (p', w')"
    for s i e p' w'
  proof -
    have "boarded_people (shm w') = boarded_people (shm (wrld s))
        \<and> passengers_transported (shm w') = passengers_transported (shm (wrld s))"
      using that(2) by (cases rule: passenger_stepE) (auto simp: world_simps section_defs Let_def)
    with passenger_step_frame [OF that(2)] show ?thesis by (simp add: riders_gap_def)
  qed
  show "True \<and> riders_gap (shm w') + 0 = riders_gap (shm (wrld s)) + 0"
    if "k < TICKET_OFFICES" "office_step e k (fs s ! k) (wrld s) = Some (f', w')" for s k e f' w'
    using office_step_books [OF that(2,1)] office_step_frame [OF that(2)]
    by (simp add: riders_gap_def books_def)
qed (use riders_driver_law riders_dispatcher_law in
      \<open>auto simp: riders_known_def buses_inv_def riders_gap_def\<close>)

text \<open>People in the office: those on their way to an answer that has not been decided yet.\<close>

fun in_office :: "ppc \<Rightarrow> int" where
  "in_office P_TicketSlot = 1" | "in_office P_SendTicket = 1" | "in_office P_TicketUndo = 1"
| "in_office P_WaitTicket = 1" | "in_office P_OfficeAbort = 1" | "in_office _ = 0"

fun decided :: "opc \<Rightarrow> int" where
  "decided (O_Reply r) = 1" | "decided (O_DrainReply r) = 1" | "decided _ = 0"

lemma in_office_idle [simp]:
  "p_finished pc \<Longrightarrow> in_office pc = 0" "o_idle po \<Longrightarrow> decided po = 0"
  by (cases pc; simp) (cases po; simp)

lemma office_passenger_law:
  assumes "passenger_step e p w = Some (p', w')" and "ipc_alive w"
  shows "passengers_in_office (shm w') + int (length (ticket_resp_q w')) - in_office (p_pc p')
      = passengers_in_office (shm w) + int (length (ticket_resp_q w)) - in_office (p_pc p)"
  using assms(1)
  by (cases rule: passenger_stepE)
    (use assms(2) in \<open>auto simp: world_simps section_defs Let_def dest: k_select_length split: if_splits\<close>)

lemma office_office_law:
  assumes "office_step e k f w = Some (f', w')" and "k < TICKET_OFFICES" and "ipc_alive w"
  shows "passengers_in_office (shm w') + int (length (ticket_resp_q w')) + decided (o_pc f')
      = passengers_in_office (shm w) + int (length (ticket_resp_q w)) + decided (o_pc f)"
  using assms(1,2)
proof (cases rule: office_stepE)
  case quiet
  from quiet housekeepingD(3) [OF quiet(3)] housekeeping_shm(12) [OF quiet(3)] show ?thesis by simp
next
  case (work m)
  have "decided (o_pc f') = decided (o_pc f)" using work(1) by auto
  with housekeepingD(3) [OF work(2)] housekeeping_shm(12) [OF work(2)] show ?thesis by simp
qed (use assms(3) in \<open>auto simp: world_simps section_defs Let_def\<close>)

interpretation office_account:
  ledger "\<lambda>w. passengers_in_office (shm w) + int (length (ticket_resp_q w))"
    "\<lambda>p. - in_office (p_pc p)" "\<lambda>_. 0" "\<lambda>_. decided" flags_inv
    "\<lambda>s. ipc_alive (wrld s)" "\<lambda>_. True" 0
  by unfold_locales
    (use sys_step_alive office_passenger_law office_office_law driver_step_books driver_step_frame
       dispatcher_step_books dispatcher_step_traffic in
     \<open>auto simp: reachable_flags p_view_def init_passenger_st_def\<close>)

section \<open>The balance\<close>

lemma sum_list_uminus: "sum_list (map (\<lambda>p. - f p) xs) = - sum_list (map f xs)"
  for f :: "'a \<Rightarrow> int"
  by (induction xs) auto

lemma stages_partition:
  "counted_seats p = pending_seats p + inside_seats p + aboard_seats p + gone_seats p"
  by (cases "stage p") (simp_all add: stage_seats)

lemma counted_partition:
  "sum_list (map counted_seats xs) = sum_list (map pending_seats xs) + sum_list (map inside_seats xs)
     + sum_list (map aboard_seats xs) + sum_list (map gone_seats xs)"
  by (induction xs) (simp_all add: stages_partition)

definition granted_hands :: "system \<Rightarrow> int" where
  "granted_hands s = sum_list (map (\<lambda>d. granted_hand (d_pc d)) (ds s))"

lemma granted_hands_nonneg [simp]: "0 \<le> granted_hands s"
  unfolding granted_hands_def by (rule sum_list_map_nonneg) simp

text \<open>The four counters read off the stages; approvals on their way are in \<open>boarded_people\<close> already.\<close>

lemma counters_by_stage:
  assumes "reachable c s" and "calm s"
  shows "total_passengers_created (shm (wrld s)) = sum_list (map counted_seats (ps s))"
    and "passengers_left_early (shm (wrld s)) = sum_list (map gone_seats (ps s))"
    and "passengers_waiting (shm (wrld s))
       = sum_list (map inside_seats (ps s)) - granted_q (wrld s) - granted_hands s"
    and "boarded_people (shm (wrld s))
       = sum_list (map aboard_seats (ps s)) + granted_q (wrld s) + granted_hands s"
  using created_account.balance [OF assms] left_account.balance [OF assms]
    waiting_account.balance [OF assms] boarded_account.balance [OF assms]
  by (simp_all add: tally_def sum_list_uminus granted_hands_def)

lemma created_balance:
  assumes "reachable c s" and "calm s"
  shows "total_passengers_created (shm (wrld s)) = sum_list (map pending_seats (ps s))
    + passengers_waiting (shm (wrld s)) + boarded_people (shm (wrld s))
    + passengers_left_early (shm (wrld s))"
  using counters_by_stage [OF assms] counted_partition [of "ps s"] by linarith

lemma boarded_balance:
  assumes "reachable c s" and "simulation_running (shm (wrld s))"
  shows "boarded_people (shm (wrld s)) = passengers_transported (shm (wrld s))
    + riders_at_station (buses (shm (wrld s)))"
  using riders_account.balance [OF assms] by (simp add: tally_def riders_gap_def)

lemma stage_seats_nonneg:
  assumes "info_ok (p_info p)"
  shows "0 \<le> counted_seats p" "0 \<le> pending_seats p" "0 \<le> inside_seats p"
    "0 \<le> aboard_seats p" "0 \<le> gone_seats p"
  using assms by (auto simp: stage_seats seats_def info_ok_def)

lemma stage_sums_nonneg:
  assumes "reachable c s"
  shows "0 \<le> sum_list (map pending_seats (ps s))" "0 \<le> sum_list (map aboard_seats (ps s))"
    "0 \<le> sum_list (map gone_seats (ps s))"
proof -
  have info: "info_ok (p_info p)" if "p \<in> set (ps s)" for p
    using reachable_passengers [OF assms] that by (auto simp: passengers_inv_def passenger_ok_def)
  show "0 \<le> sum_list (map pending_seats (ps s))" "0 \<le> sum_list (map aboard_seats (ps s))"
    "0 \<le> sum_list (map gone_seats (ps s))"
    by (rule sum_list_map_nonneg, rule stage_seats_nonneg, erule info)+
qed

lemma waiting_nonneg:
  assumes r: "reachable c s" and calm: "calm s"
  shows "0 \<le> passengers_waiting (shm (wrld s))"
proof -
  have inv: "boarding_inv s" using reachable_boarding [OF r] .
  have alive: "ipc_alive (wrld s)" using calm by (simp add: calm_def)
  have "0 \<le> sum_list (map (\<lambda>p. inside_seats p - crowd (board_waiting p)) (ps s))"
    by (rule sum_list_map_nonneg) (rule slack_nonneg(1) [OF inv])
  moreover have "0 \<le> sum_list (map (\<lambda>d. crowd (hand_infos (d_pc d)) - granted_hand (d_pc d)) (ds s))"
    by (rule sum_list_map_nonneg) (rule slack_nonneg(2) [OF inv])
  ultimately show ?thesis
    using waiting_slack [OF inv alive waiting_account.balance [OF r calm]] by linarith
qed

text \<open>
  In the office: everybody who waits for a decision holds a distinct request, so the
  counter is the number of undecided requests and of people about to send one.
\<close>

lemma in_office_waiting: "in_office (p_pc p) = int (size (ticket_waiting p))
    + (if p_pc p \<in> {P_TicketSlot, P_SendTicket, P_TicketUndo, P_OfficeAbort} then 1 else 0)"
  by (cases "p_pc p") (auto simp: ticket_waiting_def)

lemma size_sum_list: "int (size (sum_list (map f xs))) = sum_list (map (\<lambda>x. int (size (f x))) xs)"
  for f :: "'a \<Rightarrow> 'b multiset"
  by (induction xs) auto

lemma sum_list_two:
  fixes f :: "'a \<Rightarrow> int"
  assumes "length xs = 2"
  shows "sum_list (map f xs) = f (xs ! 0) + f (xs ! 1)"
  using assms by (auto simp: numeral_2_eq_2 length_Suc_conv)

lemma in_office_nonneg:
  assumes r: "reachable c s" and alive: "ipc_alive (wrld s)"
  shows "0 \<le> passengers_in_office (shm (wrld s))"
proof -
  have "ticket_protocol_ok s" and len: "length (fs s) = 2"
    using reachable_tickets [OF r] alive reachable_flags [OF r]
    by (simp_all add: ticket_inv_def flags_inv_def)
  then have "int (size (tickets_in_flight s)) = int (size (ticket_waiters s))"
    by (simp add: ticket_protocol_ok_def)
  then have eq: "int (length (ticket_q (wrld s))) + int (length (ticket_resp_q (wrld s)))
      + sum_list (map (\<lambda>f. int (size (desk_pids (o_pc f)))) (fs s))
      = sum_list (map (\<lambda>p. int (size (ticket_waiting p))) (ps s))"
    by (simp add: tickets_in_flight_def ticket_waiters_def queue_pids_def size_sum_list)
  have "sum_list (map (\<lambda>f. int (size (desk_pids (o_pc f)))) (fs s))
      = int (size (desk_pids (o_pc (fs s ! 0)))) + int (size (desk_pids (o_pc (fs s ! 1))))"
    by (rule sum_list_two [OF len])
  moreover have "decided pc \<le> int (size (desk_pids pc))" for pc by (cases pc) auto
  ultimately have "decided (o_pc (fs s ! 0)) + decided (o_pc (fs s ! 1))
      \<le> sum_list (map (\<lambda>f. int (size (desk_pids (o_pc f)))) (fs s))"
    by (simp add: add_mono)
  moreover have "sum_list (map (\<lambda>p. int (size (ticket_waiting p))) (ps s))
      \<le> sum_list (map (\<lambda>p. in_office (p_pc p)) (ps s))"
    by (rule sum_list_map_mono_int) (simp add: in_office_waiting)
  ultimately show ?thesis
    using eq office_account.balance [OF r alive] by (simp add: tally_def sum_list_uminus)
qed

end
