(* ===== verification/Lifecycle.thy ===== *)
theory Lifecycle
  imports Conservation
begin

text \<open>
  The specification of the station, without processes, queues or semaphores: a list of
  parties, each with a number of people and a stage, and the moves a party may make. The
  simulation refines it: every step of the system is a move of one party, the arrival of
  a party, or no move at all.
\<close>

section \<open>The specification\<close>

inductive party_move :: "int \<times> stage \<Rightarrow> int \<times> stage \<Rightarrow> bool" where
  size_settled: "party_move (n, Fresh) (m, Fresh)"
| counted: "party_move (n, Fresh) (n, Pending)"
| entered: "party_move (n, Pending) (n, Inside)"
| turned_away: "party_move (n, Pending) (n, Gone)"
| boarded: "party_move (n, Inside) (n, Aboard)"
| gave_up: "party_move (n, Inside) (n, Gone)"

inductive_simps party_move_simps [simp]: "party_move (n, st) (m, st')"

inductive station_move :: "(int \<times> stage) list \<Rightarrow> (int \<times> stage) list \<Rightarrow> bool" where
  arrival: "station_move xs (xs @ [(n, Fresh)])"
| party: "i < length xs \<Longrightarrow> party_move (xs ! i) y \<Longrightarrow> station_move xs (xs[i := y])"

definition party :: "passenger_st \<Rightarrow> int \<times> stage" where
  "party p = (seats p, stage p)"

definition parties :: "system \<Rightarrow> (int \<times> stage) list" where
  "parties s = map party (ps s)"

section \<open>The refinement\<close>

lemma passenger_refines:
  assumes "passenger_step e p w = Some (p', w')" and "ipc_alive w" and "p_running p"
    and "passenger_ok True (station_closed (shm w)) p"
  shows "party p' = party p \<or> party_move (party p) (party p')"
  using assms by (cases rule: passenger_step_stage) (auto simp: party_def)

lemma system_refines:
  assumes step: "sys_step c s t" and inv: "boarding_inv s" and calm: "calm t"
  shows "parties t = parties s \<or> station_move (parties s) (parties t)"
  using step
proof (cases rule: sys_step_groups)
  case (passenger i e p' w')
  note ok = calm_passenger [OF inv calm_mono [OF step calm] passenger(1)]
  from passenger_refines [OF passenger(2) ok] show ?thesis
  proof
    assume "party p' = party (ps s ! i)"
    with passenger show ?thesis by (simp add: parties_def map_update_same)
  next
    assume "party_move (party (ps s ! i)) (party p')"
    then have "station_move (parties s) ((parties s)[i := party p'])"
      using passenger(1) by (intro station_move.party) (simp_all add: parties_def)
    with passenger show ?thesis by (simp add: parties_def map_update)
  qed
next
  case (spawn q r1 r2 r3 r4 r5)
  then show ?thesis by (simp add: parties_def party_def station_move.arrival)
next
  case control
  then have "parties t = parties s"
    unfolding parties_def
    by (intro map_view_cong [OF same_codeD(1)]) (auto simp: party_def dest: stage_view)
  then show ?thesis ..
qed (auto simp: parties_def)

text \<open>In the specification a party that is aboard or gone has settled.\<close>

lemma settled_is_final:
  "station_move xs ys \<Longrightarrow> i < length xs \<Longrightarrow> snd (xs ! i) \<in> {Aboard, Gone} \<Longrightarrow>
     i < length ys \<and> ys ! i = xs ! i"
proof (induction rule: station_move.induct)
  case (arrival xs n)
  then show ?case by (simp add: nth_append)
next
  case (party j xs y)
  then show ?case by (cases "xs ! j") (auto simp: nth_list_update elim: party_move.cases)
qed

lemma settled_star:
  assumes "station_move\<^sup>*\<^sup>* xs ys" and "i < length xs" and "snd (xs ! i) \<in> {Aboard, Gone}"
  shows "i < length ys \<and> ys ! i = xs ! i"
  using assms by (induction rule: rtranclp_induct) (use settled_is_final in fastforce)+

lemma system_refines_star:
  assumes steps: "(sys_step c)\<^sup>*\<^sup>* s t" and "reachable c s" and "calm t"
  shows "station_move\<^sup>*\<^sup>* (parties s) (parties t)"
  using assms
proof (induction rule: rtranclp_induct)
  case base
  then show ?case by simp
next
  case (step u v)
  have "reachable c u" using step.hyps(1) step.prems(1) reach_star by (auto simp: reachable_def)
  then have "boarding_inv u" by (rule reachable_boarding)
  with step system_refines calm_mono show ?case
    by (metis rtranclp.rtrancl_into_rtrancl)
qed

section \<open>Nobody enters a closed station\<close>

lemma no_entry_when_closed:
  assumes step: "sys_step c s t" and inv: "boarding_inv s" and calm: "calm t"
    and closed: "station_closed (shm (wrld s))"
    and i: "i < length (ps s)" and "stage (ps s ! i) \<in> {Fresh, Pending}"
  shows "stage (ps t ! i) \<noteq> Inside"
  using step
proof (cases rule: sys_step_groups)
  case (passenger j e p' w')
  show ?thesis
  proof (cases "j = i")
    case True
    have shut: "\<not> station_open (shm (wrld s))"
      using boarding_inv_flags [OF inv] closed by (simp add: flags_inv_def flags_ok_def)
    note ok = calm_passenger [OF inv calm_mono [OF step calm] i]
    from passenger(2) True have "passenger_step e (ps s ! i) (wrld s) = Some (p', w')" by simp
    then have "stage p' \<noteq> Inside"
      using ok by (cases rule: passenger_step_stage) (use assms(6) shut in auto)
    with passenger True i show ?thesis by simp
  next
    case False
    with passenger assms(6) show ?thesis by auto
  qed
next
  case (spawn q r1 r2 r3 r4 r5)
  with assms(5,6) show ?thesis by (auto simp: nth_append)
next
  case control
  then have "map stage (ps t) = map stage (ps s)"
    by (intro map_view_cong [OF same_codeD(1)]) (auto dest: stage_view)
  then have "stage (ps t ! i) = stage (ps s ! i)"
    using i by (metis length_map nth_map)
  with assms(6) show ?thesis by auto
qed (use assms(6) in auto)

end
