(* ===== verification/Bounds.thy ===== *)
theory Bounds
  imports Lifecycle
begin

text \<open>
  Consequences of the semaphore laws: mutual exclusion at the doors, at the station
  entrance and at the desks, and bounds on the message queues.
\<close>

lemma two_members_le_sum:
  fixes f :: "'a \<Rightarrow> int"
  assumes "i < j" and "j < length xs" and nonneg: "\<And>x. 0 \<le> f x"
  shows "f (xs ! i) + f (xs ! j) \<le> sum_list (map f xs)"
proof -
  have "xs = take j xs @ xs ! j # drop (Suc j) xs" using assms(2) by (rule id_take_nth_drop)
  then have "sum_list (map f xs)
      = sum_list (map f (take j xs)) + f (xs ! j) + sum_list (map f (drop (Suc j) xs))"
    by (metis (no_types, lifting) add.assoc list.simps(9) map_append sum_list.Cons sum_list_append)
  moreover have "f (take j xs ! i) \<le> sum_list (map f (take j xs))"
    using assms by (intro sum_list_map_member_le) auto
  moreover have "0 \<le> sum_list (map f (drop (Suc j) xs))" by (rule sum_list_map_nonneg) (rule nonneg)
  ultimately show ?thesis using assms(1) by simp
qed

lemma at_most_one:
  fixes f :: "'a \<Rightarrow> int"
  assumes "sum_list (map f xs) \<le> 1" and "i < length xs" and "j < length xs"
    and "f (xs ! i) = 1" and "f (xs ! j) = 1" and "\<And>x. 0 \<le> f x"
  shows "i = j"
proof (rule ccontr)
  assume "i \<noteq> j"
  then consider "i < j" | "j < i" by linarith
  then have "2 \<le> sum_list (map f xs)"
    using two_members_le_sum [of i j xs f] two_members_le_sum [of j i xs f] assms(2-6)
    by cases (metis one_add_one)+
  with assms(1) show False by simp
qed

section \<open>Exclusion\<close>

lemma drivers_at_door:
  assumes "reachable c s" and "ipc_alive (wrld s)" and "n \<in> {SEM_ENTRANCE_PASSENGER, SEM_ENTRANCE_BIKE}"
  shows "sum_list (map (\<lambda>d. door_token n (d_pc d)) (ds s)) \<le> 1"
proof -
  have "sum_list (map (\<lambda>p. 0) (ps s)) = (0::int)" by (induction "ps s") auto
  then show ?thesis
    using assms passenger_door.account.balance [of c s] passenger_door.account.low_always [of c s]
      bike_door.account.balance [of c s] bike_door.account.low_always [of c s]
    by (auto simp: tally_def passenger_door.in_force_def bike_door.in_force_def)
qed

lemma passengers_at_entry:
  assumes "reachable c s" and "ipc_alive (wrld s)" and "\<not> station_closed (shm (wrld s))"
  shows "sum_list (map (\<lambda>p. entry_token (p_pc p)) (ps s)) \<le> 1"
  using assms station_entry.account.balance [of c s] station_entry.account.low_always [of c s]
  by (auto simp: tally_def station_entry.in_force_def)

section \<open>Queues\<close>

lemma board_waiting_slot: "int (size (board_waiting p)) \<le> board_slot (p_pc p)"
  by (cases "p_pc p") (auto simp: board_waiting_def)

lemma boarding_traffic_bounded:
  assumes r: "reachable c s" and alive: "ipc_alive (wrld s)"
  shows "int (length (boarding_q (wrld s))) + int (length (boarding_resp_q (wrld s)))
      + sum_list (map (\<lambda>d. int (size (hand_infos (d_pc d)))) (ds s)) \<le> MAX_BOARDING_QUEUE_REQUESTS"
proof -
  have "int (size (in_flight s)) = int (size (boarding_waiters s))"
    using reachable_boarding [OF r] alive by (simp add: boarding_inv_def protocol_ok_def)
  then have "int (length (boarding_q (wrld s))) + int (length (boarding_resp_q (wrld s)))
      + sum_list (map (\<lambda>d. int (size (hand_infos (d_pc d)))) (ds s))
      = sum_list (map (\<lambda>p. int (size (board_waiting p))) (ps s))"
    by (simp add: in_flight_def boarding_waiters_def queue_infos_def size_sum_list)
  also have "\<dots> \<le> sum_list (map (\<lambda>p. board_slot (p_pc p)) (ps s))"
    by (rule sum_list_map_mono_int) (rule board_waiting_slot)
  also have "\<dots> \<le> 100"
    using r alive boarding_slots.account.balance [of c s] boarding_slots.account.low_always [of c s]
    by (auto simp: tally_def boarding_slots.in_force_def)
  finally show ?thesis by simp
qed

lemma ticket_requests_bounded:
  assumes "reachable c s" and "ipc_alive (wrld s)" and "\<not> station_closed (shm (wrld s))"
  shows "int (length (ticket_q (wrld s))) \<le> MAX_TICKET_QUEUE_REQUESTS"
proof -
  have force: "ticket_slots.in_force s" using assms by (simp add: ticket_slots.in_force_def)
  have "0 \<le> tally (\<lambda>p. ticket_slot (p_pc p)) (\<lambda>_. 0) (\<lambda>_. office_slot) s"
    by (rule tally_nonneg) simp_all
  with ticket_slots.account.balance [OF assms(1) force] ticket_slots.account.low_always [OF assms(1) force]
  show ?thesis by simp
qed

end
