(* ===== verification/Scenario.thy ===== *)
theory Scenario
  imports Conservation
begin

text \<open>
  An executable scheduler for the simulation and one run of it: a passenger buys a
  ticket, enters the station, boards the first bus, and the bus leaves. The states of
  the run are reachable, so they are where the properties are instantiated.
\<close>

section \<open>The scheduler\<close>

datatype action =
    Spawn int nat nat nat nat nat
  | Passenger_Moves env_in nat
  | Child_Moves nat
  | Driver_Moves env_in nat
  | Office_Moves env_in nat
  | Dispatcher_Moves env_in
  | Close_Signal
  | Stop_Spawning

fun exec :: "cfg \<Rightarrow> action \<Rightarrow> system \<Rightarrow> system option" where
  "exec c (Spawn q r1 r2 r3 r4 r5) s =
     (if 0 < q \<and> q \<notin> set (map (pid \<circ> p_info) (ps s))
      then Some (s\<lparr>ps := ps s @ [init_passenger_st (init_passenger q r1 r2 r3 r4 r5)]\<rparr>) else None)"
| "exec c (Passenger_Moves e i) s =
     (if i < length (ps s) \<and> \<not> p_killed (ps s ! i)
      then map_option (\<lambda>(p', w'). s\<lparr>ps := (ps s)[i := p'], wrld := w'\<rparr>)
             (passenger_step e (ps s ! i) (wrld s)) else None)"
| "exec c (Child_Moves i) s =
     (if i < length (ps s) \<and> \<not> p_killed (ps s ! i)
      then map_option (\<lambda>p'. s\<lparr>ps := (ps s)[i := p']\<rparr>) (child_step (ps s ! i)) else None)"
| "exec c (Driver_Moves e b) s =
     (if b < length (ds s) \<and> \<not> d_killed (ds s ! b)
      then map_option (\<lambda>(d', w'). s\<lparr>ds := (ds s)[b := d'], wrld := w'\<rparr>)
             (driver_step c e b (ds s ! b) (wrld s)) else None)"
| "exec c (Office_Moves e k) s =
     (if k < length (fs s) \<and> \<not> o_killed (fs s ! k)
      then map_option (\<lambda>(f', w'). s\<lparr>fs := (fs s)[k := f'], wrld := w'\<rparr>)
             (office_step e k (fs s ! k) (wrld s)) else None)"
| "exec c (Dispatcher_Moves e) s =
     (if \<not> x_killed (dx s)
      then map_option (\<lambda>(x', w', sig). s\<lparr>dx := x', wrld := w', ds := deliver_usr1 sig (ds s)\<rparr>)
             (dispatcher_step c e (\<lambda>_. False) (dx s) (wrld s)) else None)"
| "exec c Close_Signal s = Some (s\<lparr>dx := dispatcher_handle_sigusr2 (dx s)\<rparr>)"
| "exec c Stop_Spawning s = Some (s\<lparr>wrld := upd_shm (\<lambda>m. m\<lparr>spawning_stopped := True\<rparr>) (wrld s)\<rparr>)"

fun exec_all :: "cfg \<Rightarrow> action list \<Rightarrow> system \<Rightarrow> system option" where
  "exec_all c [] s = Some s"
| "exec_all c (a # as) s = (case exec c a s of None \<Rightarrow> None | Some t \<Rightarrow> exec_all c as t)"

lemma exec_sound: "exec c a s = Some t \<Longrightarrow> sys_step c s t"
  by (cases a) (auto split: if_splits intro: sys_step.intros)

lemma exec_all_append:
  "exec_all c (as @ bs) s = (case exec_all c as s of None \<Rightarrow> None | Some t \<Rightarrow> exec_all c bs t)"
  by (induction as arbitrary: s) (auto split: option.split)

lemma exec_all_star: "exec_all c as s = Some t \<Longrightarrow> (sys_step c)\<^sup>*\<^sup>* s t"
proof (induction as arbitrary: s)
  case Nil
  then show ?case by simp
next
  case (Cons a as)
  then obtain u where "exec c a s = Some u" "exec_all c as u = Some t" by (auto split: option.splits)
  with Cons.IH exec_sound show ?case by (metis converse_rtranclp_into_rtranclp)
qed

lemma exec_all_reachable:
  "exec_all c as s = Some t \<Longrightarrow> reachable c s \<Longrightarrow> reachable c t"
  unfolding reachable_def by (rule reach_star [OF exec_all_star])

section \<open>A run\<close>

definition demo_cfg :: cfg where
  "demo_cfg = \<lparr>perf_mode = False, full_depart = False\<rparr>"

definition at_time :: "int \<Rightarrow> env_in" where
  "at_time t = \<lparr>now = t, rnd = 0, call_ok = True\<rparr>"

definition demo_start :: system where
  "demo_start = sys_init 100 (\<lambda>b. 101 + int b) (\<lambda>k. 201 + int k)"

text \<open>The driver of bus 0 and office 0 start, a passenger with a bicycle arrives.\<close>

definition demo_script :: "action list" where
  "demo_script =
     [Driver_Moves (at_time 0) 0, Office_Moves (at_time 0) 0, Spawn 300 20 50 5 50 0]
     @ replicate 6 (Passenger_Moves (at_time 1) 0)
     @ replicate 8 (Office_Moves (at_time 1) 0)
     @ replicate 10 (Passenger_Moves (at_time 2) 0)
     @ replicate 8 (Driver_Moves (at_time 3) 0)
     @ replicate 4 (Passenger_Moves (at_time 4) 0)
     @ replicate 4 (Driver_Moves (at_time 9) 0)"

definition after :: "action list \<Rightarrow> system" where
  "after as = (case exec_all demo_cfg as demo_start of None \<Rightarrow> demo_start | Some s \<Rightarrow> s)"

definition demo :: "nat \<Rightarrow> system" where
  "demo n = after (take n demo_script)"

lemma demo_start_start: "sys_start demo_start"
proof -
  have "\<forall>b < MAX_BUSES. (0::int) < 101 + int b" by simp
  then show ?thesis
    unfolding sys_start_def demo_start_def by (intro exI conjI) (assumption, rule refl)
qed

lemma demo_start_reachable: "reachable c demo_start"
  unfolding reachable_def by (rule reach_start) (rule demo_start_start)

lemma after_reachable: "reachable demo_cfg (after as)"
  by (auto simp: after_def demo_start_reachable split: option.split intro: exec_all_reachable)

lemma demo_reachable: "reachable demo_cfg (demo n)"
  unfolding demo_def by (rule after_reachable)

lemma after_later:
  assumes "exec_all demo_cfg (as @ bs) demo_start \<noteq> None"
  shows "(sys_step demo_cfg)\<^sup>*\<^sup>* (after as) (after (as @ bs))"
proof -
  from assms obtain s t where "exec_all demo_cfg as demo_start = Some s" "exec_all demo_cfg bs s = Some t"
    by (auto simp: exec_all_append split: option.splits)
  then show ?thesis by (auto simp: after_def exec_all_append intro: exec_all_star)
qed

lemma demo_runs: "exec_all demo_cfg demo_script demo_start \<noteq> None"
  by code_simp

lemma demo_prefix_runs: "exec_all demo_cfg (take n demo_script) demo_start \<noteq> None"
proof
  assume "exec_all demo_cfg (take n demo_script) demo_start = None"
  then have "exec_all demo_cfg (take n demo_script @ drop n demo_script) demo_start = None"
    by (subst exec_all_append) simp
  with demo_runs show False by simp
qed

lemma demo_prefix: "exec_all demo_cfg (take n demo_script) demo_start = Some (demo n)"
  using demo_prefix_runs [of n] by (auto simp: demo_def after_def)

lemma demo_later: "(sys_step demo_cfg)\<^sup>*\<^sup>* (demo m) (demo (m + n))"
  using after_later [of "take m demo_script" "take n (drop m demo_script)"] demo_prefix_runs [of "m + n"]
  by (simp add: demo_def take_add)

text \<open>
  More scripts: the station closes while a passenger is inside, and while a passenger
  with a child is on the way from the office.
\<close>

definition closing :: "action list" where
  "closing = Close_Signal # replicate 3 (Dispatcher_Moves (at_time 5))"

definition closed_inside :: "action list" where
  "closed_inside = take 23 demo_script @ closing"

text \<open>Another passenger arrives at the closed station, the dispatcher goes on.\<close>

definition latecomer :: "action list" where
  "latecomer = [Spawn 401 20 99 50 50 50, Passenger_Moves (at_time 6) 1] @ replicate 2 (Dispatcher_Moves (at_time 6))"

definition closed_outside :: "action list" where
  "closed_outside = Spawn 400 20 0 50 0 0 # replicate 3 (Passenger_Moves (at_time 1) 0) @ closing
     @ replicate 3 (Passenger_Moves (at_time 2) 0)"

end
