(* ===== verification/Ipc_Setup.thy ===== *)
theory Ipc_Setup
  imports Ipc
begin

text \<open>
  Creation, attachment and removal of the IPC objects in src/ipc.c: the seven objects
  known to the kernel by their keys, the ids a process keeps in its globals, and the
  functions \<open>ipc_create_all\<close>, \<open>ipc_attach_all\<close>, \<open>ipc_cleanup_partial\<close>, \<open>ipc_detach_all\<close>,
  \<open>ipc_cleanup_all\<close>, \<open>ipc_resources_exist\<close> and \<open>ipc_check_queue_health\<close> as written, with
  every early return. Whether a system call succeeds (memory, limits, permissions) is an
  argument of the functions.
\<close>

section \<open>The kernel's table and the process's globals\<close>

text \<open>The objects in the order of the keys \<open>IPC_KEY_BASE + 1\<close> to \<open>+ 7\<close>.\<close>

datatype ipc_object = Shm | Sem | Ticket | Ticket_Resp | Boarding | Boarding_Resp | Dispatch

definition ipc_key :: "ipc_object \<Rightarrow> int" where
  "ipc_key ob = 0x4255 + (case ob of Shm \<Rightarrow> 1 | Sem \<Rightarrow> 2 | Ticket \<Rightarrow> 3 | Ticket_Resp \<Rightarrow> 4
     | Boarding \<Rightarrow> 5 | Boarding_Resp \<Rightarrow> 6 | Dispatch \<Rightarrow> 7)"

definition all_objects :: "ipc_object list" where
  "all_objects = [Shm, Sem, Ticket, Ticket_Resp, Boarding, Boarding_Resp, Dispatch]"

lemma all_objects_complete [simp]: "ob \<in> set all_objects"
  by (cases ob) (simp_all add: all_objects_def)

text \<open>
  \<open>by_key\<close> is the id of the object with the key, \<open>depth\<close> the number of messages in a
  queue, \<open>mem\<close> the contents of the segment; ids are never reused.
\<close>

record kernel =
  by_key :: "ipc_object \<Rightarrow> int option"
  next_id :: int
  mem :: shm_data_t
  sem_values :: "nat \<Rightarrow> int"
  depth :: "ipc_object \<Rightarrow> nat"

record ipc_globals =
  gid :: "ipc_object \<Rightarrow> int"
  g_shm :: bool

text \<open>The globals of a process that has just been executed.\<close>

definition fresh_globals :: ipc_globals where
  "fresh_globals = \<lparr>gid = (\<lambda>_. -1), g_shm = False\<rparr>"

text \<open>The segment after \<open>memset (g_shm, 0, sizeof (shm_data_t))\<close>.\<close>

definition zero_bus :: bus_state_t where
  "zero_bus = \<lparr>bus_ident = 0, at_station = False, boarding_open = False, passenger_count = 0,
     bike_count = 0, entering_count = 0, departure_time = 0, return_time = 0\<rparr>"

definition zero_shm :: shm_data_t where
  "zero_shm =
     \<lparr>simulation_running = False, station_open = False, boarding_allowed = False,
      early_departure_flag = False, spawning_stopped = False, station_closed = False,
      test_fill_queue = False,
      total_passengers_created = 0, passengers_transported = 0, passengers_waiting = 0,
      passengers_in_office = 0, passengers_left_early = 0,
      adults_created = 0, children_created = 0, vip_people_created = 0,
      tickets_sold_people = 0, tickets_denied = 0, boarded_people = 0, boarded_vip_people = 0,
      buses = (\<lambda>_. zero_bus), active_bus_id = 0, ticket_office_busy = (\<lambda>_. 0), tickets_issued = 0,
      dispatcher_pid = 0, driver_pids = (\<lambda>_. 0), ticket_office_pids = (\<lambda>_. 0)\<rparr>"

section \<open>System calls\<close>

datatype ipc_call = Get ipc_object | Attach | Set_Value nat

text \<open>\<open>shmget\<close>, \<open>semget\<close> and \<open>msgget\<close> with \<open>IPC_CREAT\<close>: an existing object is taken as it is.\<close>

definition get_create :: "(ipc_call \<Rightarrow> bool) \<Rightarrow> ipc_object \<Rightarrow> kernel \<Rightarrow> int \<times> kernel" where
  "get_create ok ob k =
     (if \<not> ok (Get ob) then (-1, k)
      else case by_key k ob of
        Some i \<Rightarrow> (i, k)
      | None \<Rightarrow> (next_id k, k\<lparr>by_key := (by_key k)(ob \<mapsto> next_id k), next_id := next_id k + 1,
                             depth := (depth k)(ob := 0)\<rparr>))"

text \<open>Without the flag an absent object is an error.\<close>

definition get_open :: "(ipc_call \<Rightarrow> bool) \<Rightarrow> ipc_object \<Rightarrow> kernel \<Rightarrow> int" where
  "get_open ok ob k = (if \<not> ok (Get ob) then -1 else case by_key k ob of Some i \<Rightarrow> i | None \<Rightarrow> -1)"

text \<open>\<open>IPC_RMID\<close>; an id that is no longer in use is an error without effect.\<close>

definition remove_id :: "ipc_object \<Rightarrow> int \<Rightarrow> kernel \<Rightarrow> kernel" where
  "remove_id ob i k = (if by_key k ob = Some i then k\<lparr>by_key := (by_key k)(ob := None)\<rparr> else k)"

section \<open>Removal\<close>

definition drop_object :: "ipc_object \<Rightarrow> ipc_globals \<times> kernel \<Rightarrow> ipc_globals \<times> kernel" where
  "drop_object ob gk = (case gk of (g, k) \<Rightarrow>
     if gid g ob \<noteq> -1 then (g\<lparr>gid := (gid g)(ob := -1)\<rparr>, remove_id ob (gid g ob) k) else (g, k))"

definition ipc_cleanup_partial :: "ipc_globals \<times> kernel \<Rightarrow> ipc_globals \<times> kernel" where
  "ipc_cleanup_partial gk = (case gk of (g, k) \<Rightarrow> fold drop_object all_objects (g\<lparr>g_shm := False\<rparr>, k))"

definition ipc_detach_all :: "ipc_globals \<Rightarrow> ipc_globals" where
  "ipc_detach_all g = g\<lparr>g_shm := False\<rparr>"

text \<open>
  The id is looked up by key only where the process has none, all of them before the
  first removal.
\<close>

definition cleanup_id :: "(ipc_call \<Rightarrow> bool) \<Rightarrow> ipc_globals \<Rightarrow> kernel \<Rightarrow> ipc_object \<Rightarrow> int" where
  "cleanup_id ok g k ob = (if gid g ob = -1 then get_open ok ob k else gid g ob)"

definition cleanup_object :: "(ipc_object \<Rightarrow> int) \<Rightarrow> ipc_object \<Rightarrow> ipc_globals \<times> kernel \<Rightarrow> ipc_globals \<times> kernel" where
  "cleanup_object ids ob gk = (case gk of (g, k) \<Rightarrow>
     if ids ob \<noteq> -1 then (g\<lparr>gid := (gid g)(ob := -1)\<rparr>, remove_id ob (ids ob) k) else (g, k))"

definition ipc_cleanup_all :: "(ipc_call \<Rightarrow> bool) \<Rightarrow> ipc_globals \<times> kernel \<Rightarrow> ipc_globals \<times> kernel" where
  "ipc_cleanup_all ok gk = (case gk of (g, k) \<Rightarrow> fold (cleanup_object (cleanup_id ok g k)) all_objects (g, k))"

definition ipc_resources_exist :: "(ipc_call \<Rightarrow> bool) \<Rightarrow> kernel \<Rightarrow> bool" where
  "ipc_resources_exist ok k \<longleftrightarrow> get_open ok Shm k \<noteq> -1"

section \<open>Creation\<close>

definition create_object :: "(ipc_call \<Rightarrow> bool) \<Rightarrow> ipc_object \<Rightarrow> ipc_globals \<times> kernel \<Rightarrow> ipc_globals \<times> kernel" where
  "create_object ok ob gk = (case gk of (g, k) \<Rightarrow>
     let (i, k') = get_create ok ob k in (g\<lparr>gid := (gid g)(ob := i)\<rparr>, k'))"

text \<open>The semaphores in the order of the \<open>semctl\<close> calls.\<close>

definition sem_setup :: "(nat \<times> int) list" where
  "sem_setup = [(SEM_SHM_MUTEX, 1), (SEM_LOG_MUTEX, 1), (SEM_STATION_ENTRY, 1), (SEM_ENTRANCE_PASSENGER, 1),
      (SEM_ENTRANCE_BIKE, 1), (SEM_BOARDING_MUTEX, 1), (SEM_BUS_READY, 0)]
     @ map (\<lambda>i. (SEM_TICKET_OFFICE i, 1)) [0..<TICKET_OFFICES]
     @ [(SEM_TICKET_QUEUE_SLOTS, MAX_TICKET_QUEUE_REQUESTS), (SEM_BOARDING_QUEUE_SLOTS, MAX_BOARDING_QUEUE_REQUESTS)]"

fun set_values :: "(ipc_call \<Rightarrow> bool) \<Rightarrow> (nat \<times> int) list \<Rightarrow> kernel \<Rightarrow> bool \<times> kernel" where
  "set_values ok [] k = (True, k)"
| "set_values ok ((n, v) # xs) k =
     (if \<not> ok (Set_Value n) then (False, k)
      else set_values ok xs (k\<lparr>sem_values := (sem_values k)(n := v)\<rparr>))"

fun create_queues :: "(ipc_call \<Rightarrow> bool) \<Rightarrow> ipc_object list \<Rightarrow> ipc_globals \<times> kernel \<Rightarrow> int \<times> ipc_globals \<times> kernel" where
  "create_queues ok [] gk = (0, gk)"
| "create_queues ok (ob # obs) gk =
     (let gk' = create_object ok ob gk in
      if gid (fst gk') ob = -1 then (-1, ipc_cleanup_partial gk') else create_queues ok obs gk')"

text \<open>The part of \<open>ipc_create_all\<close> after the segment has been cleared.\<close>

definition create_sems_and_queues :: "(ipc_call \<Rightarrow> bool) \<Rightarrow> ipc_globals \<times> kernel \<Rightarrow> int \<times> ipc_globals \<times> kernel" where
  "create_sems_and_queues ok gk =
     (let (g, k) = create_object ok Sem gk in
      if gid g Sem = -1 then (-1, ipc_cleanup_partial (g, k))
      else
        let (set_ok, k) = set_values ok sem_setup k in
        if \<not> set_ok then (-1, ipc_cleanup_partial (g, k))
        else create_queues ok [Ticket, Ticket_Resp, Boarding, Boarding_Resp, Dispatch] (g, k))"

definition ipc_create_all :: "(ipc_call \<Rightarrow> bool) \<Rightarrow> ipc_globals \<times> kernel \<Rightarrow> int \<times> ipc_globals \<times> kernel" where
  "ipc_create_all ok gk =
     (let (g, k) = create_object ok Shm gk in
      if gid g Shm = -1 then (-1, g, k)
      else if \<not> ok Attach then (-1, ipc_cleanup_partial (g\<lparr>g_shm := False\<rparr>, k))
      else create_sems_and_queues ok (g\<lparr>g_shm := True\<rparr>, k\<lparr>mem := zero_shm\<rparr>))"

section \<open>Attachment\<close>

fun open_all :: "(ipc_call \<Rightarrow> bool) \<Rightarrow> kernel \<Rightarrow> ipc_object list \<Rightarrow> ipc_globals \<Rightarrow> int \<times> ipc_globals" where
  "open_all ok k [] g = (0, g)"
| "open_all ok k (ob # obs) g =
     (let g' = g\<lparr>gid := (gid g)(ob := get_open ok ob k)\<rparr> in
      if gid g' ob = -1 then (-1, g') else open_all ok k obs g')"

definition ipc_attach_all :: "(ipc_call \<Rightarrow> bool) \<Rightarrow> kernel \<Rightarrow> ipc_globals \<Rightarrow> int \<times> ipc_globals" where
  "ipc_attach_all ok k g =
     (let g1 = g\<lparr>gid := (gid g)(Shm := get_open ok Shm k)\<rparr> in
      if gid g1 Shm = -1 then (-1, g1)
      else if \<not> ok Attach then (-1, g1\<lparr>g_shm := False\<rparr>)
      else open_all ok k [Sem, Ticket, Ticket_Resp, Boarding, Boarding_Resp, Dispatch] (g1\<lparr>g_shm := True\<rparr>))"

section \<open>The depth of the request queues\<close>

text \<open>The warnings of \<open>ipc_check_queue_health\<close>: the queue and its depth.\<close>

definition queue_warning :: "(ipc_object \<Rightarrow> bool) \<Rightarrow> ipc_globals \<Rightarrow> kernel \<Rightarrow> ipc_object \<Rightarrow> int \<Rightarrow> (ipc_object \<times> nat) list" where
  "queue_warning stat_ok g k ob limit =
     (if gid g ob \<noteq> -1 \<and> stat_ok ob \<and> int (depth k ob) > limit then [(ob, depth k ob)] else [])"

definition ipc_check_queue_health :: "(ipc_object \<Rightarrow> bool) \<Rightarrow> ipc_globals \<Rightarrow> kernel \<Rightarrow> (ipc_object \<times> nat) list" where
  "ipc_check_queue_health stat_ok g k =
     queue_warning stat_ok g k Ticket MAX_TICKET_QUEUE_REQUESTS
     @ queue_warning stat_ok g k Boarding MAX_BOARDING_QUEUE_REQUESTS"

section \<open>What removal does\<close>

lemma fold_drop:
  "fold drop_object obs (g, k) =
     (g\<lparr>gid := (\<lambda>ob. if ob \<in> set obs then -1 else gid g ob)\<rparr>,
      k\<lparr>by_key := (\<lambda>ob. if ob \<in> set obs \<and> gid g ob \<noteq> -1 \<and> by_key k ob = Some (gid g ob) then None
                       else by_key k ob)\<rparr>)"
proof (induction obs arbitrary: g k)
  case (Cons ob obs)
  then show ?case by (auto simp: drop_object_def remove_id_def fun_eq_iff intro!: arg_cong2 [where f = Pair])
qed simp

lemma fold_cleanup:
  "fold (cleanup_object ids) obs (g, k) =
     (g\<lparr>gid := (\<lambda>ob. if ob \<in> set obs \<and> ids ob \<noteq> -1 then -1 else gid g ob)\<rparr>,
      k\<lparr>by_key := (\<lambda>ob. if ob \<in> set obs \<and> ids ob \<noteq> -1 \<and> by_key k ob = Some (ids ob) then None
                       else by_key k ob)\<rparr>)"
proof (induction obs arbitrary: g k)
  case (Cons ob obs)
  then show ?case by (auto simp: cleanup_object_def remove_id_def fun_eq_iff)
qed simp

text \<open>The ids in the kernel's table are proper ids.\<close>

definition kernel_ok :: "kernel \<Rightarrow> bool" where
  "kernel_ok k \<longleftrightarrow> 0 \<le> next_id k \<and> (\<forall>ob i. by_key k ob = Some i \<longrightarrow> 0 \<le> i \<and> i < next_id k)"

lemma kernel_okD: "kernel_ok k \<Longrightarrow> by_key k ob = Some i \<Longrightarrow> 0 \<le> i \<and> i < next_id k"
  by (simp add: kernel_ok_def)

text \<open>
  After \<open>ipc_cleanup_all\<close> the process has no id left, and an object is gone exactly
  if the process held its current id, or held none and could look it up. An object
  created anew under the same key after the process got its id survives: the stale id is
  used, not the key.
\<close>

theorem cleanup_effect:
  assumes "kernel_ok k" and "by_key k ob = Some i"
  shows "(by_key (snd (ipc_cleanup_all ok (g, k))) ob = None
      \<longleftrightarrow> gid g ob = i \<or> gid g ob = -1 \<and> ok (Get ob))
    \<and> gid (fst (ipc_cleanup_all ok (g, k))) = (\<lambda>_. -1)"
proof (rule conjI)
  have "i \<noteq> -1" using kernel_okD [OF assms] by simp
  with assms show "by_key (snd (ipc_cleanup_all ok (g, k))) ob = None
      \<longleftrightarrow> gid g ob = i \<or> gid g ob = -1 \<and> ok (Get ob)"
    by (auto simp: ipc_cleanup_all_def fold_cleanup cleanup_id_def get_open_def)
  show "gid (fst (ipc_cleanup_all ok (g, k))) = (\<lambda>_. -1)"
    by (auto simp: ipc_cleanup_all_def fold_cleanup cleanup_id_def get_open_def)
qed

section \<open>Creation is all or nothing\<close>

text \<open>\<open>made D k0 gk\<close>: starting from the table of \<open>k0\<close> the process has got the objects \<open>D\<close>.\<close>

definition made :: "ipc_object set \<Rightarrow> kernel \<Rightarrow> ipc_globals \<times> kernel \<Rightarrow> bool" where
  "made D k0 gk \<longleftrightarrow> (case gk of (g, k) \<Rightarrow> kernel_ok k
     \<and> (\<forall>ob \<in> D. by_key k ob = Some (gid g ob) \<and> depth k ob = (if by_key k0 ob = None then 0 else depth k0 ob))
     \<and> (\<forall>ob. ob \<notin> D \<longrightarrow> gid g ob = -1 \<and> by_key k ob = by_key k0 ob \<and> depth k ob = depth k0 ob))"

lemma made_start: "kernel_ok k \<Longrightarrow> made {} k (fresh_globals, k)"
  by (simp add: made_def fresh_globals_def)

lemma made_create:
  assumes "made D k0 (g, k)" and "ob \<notin> D" and "create_object ok ob (g, k) = (g', k')"
  shows "if gid g' ob = -1 then \<not> ok (Get ob) \<and> made D k0 (g', k')
    else ok (Get ob) \<and> made (insert ob D) k0 (g', k')"
    and "g_shm g' = g_shm g \<and> mem k' = mem k \<and> sem_values k' = sem_values k"
proof -
  have ids: "0 \<le> next_id k" "by_key k ob = Some i \<Longrightarrow> 0 \<le> i" for i
    using assms(1) by (auto simp: made_def kernel_ok_def)
  show "if gid g' ob = -1 then \<not> ok (Get ob) \<and> made D k0 (g', k')
    else ok (Get ob) \<and> made (insert ob D) k0 (g', k')"
    using assms ids
    by (cases "by_key k ob")
      (fastforce simp: create_object_def get_create_def made_def kernel_ok_def split: if_splits)+
  show "g_shm g' = g_shm g \<and> mem k' = mem k \<and> sem_values k' = sem_values k"
    using assms(3) by (auto simp: create_object_def get_create_def split: if_splits option.splits)
qed

text \<open>The two outcomes of a creation that started from the table of \<open>k0\<close>.\<close>

definition rolled_back :: "kernel \<Rightarrow> int \<times> ipc_globals \<times> kernel \<Rightarrow> bool" where
  "rolled_back k0 res \<longleftrightarrow> (case res of (r, g, k) \<Rightarrow> r = -1 \<and> g = fresh_globals
     \<and> (\<forall>ob. by_key k ob = None \<or> by_key k ob = by_key k0 ob))"

definition set_up :: "kernel \<Rightarrow> int \<times> ipc_globals \<times> kernel \<Rightarrow> bool" where
  "set_up k0 res \<longleftrightarrow> (case res of (r, g, k) \<Rightarrow> r = 0 \<and> g_shm g \<and> kernel_ok k
     \<and> (\<forall>ob. by_key k ob = Some (gid g ob)
          \<and> depth k ob = (if by_key k0 ob = None then 0 else depth k0 ob))
     \<and> mem k = zero_shm \<and> (\<forall>n < SEM_COUNT. sem_values k n = initial_sems n))"

lemma made_cleanup:
  assumes "made D k0 (g, k)"
  shows "rolled_back k0 (-1, ipc_cleanup_partial (g, k))"
proof -
  have ids: "by_key k ob = Some i \<Longrightarrow> i \<noteq> -1" for ob i
    using assms kernel_okD [of k ob i] by (auto simp: made_def)
  have "(if gid g ob \<noteq> -1 \<and> by_key k ob = Some (gid g ob) then None else by_key k ob) \<in> {None, by_key k0 ob}" for ob
    using assms ids by (cases "ob \<in> D") (auto simp: made_def)
  then show ?thesis
    by (cases g) (auto simp: rolled_back_def ipc_cleanup_partial_def fold_drop fresh_globals_def)
qed

lemma made_other:
  "made D k0 (g, k) \<Longrightarrow> made D k0 (g\<lparr>g_shm := a\<rparr>, k)"
  "made D k0 (g, k) \<Longrightarrow> made D k0 (g, k\<lparr>mem := m\<rparr>)"
  "made D k0 (g, k) \<Longrightarrow> made D k0 (g, k\<lparr>sem_values := v\<rparr>)"
  by (auto simp: made_def kernel_ok_def)

lemma set_values_effect:
  "\<exists>v. set_values ok xs k = (\<forall>(n, w) \<in> set xs. ok (Set_Value n), k\<lparr>sem_values := v\<rparr>)
     \<and> ((\<forall>(n, w) \<in> set xs. ok (Set_Value n)) \<longrightarrow> v = fold (\<lambda>(n, w) f. f(n := w)) xs (sem_values k))"
proof (induction xs arbitrary: k)
  case Nil
  show ?case by (intro exI [of _ "sem_values k"]) simp
next
  case (Cons x xs)
  obtain n w where x: "x = (n, w)" by fastforce
  show ?case
  proof (cases "ok (Set_Value n)")
    case True
    with Cons.IH [of "k\<lparr>sem_values := (sem_values k)(n := w)\<rparr>"] x show ?thesis by simp
  next
    case False
    with x show ?thesis by (intro exI [of _ "sem_values k"]) simp
  qed
qed

lemma sem_setup_values: "n < SEM_COUNT \<Longrightarrow> fold (\<lambda>(n, v) f. f(n := v)) sem_setup f n = initial_sems n"
  by (auto simp: sem_setup_def initial_sems_def upt_rec)

lemma create_queues_effect:
  assumes "made D k0 (g, k)" and "set obs \<inter> D = {}" and "distinct obs" and "D \<union> set obs = UNIV"
    and "g_shm g" and "mem k = zero_shm" and "\<forall>n < SEM_COUNT. sem_values k n = initial_sems n"
  shows "set_up k0 (create_queues ok obs (g, k)) \<or> rolled_back k0 (create_queues ok obs (g, k))"
  using assms
proof (induction obs arbitrary: D g k)
  case Nil
  then show ?case by (auto simp: set_up_def made_def)
next
  case (Cons ob obs)
  obtain g1 k1 where c: "create_object ok ob (g, k) = (g1, k1)" by fastforce
  note eff = made_create [OF Cons.prems(1) _ c]
  show ?case
  proof (cases "gid g1 ob = -1")
    case True
    then have "made D k0 (g1, k1)" using eff(1) Cons.prems(2) by auto
    with True c made_cleanup show ?thesis by (simp add: Let_def)
  next
    case False
    then have "made (insert ob D) k0 (g1, k1)" using eff(1) Cons.prems(2) by auto
    from Cons.IH [OF this] False c Cons.prems eff(2) show ?thesis by (auto simp: Let_def)
  qed
qed

lemma create_sems_and_queues_effect:
  assumes "made {Shm} k0 (g, k)" and "g_shm g" and "mem k = zero_shm"
  shows "set_up k0 (create_sems_and_queues ok (g, k)) \<or> rolled_back k0 (create_sems_and_queues ok (g, k))"
proof -
  obtain g1 k1 where c: "create_object ok Sem (g, k) = (g1, k1)" by fastforce
  note eff = made_create [OF assms(1) _ c, simplified]
  obtain v where v: "set_values ok sem_setup k1 = (\<forall>(n, w) \<in> set sem_setup. ok (Set_Value n), k1\<lparr>sem_values := v\<rparr>)"
    "(\<forall>(n, w) \<in> set sem_setup. ok (Set_Value n)) \<Longrightarrow> v = fold (\<lambda>(n, w) f. f(n := w)) sem_setup (sem_values k1)"
    using set_values_effect by blast
  note run = create_sems_and_queues_def c v(1) Let_def case_prod_conv
  show ?thesis
  proof (cases "gid g1 Sem = -1")
    case True
    with eff(1) made_cleanup [of "{Shm}" k0 g1 k1] show ?thesis by (simp add: run)
  next
    case False
    then have m: "made {Sem, Shm} k0 (g1, k1\<lparr>sem_values := v\<rparr>)" using eff(1) by (intro made_other) simp
    show ?thesis
    proof (cases "\<forall>(n, w) \<in> set sem_setup. ok (Set_Value n)")
      case True
      have "{Sem, Shm} \<union> set [Ticket, Ticket_Resp, Boarding, Boarding_Resp, Dispatch] = UNIV"
        using all_objects_complete by (auto simp: all_objects_def)
      with create_queues_effect [OF m, of "[Ticket, Ticket_Resp, Boarding, Boarding_Resp, Dispatch]" ok]
        True False v(2) eff(2) assms(2,3) sem_setup_values
      show ?thesis by (simp add: run)
    next
      case all: False
      with False made_cleanup [OF m] show ?thesis by (simp add: run)
    qed
  qed
qed

lemma create_all_outcome:
  assumes "kernel_ok k" and "ipc_create_all ok (fresh_globals, k) = (r, g', k')"
  shows "set_up k (r, g', k') \<or> rolled_back k (r, g', k')"
proof -
  obtain g1 k1 where c: "create_object ok Shm (fresh_globals, k) = (g1, k1)" by fastforce
  note eff = made_create [OF made_start [OF assms(1)] _ c, simplified]
  show ?thesis
  proof (cases "gid g1 Shm = -1")
    case True
    with eff(1) have m: "made {} k (g1, k1)" by simp
    moreover have "g1 = fresh_globals"
      using m eff(2) by (cases g1) (auto simp: made_def fresh_globals_def)
    ultimately show ?thesis using True assms(2) c by (auto simp: ipc_create_all_def rolled_back_def made_def)
  next
    case False
    with eff(1) have m: "made {Shm} k (g1, k1)" by simp
    show ?thesis
    proof (cases "ok Attach")
      case True
      with create_sems_and_queues_effect [of k "g1\<lparr>g_shm := True\<rparr>" "k1\<lparr>mem := zero_shm\<rparr>" ok]
        made_other(2) [OF made_other(1) [OF m]] False assms(2) c
      show ?thesis by (simp add: ipc_create_all_def)
    next
      case no: False
      with made_cleanup [OF made_other(1) [OF m, of False]] False assms(2) c show ?thesis
        by (simp add: ipc_create_all_def)
    qed
  qed
qed

text \<open>
  C36: \<open>ipc_create_all\<close> in a fresh process is all or nothing. It returns 0 and then the
  process is attached to a zeroed segment, holds the current id of every object, and the
  eleven semaphores have their initial values; or it returns -1 and leaves the process
  without any id and the kernel without any new object. A queue left over from an earlier
  run is taken over with the messages it has.
\<close>

theorem create_all_or_nothing:
  assumes "kernel_ok k" and "ipc_create_all ok (fresh_globals, k) = (r, g', k')"
  shows "r = 0 \<and> g_shm g' \<and> kernel_ok k' \<and> (\<forall>ob. by_key k' ob = Some (gid g' ob)
          \<and> depth k' ob = (if by_key k ob = None then 0 else depth k ob))
      \<and> mem k' = zero_shm \<and> (\<forall>n < SEM_COUNT. sem_values k' n = initial_sems n)
    \<or> r = -1 \<and> g' = fresh_globals \<and> (\<forall>ob. by_key k' ob = None \<or> by_key k' ob = by_key k ob)"
  using create_all_outcome [OF assms] by (simp add: set_up_def rolled_back_def)

text \<open>A machine on which the program has not run yet.\<close>

definition clean_kernel :: kernel where
  "clean_kernel = \<lparr>by_key = (\<lambda>_. None), next_id = 0, mem = zero_shm, sem_values = (\<lambda>_. 0), depth = (\<lambda>_. 0)\<rparr>"

lemma clean_kernel_ok: "kernel_ok clean_kernel"
  by (simp add: kernel_ok_def clean_kernel_def)

lemma clean_create: "fst (ipc_create_all (\<lambda>_. True) (fresh_globals, clean_kernel)) = 0"
  by code_simp

theorem create_all_or_nothing_witness:
  "\<exists>g' k'. ipc_create_all (\<lambda>_. True) (fresh_globals, clean_kernel) = (0, g', k') \<and> sem_values k' 9 = 200"
proof -
  obtain r g' k' where c: "ipc_create_all (\<lambda>_. True) (fresh_globals, clean_kernel) = (r, g', k')"
    by (metis prod_cases3)
  with clean_create have "r = 0" by simp
  with create_all_or_nothing [OF clean_kernel_ok c] c show ?thesis by (auto simp: initial_sems_def)
qed

theorem cleanup_effect_witness:
  "\<exists>g k. by_key k Sem = Some 1 \<and> by_key (snd (ipc_cleanup_all (\<lambda>_. True) (g, k))) Sem = None"
proof -
  let ?k = "clean_kernel\<lparr>by_key := [Sem \<mapsto> 1], next_id := 2\<rparr>"
  have "kernel_ok ?k" "by_key ?k Sem = Some 1" by (auto simp: kernel_ok_def clean_kernel_def split: if_splits)
  with cleanup_effect [of ?k Sem 1 "\<lambda>_. True" fresh_globals] show ?thesis
    by (intro exI [of _ fresh_globals] exI [of _ ?k]) (simp add: fresh_globals_def)
qed

section \<open>Create, attach, clean up\<close>

text \<open>
  Any other process attaches to what the dispatcher has created and gets the same
  ids; whichever of them cleans up, attached or not, nothing remains for a later run and
  \<open>ipc_resources_exist\<close> is false.
\<close>

theorem create_attach_cleanup:
  assumes "kernel_ok k" and "ipc_create_all ok (fresh_globals, k) = (0, g, k')"
    and "\<forall>call. may call" and "g0 = g \<or> g0 = fresh_globals \<or> g0 = ipc_detach_all g"
  shows "ipc_attach_all may k' fresh_globals = (0, g)
    \<and> by_key (snd (ipc_cleanup_all may (g0, k'))) = (\<lambda>_. None)
    \<and> \<not> ipc_resources_exist may (snd (ipc_cleanup_all may (g0, k')))"
proof -
  have up: "g_shm g" "kernel_ok k'" "by_key k' ob = Some (gid g ob)" for ob
    using create_all_outcome [OF assms(1,2)] by (auto simp: set_up_def rolled_back_def)
  have ids: "gid g ob \<noteq> -1" for ob using kernel_okD [OF up(2,3), of ob] by auto
  have opened: "get_open may ob k' = gid g ob" for ob using up(3) assms(3) by (simp add: get_open_def)
  have "ipc_attach_all may k' fresh_globals = (0, \<lparr>gid = (\<lambda>_. -1)(Shm := gid g Shm, Sem := gid g Sem,
      Ticket := gid g Ticket, Ticket_Resp := gid g Ticket_Resp, Boarding := gid g Boarding,
      Boarding_Resp := gid g Boarding_Resp, Dispatch := gid g Dispatch), g_shm = True\<rparr>)"
    using ids opened assms(3) by (simp add: ipc_attach_all_def fresh_globals_def Let_def)
  also have "\<dots> = (0, g)"
  proof -
    have "((\<lambda>_. -1)(Shm := gid g Shm, Sem := gid g Sem, Ticket := gid g Ticket, Ticket_Resp := gid g Ticket_Resp,
        Boarding := gid g Boarding, Boarding_Resp := gid g Boarding_Resp, Dispatch := gid g Dispatch)) ob = gid g ob" for ob
      by (cases ob) simp_all
    then show ?thesis using up(1) by (cases g) (auto simp: fun_eq_iff)
  qed
  finally have attach: "ipc_attach_all may k' fresh_globals = (0, g)" .
  have gone: "by_key (snd (ipc_cleanup_all may (g0, k'))) ob = None" for ob
    using assms(3,4) up(3) opened ids
    by (auto simp: ipc_cleanup_all_def fold_cleanup cleanup_id_def fresh_globals_def ipc_detach_all_def)
  with attach show ?thesis by (simp add: ipc_resources_exist_def get_open_def fun_eq_iff)
qed

theorem create_attach_cleanup_witness:
  "\<exists>g k'. ipc_create_all (\<lambda>_. True) (fresh_globals, clean_kernel) = (0, g, k')
     \<and> ipc_attach_all (\<lambda>_. True) k' fresh_globals = (0, g)
     \<and> by_key (snd (ipc_cleanup_all (\<lambda>_. True) (fresh_globals, k'))) = (\<lambda>_. None)"
proof -
  obtain r g k' where c: "ipc_create_all (\<lambda>_. True) (fresh_globals, clean_kernel) = (r, g, k')"
    by (metis prod_cases3)
  with clean_create have "r = 0" by simp
  with create_attach_cleanup [OF clean_kernel_ok, of "\<lambda>_. True" g k' "\<lambda>_. True" fresh_globals] c show ?thesis by auto
qed

end
