(* ===== verification/Main_Process.thy ===== *)
theory Main_Process
  imports Ipc_Setup Dispatcher
begin

text \<open>
  The main process of src/main.c: its table of children, the options of the command
  line, the start of the simulation, the loop that creates passengers, the monitor that
  ends a drained simulation, the termination of the children, and the checks and the
  preparation of the test scripts. Answers of \<open>fork\<close>, \<open>waitpid\<close>, \<open>malloc\<close> and the clock are
  arguments; what is printed is left out.
\<close>

section \<open>The table of children\<close>

definition INITIAL_PASSENGER_CAPACITY :: nat where "INITIAL_PASSENGER_CAPACITY = 1024"

text \<open>
  \<open>g_passenger_pids\<close> is \<open>None\<close> before the array is allocated; its list is the used part
  of the array, of length \<open>g_passenger_count\<close>.
\<close>

record main_st =
  g_running :: bool
  g_dispatcher_pid :: int
  g_ticket_office_pids :: "nat \<Rightarrow> int"
  g_driver_pids :: "nat \<Rightarrow> int"
  g_passenger_pids :: "int list option"
  g_passenger_capacity :: nat
  g_passengers_spawned :: int
  g_test_mode :: int
  g_max_passengers :: int

definition init_main :: main_st where
  "init_main = \<lparr>g_running = True, g_dispatcher_pid = 0, g_ticket_office_pids = (\<lambda>_. 0),
     g_driver_pids = (\<lambda>_. 0), g_passenger_pids = None, g_passenger_capacity = 0,
     g_passengers_spawned = 0, g_test_mode = 0, g_max_passengers = 0\<rparr>"

definition passengers :: "main_st \<Rightarrow> int list" where
  "passengers m = (case g_passenger_pids m of None \<Rightarrow> [] | Some xs \<Rightarrow> xs)"

text \<open>\<open>malloc_ok\<close> and \<open>realloc_ok\<close>: whether the allocation succeeds, if there is one.\<close>

definition track_passenger_pid :: "bool \<Rightarrow> bool \<Rightarrow> int \<Rightarrow> main_st \<Rightarrow> int \<times> main_st" where
  "track_passenger_pid malloc_ok realloc_ok p m =
     (if g_passenger_pids m = None \<and> \<not> malloc_ok
      then (-1, m\<lparr>g_passenger_capacity := INITIAL_PASSENGER_CAPACITY\<rparr>)
      else
        let m1 = (if g_passenger_pids m = None
                  then m\<lparr>g_passenger_capacity := INITIAL_PASSENGER_CAPACITY, g_passenger_pids := Some []\<rparr> else m);
            xs = passengers m1
        in if length xs \<ge> g_passenger_capacity m1 \<and> \<not> realloc_ok then (-1, m1)
           else
             let m2 = (if length xs \<ge> g_passenger_capacity m1
                       then m1\<lparr>g_passenger_capacity := g_passenger_capacity m1 * 2\<rparr> else m1)
             in (0, m2\<lparr>g_passenger_pids := Some (xs @ [p])\<rparr>))"

text \<open>The first occurrence is overwritten by the last element.\<close>

fun first_index :: "'a \<Rightarrow> 'a list \<Rightarrow> nat option" where
  "first_index x [] = None"
| "first_index x (y # ys) = (if x = y then Some 0 else map_option Suc (first_index x ys))"

definition forget_pid :: "int \<Rightarrow> int list \<Rightarrow> int list" where
  "forget_pid p xs = (case first_index p xs of None \<Rightarrow> xs | Some i \<Rightarrow> butlast (xs[i := last xs]))"

definition handle_child_exit :: "int \<Rightarrow> main_st \<Rightarrow> main_st" where
  "handle_child_exit p m =
     (if p = g_dispatcher_pid m then m\<lparr>g_dispatcher_pid := 0\<rparr>
      else case find (\<lambda>i. p = g_ticket_office_pids m i) [0..<TICKET_OFFICES] of
        Some i \<Rightarrow> m\<lparr>g_ticket_office_pids := (g_ticket_office_pids m)(i := 0)\<rparr>
      | None \<Rightarrow>
          (case find (\<lambda>i. p = g_driver_pids m i) [0..<MAX_BUSES] of
             Some i \<Rightarrow> m\<lparr>g_driver_pids := (g_driver_pids m)(i := 0)\<rparr>
           | None \<Rightarrow> m\<lparr>g_passenger_pids := map_option (forget_pid p) (g_passenger_pids m)\<rparr>))"

text \<open>The answers of \<open>waitpid\<close>: a child, none has changed (only with \<open>WNOHANG\<close>), or an error.\<close>

datatype wait_answer = Exited int | Still_Running | No_Child | Wait_Interrupted

fun reap_children :: "wait_answer list \<Rightarrow> main_st \<Rightarrow> nat \<times> main_st \<times> wait_answer list" where
  "reap_children [] m = (0, m, [])"
| "reap_children (Exited p # as) m =
     (let (n, m', rest) = reap_children as (handle_child_exit p m) in (n + 1, m', rest))"
| "reap_children (a # as) m = (0, m, as)"

section \<open>The command line\<close>

record options =
  BUS_LOG_MODE :: "string option"
  BUS_PERF_MODE :: "string option"
  BUS_FULL_DEPART :: "string option"
  opt_test_mode :: int
  opt_max_passengers :: int

text \<open>The options \<open>--test1\<close> to \<open>--test11\<close>.\<close>

definition test_options :: "(string \<times> int) list" where
  "test_options = [(''--test1'', 1), (''--test2'', 2), (''--test3'', 3), (''--test4'', 4), (''--test5'', 5),
     (''--test6'', 6), (''--test7'', 7), (''--test8'', 8), (''--test9'', 9), (''--test10'', 10), (''--test11'', 11)]"

text \<open>\<open>None\<close> when the help text is printed and the program exits.\<close>

function apply_cli_options :: "string list \<Rightarrow> options \<Rightarrow> options option" where
  "apply_cli_options [] cl = Some cl"
| "apply_cli_options (arg # rest) cl =
     (if arg = ''--quiet'' \<or> arg = ''-q'' then apply_cli_options rest (cl\<lparr>BUS_LOG_MODE := Some ''minimal''\<rparr>)
      else if arg = ''--summary'' then apply_cli_options rest (cl\<lparr>BUS_LOG_MODE := Some ''summary''\<rparr>)
      else if strncmp_eq 6 arg ''--log='' then apply_cli_options rest (cl\<lparr>BUS_LOG_MODE := Some (drop 6 arg)\<rparr>)
      else if arg = ''--log'' then
        (case rest of [] \<Rightarrow> apply_cli_options rest cl
         | v # rest' \<Rightarrow> apply_cli_options rest' (cl\<lparr>BUS_LOG_MODE := Some v\<rparr>))
      else if arg = ''--perf'' \<or> arg = ''--performance'' then apply_cli_options rest (cl\<lparr>BUS_PERF_MODE := Some ''1''\<rparr>)
      else if arg = ''--full'' then apply_cli_options rest (cl\<lparr>BUS_FULL_DEPART := Some ''1''\<rparr>)
      else if arg = ''--max_p'' then apply_cli_options rest (cl\<lparr>opt_max_passengers := MAX_PASSENGERS\<rparr>)
      else case map_of test_options arg of
        Some n \<Rightarrow> apply_cli_options rest (cl\<lparr>opt_test_mode := n\<rparr>)
      | None \<Rightarrow> if arg = ''--help'' \<or> arg = ''-h'' then None else apply_cli_options rest cl)"
  by pat_completeness auto
termination by (relation "measure (\<lambda>(args, cl). length args)") auto

section \<open>Start-up\<close>

text \<open>
  \<open>wait_for_ipc\<close>: the kernel and the success of its calls at each attempt, one second
  apart. The result is 0 or -1, the globals of the process, and the seconds waited.
\<close>

fun wait_for_ipc :: "nat \<Rightarrow> nat \<Rightarrow> (nat \<Rightarrow> (ipc_call \<Rightarrow> bool) \<times> kernel) \<Rightarrow> ipc_globals \<Rightarrow> int \<times> ipc_globals \<times> nat" where
  "wait_for_ipc elapsed 0 at g = (-1, g, elapsed)"
| "wait_for_ipc elapsed (Suc left) at g =
     (let (ok, k) = at elapsed in
      if ipc_resources_exist ok k then
        (let (r, g') = ipc_attach_all ok k g in
         if r = 0 then (0, g', elapsed) else wait_for_ipc (Suc elapsed) left at g')
      else wait_for_ipc (Suc elapsed) left at g)"

text \<open>In the tests 6 to 8 the queues are blocked before the first passenger is created.\<close>

definition block_queues :: "int \<Rightarrow> world \<Rightarrow> world" where
  "block_queues test w =
     (if test = 6 then w_setval SEM_TICKET_QUEUE_SLOTS 0 w
      else if test = 7 then w_setval SEM_BOARDING_QUEUE_SLOTS 0 w
      else if test = 8 then w_setval SEM_BOARDING_QUEUE_SLOTS 0 (w_setval SEM_TICKET_QUEUE_SLOTS 0 w)
      else w)"

section \<open>Creating passengers\<close>

definition stop_spawning :: "shm_data_t \<Rightarrow> shm_data_t" where
  "stop_spawning s = s\<lparr>spawning_stopped := True\<rparr>"

text \<open>
  One round of the loop in normal mode, \<open>forked\<close> the result of \<open>fork\<close>: whether the loop
  goes on, the state, the shared state (the process is attached), and the passenger.
\<close>

definition spawn_round ::
  "bool \<Rightarrow> bool \<Rightarrow> int \<Rightarrow> wait_answer list \<Rightarrow> main_st \<Rightarrow> shm_data_t \<Rightarrow> bool \<times> main_st \<times> shm_data_t \<times> int option" where
  "spawn_round malloc_ok realloc_ok forked answers m s =
     (if \<not> g_running m then (False, m, s, None)
      else if g_max_passengers m > 0 \<and> g_passengers_spawned m \<ge> g_max_passengers m
      then (False, m, stop_spawning s, None)
      else if spawning_stopped s then (False, m, s, None)
      else if forked = -1 then (False, m, stop_spawning s, None)
      else
        let m1 = m\<lparr>g_passengers_spawned := g_passengers_spawned m + 1\<rparr>;
            (r, m2) = track_passenger_pid malloc_ok realloc_ok forked m1;
            (n, m3, rest) = reap_children answers m2
        in (True, m3, s, Some forked))"

text \<open>The limit of the loop in test mode.\<close>

definition test_limit :: "main_st \<Rightarrow> int" where
  "test_limit m = (if g_max_passengers m > 0 then g_max_passengers m else 50)"

section \<open>Monitoring\<close>

definition check_simulation_progress :: "bool \<Rightarrow> main_st \<Rightarrow> shm_data_t \<Rightarrow> bool" where
  "check_simulation_progress attached m s =
     (if \<not> attached then False else if g_dispatcher_pid m = 0 then False else simulation_running s)"

text \<open>The sum in the drain monitor and in the tests 5 to 8.\<close>

definition accounted :: "shm_data_t \<Rightarrow> int" where
  "accounted s = passengers_transported s + passengers_waiting s + passengers_in_office s
     + on_bus s + passengers_left_early s"

definition drain_complete :: "shm_data_t \<Rightarrow> bool" where
  "drain_complete s \<longleftrightarrow> spawning_stopped s \<and> total_passengers_created s > 0
     \<and> passengers_waiting s = 0 \<and> passengers_in_office s = 0 \<and> accounted s = total_passengers_created s"

text \<open>One round of the monitor: whether it goes on, and the signal to the dispatcher.\<close>

datatype signal = SIGTERM | SIGKILL | SIGUSR1 | SIGUSR2 | SIGSTOP | SIGCONT

definition monitor_round :: "bool \<Rightarrow> main_st \<Rightarrow> shm_data_t \<Rightarrow> bool \<times> (int \<times> signal) list" where
  "monitor_round attached m s =
     (if \<not> g_running m \<or> \<not> check_simulation_progress attached m s then (False, [])
      else (True, if g_dispatcher_pid m > 0 \<and> attached \<and> drain_complete s
                  then [(g_dispatcher_pid m, SIGTERM)] else []))"

text \<open>The check of test 5 and the final check of test 8; the drain test of the tests 6 to 8.\<close>

definition stats_pass :: "shm_data_t \<Rightarrow> bool" where
  "stats_pass s \<longleftrightarrow> total_passengers_created s = accounted s"

definition test_drained :: "shm_data_t \<Rightarrow> bool" where
  "test_drained s \<longleftrightarrow> passengers_in_office s = 0 \<and> passengers_waiting s = 0
     \<and> accounted s = total_passengers_created s \<and> total_passengers_created s > 0"

text \<open>The process test 1 kills: the driver of the active bus, 0 for none.\<close>

definition test1_target :: "shm_data_t \<Rightarrow> int" where
  "test1_target s = (if active_bus_id s \<ge> 0 \<and> active_bus_id s < int MAX_BUSES
     then driver_pids s (nat (active_bus_id s)) else 0)"

section \<open>Termination\<close>

definition main_handle_shutdown :: "main_st \<Rightarrow> main_st \<times> (int \<times> signal) list" where
  "main_handle_shutdown m =
     (m\<lparr>g_running := False\<rparr>, if g_dispatcher_pid m > 0 then [(g_dispatcher_pid m, SIGTERM)] else [])"

text \<open>The four loops over the table, in their order.\<close>

definition all_pids :: "main_st \<Rightarrow> int list" where
  "all_pids m = passengers m @ map (g_ticket_office_pids m) [0..<TICKET_OFFICES]
     @ map (g_driver_pids m) [0..<MAX_BUSES] @ [g_dispatcher_pid m]"

definition signal_all :: "signal \<Rightarrow> main_st \<Rightarrow> (int \<times> signal) list" where
  "signal_all sig m = map (\<lambda>p. (p, sig)) (filter (\<lambda>p. p > 0) (all_pids m))"

text \<open>The blocking loop at the end: until there is no child left.\<close>

fun reap_all :: "wait_answer list \<Rightarrow> main_st \<Rightarrow> main_st option" where
  "reap_all [] m = None"
| "reap_all (Exited p # as) m = reap_all as (handle_child_exit p m)"
| "reap_all (Wait_Interrupted # as) m = reap_all as m"
| "reap_all (a # as) m = Some m"

text \<open>
  \<open>terminate_children\<close>: the answers of the first reaping and of the final loop; the
  signals it sends and its end state, none while it waits.
\<close>

definition terminate_children :: "wait_answer list \<Rightarrow> wait_answer list \<Rightarrow> main_st \<Rightarrow> (int \<times> signal) list \<times> main_st option" where
  "terminate_children reaped answers m =
     (let (n, m1, rest) = reap_children reaped m;
          m2 = m1\<lparr>g_passenger_pids := map_option (\<lambda>_. []) (g_passenger_pids m1)\<rparr>
      in (signal_all SIGTERM m @ signal_all SIGKILL m1, reap_all answers m2))"

datatype wait_end = All_Terminated nat | Timed_Out nat

text \<open>
  The second loop of \<open>wait_all_children\<close> with the last test, \<open>elapsed\<close> seconds since a
  child was reaped; the result is the end, the state and the seconds slept.
\<close>

fun wait_loop :: "nat \<Rightarrow> nat \<Rightarrow> wait_answer list \<Rightarrow> main_st \<Rightarrow> (wait_end \<times> main_st \<times> nat) option" where
  "wait_loop elapsed reaped [] m = None"
| "wait_loop elapsed reaped (a # as) m =
     (if elapsed < 8 then
        (case a of
           Exited p \<Rightarrow> wait_loop 0 (reaped + 1) as (handle_child_exit p m)
         | No_Child \<Rightarrow> Some (All_Terminated reaped, m, 0)
         | _ \<Rightarrow> map_option (\<lambda>(e, m', naps). (e, m', naps + 1)) (wait_loop (elapsed + 1) reaped as m))
      else Some (if a = No_Child then All_Terminated reaped else Timed_Out reaped, m, 0))"

text \<open>
  The first loop reaps what has ended. Whether \<open>errno\<close> is ECHILD then: a return of 0 leaves
  it as it was (\<open>stale\<close>), an error sets it.
\<close>

definition errno_is_echild :: "bool \<Rightarrow> wait_answer list \<Rightarrow> bool" where
  "errno_is_echild stale answers =
     (case find (\<lambda>a. case a of Exited p \<Rightarrow> False | _ \<Rightarrow> True) answers of
        Some No_Child \<Rightarrow> True | Some Still_Running \<Rightarrow> stale | _ \<Rightarrow> False)"

definition wait_all_children :: "bool \<Rightarrow> wait_answer list \<Rightarrow> main_st \<Rightarrow> (wait_end \<times> main_st \<times> nat) option" where
  "wait_all_children stale answers m =
     (let (n, m1, rest) = reap_children answers m in
      if errno_is_echild stale answers \<and> n = 0 then Some (All_Terminated 0, m1, 0) else wait_loop 0 n rest m1)"

text \<open>\<open>sleep_seconds\<close> over successive readings of the clock: the number of calls of \<open>sleep\<close>.\<close>

fun sleep_until :: "int \<Rightarrow> int list \<Rightarrow> nat option" where
  "sleep_until end_time [] = None"
| "sleep_until end_time (t # ts) = (if t < end_time then map_option Suc (sleep_until end_time ts) else Some 0)"

definition sleep_seconds :: "int \<Rightarrow> int \<Rightarrow> int list \<Rightarrow> nat option" where
  "sleep_seconds n start clock = sleep_until (start + n) clock"

declare apply_cli_options.simps [simp del]

section \<open>The table is exact\<close>

lemma first_index_None: "first_index x xs = None \<longleftrightarrow> x \<notin> set xs"
  by (induction xs) auto

lemma first_index_Some: "first_index x xs = Some i \<Longrightarrow> i < length xs \<and> xs ! i = x"
  by (induction xs arbitrary: i) (auto split: if_splits)

lemma mset_forget_pid: "mset (forget_pid p xs) = mset xs - {#p#}"
proof (cases "first_index p xs")
  case None
  then have "p \<notin># mset xs" by (simp add: first_index_None)
  with None show ?thesis by (simp add: forget_pid_def diff_single_trivial)
next
  case (Some i)
  then have i: "i < length xs" "xs ! i = p" by (auto dest: first_index_Some)
  then have ne: "xs \<noteq> []" by auto
  have "mset (xs[i := last xs]) = add_mset (last xs) (mset xs - {#p#})"
    using i by (simp add: mset_update)
  moreover have "xs[i := last xs] = butlast (xs[i := last xs]) @ [last xs]"
  proof -
    have "last (xs[i := last xs]) = last xs" using ne i by (simp add: last_list_update)
    moreover have "xs[i := last xs] \<noteq> []" using ne by simp
    ultimately show ?thesis by (metis append_butlast_last_id)
  qed
  then have "mset (xs[i := last xs]) = add_mset (last xs) (mset (butlast (xs[i := last xs])))"
    by (metis mset.simps(1) mset.simps(2) mset_append union_mset_add_mset_right add_0_right)
  ultimately show ?thesis using Some by (simp add: forget_pid_def)
qed

lemma passengers_forget:
  "passengers (m\<lparr>g_passenger_pids := map_option (forget_pid p) (g_passenger_pids m)\<rparr>)
     = (if g_passenger_pids m = None then [] else forget_pid p (passengers m))"
  by (auto simp: passengers_def split: option.split)

text \<open>Not the process id of a dispatcher, an office or a driver.\<close>

definition other_child :: "main_st \<Rightarrow> int \<Rightarrow> bool" where
  "other_child m p \<longleftrightarrow> p \<noteq> g_dispatcher_pid m \<and> (\<forall>i < TICKET_OFFICES. p \<noteq> g_ticket_office_pids m i)
     \<and> (\<forall>i < MAX_BUSES. p \<noteq> g_driver_pids m i)"

lemma exit_other_child:
  assumes "other_child m p"
  shows "handle_child_exit p m = m\<lparr>g_passenger_pids := map_option (forget_pid p) (g_passenger_pids m)\<rparr>"
proof -
  have "find (\<lambda>i. p = g_ticket_office_pids m i) [0..<TICKET_OFFICES] = None"
    "find (\<lambda>i. p = g_driver_pids m i) [0..<MAX_BUSES] = None"
    using assms by (auto simp: other_child_def find_None_iff simp del: upt_Suc)
  with assms show ?thesis by (simp add: handle_child_exit_def other_child_def)
qed

definition table_ok :: "main_st \<Rightarrow> bool" where
  "table_ok m \<longleftrightarrow> g_passenger_pids m = None
     \<or> 0 < g_passenger_capacity m \<and> length (passengers m) \<le> g_passenger_capacity m"

text \<open>
  C38: The table of passengers is exact. A passenger that is created is added once, or
  not at all when memory is out; the exit of a passenger removes its entry and no other,
  although the array is compacted by moving the last entry; the count never exceeds the
  capacity of the array.
\<close>

theorem passenger_table_exact:
  assumes "table_ok m" and "track_passenger_pid malloc_ok realloc_ok p m = (r, m')"
    and "other_child m' q"
  shows "mset (passengers m') = (if r = 0 then add_mset p (mset (passengers m)) else mset (passengers m))
    \<and> table_ok m' \<and> table_ok (handle_child_exit q m')
    \<and> mset (passengers (handle_child_exit q m')) = mset (passengers m') - {#q#}"
proof -
  have track: "mset (passengers m') = (if r = 0 then add_mset p (mset (passengers m)) else mset (passengers m))"
    and ok: "table_ok m'"
    using assms(1,2)
    by (auto simp: track_passenger_pid_def passengers_def Let_def INITIAL_PASSENGER_CAPACITY_def table_ok_def
        split: if_splits option.splits)
  have exit: "mset (passengers (handle_child_exit q m')) = mset (passengers m') - {#q#}"
    unfolding exit_other_child [OF assms(3)] passengers_forget
    by (simp add: mset_forget_pid) (simp add: passengers_def)
  then have "size (mset (passengers (handle_child_exit q m'))) \<le> size (mset (passengers m'))"
    using size_mset_mono [OF diff_subset_eq_self, of "mset (passengers m')" "{#q#}"] by simp
  with ok have "table_ok (handle_child_exit q m')"
    unfolding exit_other_child [OF assms(3)] by (auto simp: table_ok_def)
  with track ok exit show ?thesis by blast
qed

theorem passenger_table_exact_witness:
  "passengers (handle_child_exit 300 (init_main\<lparr>g_passenger_pids := Some [300, 301], g_passenger_capacity := 2\<rparr>)) = [301]
   \<and> mset (passengers (snd (track_passenger_pid True True 302
        (init_main\<lparr>g_passenger_pids := Some [300, 301], g_passenger_capacity := 2\<rparr>)))) = {#300, 301, 302#}"
proof -
  let ?m = "init_main\<lparr>g_passenger_pids := Some [300, 301], g_passenger_capacity := 2\<rparr>"
  obtain r m' where t: "track_passenger_pid True True 302 ?m = (r, m')" by fastforce
  have other: "other_child m' 300" and "r = 0"
    using t by (auto simp: track_passenger_pid_def passengers_def init_main_def other_child_def)
  have "table_ok ?m" and ps: "passengers ?m = [300, 301]" by (simp_all add: table_ok_def passengers_def)
  from passenger_table_exact [OF this(1) t other] \<open>r = 0\<close>
  have "mset (passengers m') = add_mset 302 (mset (passengers ?m))" by simp
  moreover have "passengers (handle_child_exit 300 ?m) = [301]" by code_simp
  ultimately show ?thesis using t unfolding ps by simp
qed

section \<open>Nobody escapes\<close>

lemma passengers_exit_empty: "passengers m = [] \<Longrightarrow> passengers (handle_child_exit p m) = []"
  by (auto simp: handle_child_exit_def passengers_def forget_pid_def split: option.splits)

lemma reap_all_empty: "reap_all as m = Some m' \<Longrightarrow> passengers m = [] \<Longrightarrow> passengers m' = []"
  by (induction as m rule: reap_all.induct) (auto simp: passengers_exit_empty)

lemma exit_keeps_others:
  assumes "p \<in> set (all_pids m)" and "q \<noteq> p"
  shows "p \<in> set (all_pids (handle_child_exit q m))"
proof (cases "other_child m q")
  case True
  have "p \<in> set (passengers m) \<Longrightarrow> p \<in> set (forget_pid q (passengers m))"
  proof -
    have "count (mset (forget_pid q (passengers m))) p = count (mset (passengers m)) p"
      using assms(2) by (simp add: mset_forget_pid)
    then show "p \<in> set (passengers m) \<Longrightarrow> p \<in> set (forget_pid q (passengers m))"
      by (metis count_mset_0_iff)
  qed
  moreover have "passengers m = [] \<or> g_passenger_pids m \<noteq> None" by (auto simp: passengers_def)
  ultimately show ?thesis
    using assms(1) unfolding exit_other_child [OF True] all_pids_def passengers_forget by auto
next
  case False
  then consider "q = g_dispatcher_pid m"
    | "q \<noteq> g_dispatcher_pid m" "find (\<lambda>i. q = g_ticket_office_pids m i) [0..<TICKET_OFFICES] \<noteq> None"
    | "q \<noteq> g_dispatcher_pid m" "find (\<lambda>i. q = g_ticket_office_pids m i) [0..<TICKET_OFFICES] = None"
      "find (\<lambda>i. q = g_driver_pids m i) [0..<MAX_BUSES] \<noteq> None"
    by (auto simp: other_child_def find_None_iff simp del: upt_Suc)
  then show ?thesis
  proof cases
    case 1
    with assms show ?thesis by (auto simp: handle_child_exit_def all_pids_def passengers_def)
  next
    case 2
    then obtain i where i: "find (\<lambda>i. q = g_ticket_office_pids m i) [0..<TICKET_OFFICES] = Some i"
      "q = g_ticket_office_pids m i" by (auto dest: find_SomeD simp del: upt_Suc)
    with 2 assms show ?thesis by (auto simp: handle_child_exit_def all_pids_def passengers_def)
  next
    case 3
    then obtain i where i: "find (\<lambda>i. q = g_driver_pids m i) [0..<MAX_BUSES] = Some i"
      "q = g_driver_pids m i" by (auto dest: find_SomeD simp del: upt_Suc)
    with 3 assms show ?thesis by (auto simp: handle_child_exit_def all_pids_def passengers_def)
  qed
qed

lemma reap_keeps_others:
  "reap_children as m = (n, m', rest) \<Longrightarrow> p \<in> set (all_pids m) \<Longrightarrow> Exited p \<notin> set as \<Longrightarrow> p \<in> set (all_pids m')"
proof (induction as m arbitrary: n m' rest rule: reap_children.induct)
  case (2 q as m)
  then show ?case using exit_keeps_others [of p m q] by (auto split: prod.splits)
qed auto

text \<open>
  \<open>terminate_children\<close> reaches everybody: every process in the table gets SIGTERM, and
  every one that has not been reaped by then gets SIGKILL; no passenger is left in the
  table when the final wait returns.
\<close>

theorem nobody_escapes:
  assumes "p \<in> set (all_pids m)" and "0 < p"
    and "terminate_children reaped answers m = (signals, res)"
  shows "(p, SIGTERM) \<in> set signals
    \<and> (Exited p \<notin> set reaped \<longrightarrow> (p, SIGKILL) \<in> set signals)
    \<and> (\<forall>m'. res = Some m' \<longrightarrow> passengers m' = [])"
proof -
  obtain n m1 rest where r: "reap_children reaped m = (n, m1, rest)" by (metis prod_cases3)
  have "passengers (m1\<lparr>g_passenger_pids := map_option (\<lambda>_. []) (g_passenger_pids m1)\<rparr>) = []"
    by (simp add: passengers_def split: option.split)
  with r assms reap_keeps_others [OF r] reap_all_empty show ?thesis
    by (auto simp: terminate_children_def signal_all_def)
qed

theorem nobody_escapes_witness:
  "(300, SIGKILL) \<in> set (fst (terminate_children [Exited 301, Still_Running] [Exited 300, No_Child]
     (init_main\<lparr>g_passenger_pids := Some [300, 301]\<rparr>)))"
proof -
  let ?m = "init_main\<lparr>g_passenger_pids := Some [300, 301]\<rparr>"
  have "(300::int) \<in> set (all_pids ?m)" by (simp add: all_pids_def passengers_def)
  moreover obtain signals res where
    t: "terminate_children [Exited 301, Still_Running] [Exited 300, No_Child] ?m = (signals, res)" by fastforce
  ultimately have "(300, SIGKILL) \<in> set signals" using nobody_escapes [OF _ _ t, of 300] by simp
  with t show ?thesis by simp
qed

section \<open>The final wait ends\<close>

definition exits :: "wait_answer list \<Rightarrow> nat" where
  "exits as = length (filter (\<lambda>a. case a of Exited p \<Rightarrow> True | _ \<Rightarrow> False) as)"

lemma wait_loop_ends:
  assumes "elapsed \<le> 8" and "9 * exits as + (8 - elapsed) < length as"
  shows "\<exists>e m' naps. wait_loop elapsed reaped as m = Some (e, m', naps) \<and> naps \<le> 8 * exits as + (8 - elapsed)"
  using assms
proof (induction elapsed reaped as m rule: wait_loop.induct)
  case (2 elapsed reaped a as m)
  show ?case
  proof (cases "elapsed < 8")
    case True
    show ?thesis
    proof (cases a)
      case (Exited p)
      with 2 True show ?thesis by (fastforce simp: exits_def)
    next
      case Still_Running
      with 2 True show ?thesis by (fastforce simp: exits_def)
    next
      case No_Child
      with True show ?thesis by simp
    next
      case Wait_Interrupted
      with 2 True show ?thesis by (fastforce simp: exits_def)
    qed
  qed simp
qed simp

text \<open>
  C39: The final wait always ends: with at most c children to reap it returns after at
  most 9 (c + 1) answers of \<open>waitpid\<close> and has slept at most 8 (c + 1) seconds, although
  every reaped child starts the time-out again.
\<close>

theorem final_wait_ends:
  assumes "9 * (exits as + 1) \<le> length as"
  shows "\<exists>e m' naps. wait_loop 0 reaped as m = Some (e, m', naps) \<and> naps \<le> 8 * (exits as + 1)"
proof -
  have "9 * exits as + (8 - 0) < length as" using assms by simp
  from wait_loop_ends [OF _ this, of reaped m] show ?thesis by (simp add: algebra_simps)
qed

theorem final_wait_ends_witness:
  "\<exists>e m' naps. wait_loop 0 0 (replicate 5 Still_Running @ [Exited 300] @ replicate 20 Still_Running) init_main
     = Some (e, m', naps) \<and> naps \<le> 16"
  using final_wait_ends [of "replicate 5 Still_Running @ [Exited 300] @ replicate 20 Still_Running" 0 init_main]
  by (simp add: exits_def)

section \<open>The command line\<close>

definition no_options :: options where
  "no_options = \<lparr>BUS_LOG_MODE = None, BUS_PERF_MODE = None, BUS_FULL_DEPART = None,
     opt_test_mode = 0, opt_max_passengers = 0\<rparr>"

text \<open>A command line that asks for the given settings.\<close>

definition command_line :: "options \<Rightarrow> string list" where
  "command_line cl =
     (case BUS_LOG_MODE cl of None \<Rightarrow> [] | Some v \<Rightarrow> [''--log'', v])
     @ (if BUS_PERF_MODE cl = None then [] else [''--perf''])
     @ (if BUS_FULL_DEPART cl = None then [] else [''--full''])
     @ (if opt_max_passengers cl = 0 then [] else [''--max_p''])
     @ map fst (filter (\<lambda>(arg, n). n = opt_test_mode cl) test_options)"

definition askable :: "options \<Rightarrow> bool" where
  "askable cl \<longleftrightarrow> BUS_PERF_MODE cl \<in> {None, Some ''1''} \<and> BUS_FULL_DEPART cl \<in> {None, Some ''1''}
     \<and> opt_max_passengers cl \<in> {0, MAX_PASSENGERS} \<and> 0 \<le> opt_test_mode cl \<and> opt_test_mode cl \<le> 11"

lemma parse_simps:
  "apply_cli_options [] cl = Some cl"
  "apply_cli_options (''--log'' # v # rest) cl = apply_cli_options rest (cl\<lparr>BUS_LOG_MODE := Some v\<rparr>)"
  "apply_cli_options (''--perf'' # rest) cl = apply_cli_options rest (cl\<lparr>BUS_PERF_MODE := Some ''1''\<rparr>)"
  "apply_cli_options (''--full'' # rest) cl = apply_cli_options rest (cl\<lparr>BUS_FULL_DEPART := Some ''1''\<rparr>)"
  "apply_cli_options (''--max_p'' # rest) cl = apply_cli_options rest (cl\<lparr>opt_max_passengers := MAX_PASSENGERS\<rparr>)"
  by (simp_all add: apply_cli_options.simps strncmp_eq_def)

lemma parse_test:
  assumes "(arg, n) \<in> set test_options"
  shows "apply_cli_options (arg # rest) cl = apply_cli_options rest (cl\<lparr>opt_test_mode := n\<rparr>)"
  using assms by (auto simp: test_options_def apply_cli_options.simps strncmp_eq_def)

definition test_argument_ok :: "int \<Rightarrow> bool" where
  "test_argument_ok n \<longleftrightarrow>
     map fst (filter (\<lambda>(arg, k). k = n) test_options) = (if n = 0 then [] else [''--test'' @ show_int n])
     \<and> (n \<noteq> 0 \<longrightarrow> (''--test'' @ show_int n, n) \<in> set test_options)"

lemma test_arguments: "list_all test_argument_ok [0..11]"
  by code_simp

lemma test_argument: "0 \<le> n \<Longrightarrow> n \<le> 11 \<Longrightarrow> test_argument_ok n"
  using test_arguments by (simp add: list_all_iff)

text \<open>
  C40: The settings survive the command line: for every combination of log mode, perf
  mode, departure mode, limit and test the options that ask for it are parsed back to
  exactly these settings; the value after \<open>--log\<close> is taken whatever it is.
\<close>

theorem command_line_roundtrip:
  assumes "askable cl"
  shows "apply_cli_options (command_line cl) no_options = Some cl"
proof -
  have "0 \<le> opt_test_mode cl" "opt_test_mode cl \<le> 11" using assms by (simp_all add: askable_def)
  note test = test_argument [OF this, unfolded test_argument_ok_def]
  obtain targs where targs: "targs = map fst (filter (\<lambda>(arg, k). k = opt_test_mode cl) test_options)" by blast
  have tail: "apply_cli_options targs cl' = Some (cl'\<lparr>opt_test_mode := opt_test_mode cl\<rparr>)"
    if "opt_test_mode cl' = 0" for cl'
    using test that unfolding targs by (cases cl') (auto simp: parse_simps parse_test)
  show ?thesis
    using assms tail unfolding command_line_def targs [symmetric] askable_def
    by (cases cl) (auto simp: parse_simps no_options_def split: option.splits)
qed

theorem command_line_roundtrip_witness:
  "apply_cli_options [''--log'', ''summary'', ''--full'', ''--test10''] no_options
     = Some \<lparr>BUS_LOG_MODE = Some ''summary'', BUS_PERF_MODE = None, BUS_FULL_DEPART = Some ''1'',
         opt_test_mode = 10, opt_max_passengers = 0\<rparr>"
  using command_line_roundtrip [of "\<lparr>BUS_LOG_MODE = Some ''summary'', BUS_PERF_MODE = None,
      BUS_FULL_DEPART = Some ''1'', opt_test_mode = 10, opt_max_passengers = 0\<rparr>"]
  by (simp add: command_line_def askable_def test_options_def)

end
