(* ===== verification/Statistics.thy ===== *)
theory Statistics
  imports Bounds Scenario Main_Process
begin

text \<open>
  The figures the program prints and tests: the consistency check of
  \<open>print_final_stats\<close>, the end of the simulation, and the accounting at shutdown,
  measured against the books of the reachable states.
\<close>

definition riders_away :: "(nat \<Rightarrow> bus_state_t) \<Rightarrow> int" where
  "riders_away bs = sum_list (map (\<lambda>i. if at_station (bs i) then 0 else passenger_count (bs i)) [0..<MAX_BUSES])"

lemma on_bus_split: "on_bus m = riders_at_station (buses m) + riders_away (buses m)"
  by (simp add: on_bus_def bus_total_unfold riders_unfold riders_away_def upt_rec numeral_2_eq_2)



lemma buses_nonneg:
  assumes "reachable c s"
  shows "bus_total (\<lambda>u. max 0 (passenger_count u)) (shm (wrld s)) = on_bus (shm (wrld s))"
proof -
  have "0 \<le> passenger_count (buses (shm (wrld s)) b)" if "b < MAX_BUSES" for b
    using reachable_buses [OF assms] that by (simp add: buses_inv_def bus_inv_def)
  then show ?thesis by (simp add: on_bus_def bus_total_unfold)
qed

lemma accounted_bus:
  assumes "reachable c s" and "b < MAX_BUSES"
  shows "passenger_count (buses (shutdown_accounting (shm (wrld s))) b) = 0"
  using reachable_buses [OF assms(1)] assms(2) by (auto simp: shutdown_accounting_effect buses_inv_def bus_inv_def)

text \<open>
  C23: The accounting at shutdown adds whatever a bus carries to the transported people,
  also for a bus that has left and was counted when it did. The final number is the
  number of boarded people plus, once more, those on travelling buses; no bus has
  anybody left.
\<close>

theorem shutdown_counts_travelling_twice:
  assumes "reachable c s" and "simulation_running (shm (wrld s))"
  shows "passengers_transported (shutdown_accounting (shm (wrld s)))
      = boarded_people (shm (wrld s)) + riders_away (buses (shm (wrld s)))
    \<and> on_bus (shutdown_accounting (shm (wrld s))) = 0
    \<and> \<not> simulation_running (shutdown_accounting (shm (wrld s)))"
proof -
  have "on_bus (shutdown_accounting (shm (wrld s))) = 0"
    using accounted_bus [OF assms(1)] by (simp add: on_bus_def bus_total_unfold)
  then show ?thesis
    using boarded_balance [OF assms] on_bus_split [of "shm (wrld s)"] buses_nonneg [OF assms(1)]
    by (simp add: shutdown_accounting_effect)
qed

theorem shutdown_counts_travelling_twice_witness:
  "boarded_people (shm (wrld (demo 43))) = 1
   \<and> passengers_transported (shutdown_accounting (shm (wrld (demo 43)))) = 2"
proof -
  have "simulation_running (shm (wrld (demo 43)))" "boarded_people (shm (wrld (demo 43))) = 1"
    "riders_away (buses (shm (wrld (demo 43)))) = 1" by code_simp+
  with shutdown_counts_travelling_twice [OF demo_reachable, of 43] show ?thesis by simp
qed

lemma empty_buses:
  "all_buses_at_station_and_empty m \<longleftrightarrow> (\<forall>b < MAX_BUSES. at_station (buses m b) \<and> passenger_count (buses m b) = 0
     \<and> entering_count (buses m b) = 0)"
  by (auto simp: all_buses_at_station_and_empty_def list_all_iff)

text \<open>
  When the dispatcher ends a running simulation by itself, nobody is waiting, in the
  office or on a bus, and the figures it will report are right: everybody who boarded
  has been transported, the shutdown changes no figure, and whoever was created was
  transported, left, or has not reached the entrance.
\<close>

theorem orderly_end_accounts_for_everybody:
  assumes "reachable c s" and "calm s" and "simulation_running (shm (wrld s))"
    and "check_simulation_end (shm (wrld s))"
  shows "passengers_waiting (shm (wrld s)) = 0 \<and> passengers_in_office (shm (wrld s)) = 0
    \<and> passengers_transported (shm (wrld s)) = boarded_people (shm (wrld s))
    \<and> passengers_transported (shutdown_accounting (shm (wrld s))) = passengers_transported (shm (wrld s))
    \<and> total_passengers_created (shm (wrld s)) = passengers_transported (shm (wrld s))
        + passengers_left_early (shm (wrld s)) + sum_list (map pending_seats (ps s))"
proof -
  have alive: "ipc_alive (wrld s)" using assms(2) by (simp add: calm_def)
  from assms(3,4) have "passengers_waiting (shm (wrld s)) \<le> 0" "passengers_in_office (shm (wrld s)) \<le> 0"
    and empty: "\<forall>b < MAX_BUSES. at_station (buses (shm (wrld s)) b) \<and> passenger_count (buses (shm (wrld s)) b) = 0"
    by (auto simp: check_simulation_end_def empty_buses split: if_splits)
  then have zero: "passengers_waiting (shm (wrld s)) = 0" "passengers_in_office (shm (wrld s)) = 0"
    using waiting_nonneg [OF assms(1,2)] in_office_nonneg [OF assms(1) alive] by simp_all
  have "on_bus (shm (wrld s)) = 0" "riders_at_station (buses (shm (wrld s))) = 0"
    using empty by (simp_all add: on_bus_def bus_total_unfold riders_unfold)
  then show ?thesis
    using zero created_balance [OF assms(1,2)] boarded_balance [OF assms(1,3)] buses_nonneg [OF assms(1)]
    by (simp add: shutdown_accounting_effect)
qed

definition finished_run :: "action list" where
  "finished_run = demo_script @ Driver_Moves (at_time 15) 0 # closing"

theorem orderly_end_accounts_for_everybody_witness:
  "check_simulation_end (shm (wrld (after finished_run)))
   \<and> passengers_transported (shm (wrld (after finished_run))) = 1
   \<and> total_passengers_created (shm (wrld (after finished_run))) = 1"
proof -
  have "calm (after finished_run)" "simulation_running (shm (wrld (after finished_run)))"
    "check_simulation_end (shm (wrld (after finished_run)))"
    "passengers_transported (shm (wrld (after finished_run))) = 1"
    "passengers_left_early (shm (wrld (after finished_run))) = 0"
    "sum_list (map pending_seats (ps (after finished_run))) = 0" by code_simp+
  with orderly_end_accounts_for_everybody [OF after_reachable, of finished_run] show ?thesis by simp
qed

lemma accounted_final_sum: "accounted m = final_sum m"
  by (simp add: accounted_def final_sum_def)

text \<open>
  C22: When the main process takes the simulation for drained. Its test is true exactly
  if creation has stopped, nobody waits or is in the office, and as many people are on
  travelling buses as are between arrival and entrance: it ends the simulation early when
  a passenger still on the way to the entrance is offset by one on a travelling bus.
\<close>

theorem drain_test_exact:
  assumes "reachable c s" and "calm s" and "simulation_running (shm (wrld s))"
  shows "drain_complete (shm (wrld s)) \<longleftrightarrow>
    spawning_stopped (shm (wrld s)) \<and> 0 < total_passengers_created (shm (wrld s))
    \<and> passengers_waiting (shm (wrld s)) = 0 \<and> passengers_in_office (shm (wrld s)) = 0
    \<and> riders_away (buses (shm (wrld s))) = sum_list (map pending_seats (ps s))"
  using created_balance [OF assms(1,2)] boarded_balance [OF assms(1,3)] on_bus_split [of "shm (wrld s)"]
  by (auto simp: drain_complete_def accounted_def)

text \<open>
  A VIP has been counted and is about to enter the open station while the bus is away: the
  test succeeds.
\<close>

definition early_drain :: "action list" where
  "early_drain = demo_script @ Spawn 400 20 0 50 50 50 # replicate 3 (Passenger_Moves (at_time 10) 1) @ [Stop_Spawning]"

theorem drain_test_exact_witness:
  "drain_complete (shm (wrld (after early_drain))) \<and> p_pc (ps (after early_drain) ! 1) = P_CheckClosed
   \<and> station_open (shm (wrld (after early_drain)))"
proof -
  have "calm (after early_drain)" "simulation_running (shm (wrld (after early_drain)))"
    "spawning_stopped (shm (wrld (after early_drain)))" "total_passengers_created (shm (wrld (after early_drain))) = 2"
    "passengers_waiting (shm (wrld (after early_drain))) = 0" "passengers_in_office (shm (wrld (after early_drain))) = 0"
    "riders_away (buses (shm (wrld (after early_drain)))) = 1"
    "sum_list (map pending_seats (ps (after early_drain))) = 1"
    "p_pc (ps (after early_drain) ! 1) = P_CheckClosed" "station_open (shm (wrld (after early_drain)))" by code_simp+
  with drain_test_exact [OF after_reachable, of early_drain] show ?thesis by simp
qed

end
