(* ===== verification/Reports.thy ===== *)
theory Reports
  imports Statistics
begin

text \<open>
  What the dispatcher reports: the status line, the rhythm in which its loop prints it and
  looks at the queues, and the final statistics with the line that warns of an
  inconsistency. A line is its destination, its label and its figures; the layout is left out.
\<close>

section \<open>The status line and the rhythm of the loop\<close>

definition is_minimal :: "string option \<Rightarrow> bool" where
  "is_minimal log_mode \<longleftrightarrow> log_mode = Some ''minimal''"

datatype status_line =
    Minimal_Status "int list"
  | Full_Status (st_open: bool) (st_boarding: bool) (st_early: bool) (st_figures: "int list")

definition print_status :: "bool \<Rightarrow> shm_data_t \<Rightarrow> status_line" where
  "print_status minimal s =
     (let figures = [total_passengers_created s, passengers_transported s, passengers_waiting s,
                     passengers_in_office s, tickets_issued s]
      in if minimal then Minimal_Status figures
         else Full_Status (station_open s) (boarding_allowed s) (early_departure_flag s)
                (figures @ [active_bus_id s]))"

text \<open>
  The counters of one round of the main loop: whether the queues are looked at, whether the
  status is printed, and the counters of the next round.
\<close>

record counters =
  status_counter :: nat
  health_counter :: nat

definition start_counters :: counters where
  "start_counters = \<lparr>status_counter = 0, health_counter = 0\<rparr>"

definition round_reports :: "bool \<Rightarrow> counters \<Rightarrow> bool \<times> bool \<times> counters" where
  "round_reports minimal k =
     (let health = health_counter k + 1;
          k1 = k\<lparr>health_counter := (if health \<ge> 10 then 0 else health)\<rparr>
      in if \<not> minimal then (health \<ge> 10, True, k1)
         else
           let status = status_counter k1 + 1
           in (health \<ge> 10, status \<ge> 3, k1\<lparr>status_counter := (if status \<ge> 3 then 0 else status)\<rparr>))"

definition counters_after :: "bool \<Rightarrow> nat \<Rightarrow> counters" where
  "counters_after minimal n = ((\<lambda>k. snd (snd (round_reports minimal k))) ^^ n) start_counters"

section \<open>The final statistics\<close>



section \<open>The rhythm\<close>

lemma counters_after_Suc: "counters_after minimal (Suc n) = snd (snd (round_reports minimal (counters_after minimal n)))"
  by (simp add: counters_after_def)

lemma counters_after_value:
  "counters_after minimal n = \<lparr>status_counter = (if minimal then n mod 3 else 0), health_counter = n mod 10\<rparr>"
proof (induction n)
  case 0
  show ?case by (simp add: counters_after_def start_counters_def)
next
  case (Suc n)
  show ?case unfolding counters_after_Suc Suc by (auto simp: round_reports_def Let_def mod_Suc)
qed

text \<open>
  In its n-th round the dispatcher looks at the queues exactly if n is divisible by 10, and
  prints the status always, or in minimal mode exactly if n is divisible by 3.
\<close>

lemma reports_rhythm:
  "fst (round_reports minimal (counters_after minimal n)) \<longleftrightarrow> 10 dvd Suc n"
  "fst (snd (round_reports minimal (counters_after minimal n))) \<longleftrightarrow> \<not> minimal \<or> 3 dvd Suc n"
  unfolding counters_after_value by (auto simp: round_reports_def Let_def dvd_eq_mod_eq_0 mod_Suc)

section \<open>The report of an orderly end\<close>




end
