(* ===== verification/Test_Scripts.thy ===== *)
theory Test_Scripts
  imports Main_Process
begin

text \<open>
  The test scripts of src/main.c: \<open>run_test\<close> as the list of what it does, in order: pauses,
  semaphore values it sets, signals it sends, processes it creates and the figures it
  prints. What a script sees (the shared state, a semaphore value, the answer of
  \<open>sem_trylock\<close>, \<open>msgctl\<close> and \<open>fork\<close>) depends on the seconds it has slept so far and is an
  argument; the layout of the printed text is left out.
\<close>

section \<open>What a script does and sees\<close>

datatype report =
    Figures "int list" | Queue_Figures "(nat \<times> nat) option" | Mutex_Busy
  | Drain_Complete int | Drain_Timeout | Stats_Pass | Stats_Fail int
  | Fork_Failed_After nat | Nothing_There | Unknown_Test int

datatype effect =
    Pause nat | Set_Semaphore nat int | Signal int signal | Fill_Queue_Mode bool
  | Forked int | Reaped int | Shows report

record surroundings =
  seen_shm :: "nat \<Rightarrow> shm_data_t"
  seen_sem :: "nat \<Rightarrow> nat \<Rightarrow> int"
  mutex_free :: "nat \<Rightarrow> bool"
  queue_stat :: "nat \<Rightarrow> (nat \<times> nat) option"
  burst_running :: "nat \<Rightarrow> bool"
  burst_fork :: "nat \<Rightarrow> int"
  burst_memory :: "nat \<Rightarrow> bool \<times> bool"

text \<open>\<open>sleep_seconds (1)\<close> and then \<open>line i\<close>, for the rounds 0 to n - 1 after \<open>sec\<close>.\<close>

definition watch :: "(nat \<Rightarrow> nat \<Rightarrow> effect list) \<Rightarrow> nat \<Rightarrow> nat \<Rightarrow> effect list" where
  "watch line sec n = concat (map (\<lambda>i. Pause 1 # line i (sec + i + 1)) [0..<n])"

section \<open>The drain loops and the check of the figures\<close>

text \<open>
  The loop of the tests 6 to 8: \<open>figs\<close> are the figures after the number of the round, \<open>quiet\<close>
  the condition on which they are also printed.
\<close>

fun drain_loop ::
  "surroundings \<Rightarrow> (shm_data_t \<Rightarrow> int list) \<Rightarrow> (shm_data_t \<Rightarrow> bool) \<Rightarrow> nat \<Rightarrow> nat \<Rightarrow> nat \<Rightarrow> effect list" where
  "drain_loop e figs quiet sec t 0 = [Shows Drain_Timeout]"
| "drain_loop e figs quiet sec t (Suc left) =
     (let s = seen_shm e (sec + t + 1) in
      Pause 1 # (if t mod 5 = 0 \<or> quiet s then [Shows (Figures (int t # figs s))] else [])
      @ (if test_drained s then [Shows (Drain_Complete (total_passengers_created s))]
         else drain_loop e figs quiet sec (t + 1) left))"

text \<open>The check of test 5 and the last check of test 8.\<close>

definition stats_check :: "shm_data_t \<Rightarrow> effect list" where
  "stats_check s =
     [Shows (Figures [total_passengers_created s]),
      Shows (Figures [passengers_transported s, passengers_waiting s, passengers_in_office s, on_bus s,
        passengers_left_early s, accounted s]),
      Shows (if stats_pass s then Stats_Pass else Stats_Fail (total_passengers_created s - accounted s))]"

section \<open>The scripts\<close>

text \<open>Without shared memory (\<open>attached\<close> false) the tests 1 and 5 to 8 only pause.\<close>

definition test1 :: "bool \<Rightarrow> surroundings \<Rightarrow> effect list" where
  "test1 attached e = Pause 5 #
     (if attached then
        (let p = test1_target (seen_shm e 5) in if p > 0 then [Signal p SIGKILL] else [Shows Nothing_There])
      else [])"

definition test2 :: "main_st \<Rightarrow> effect list" where
  "test2 m = Pause 5 # (if g_dispatcher_pid m > 0 then [Signal (g_dispatcher_pid m) SIGUSR2] else [])"

definition test3 :: "main_st \<Rightarrow> effect list" where
  "test3 m = concat (replicate 5
     (Pause 3 # (if g_dispatcher_pid m > 0 then [Signal (g_dispatcher_pid m) SIGUSR1] else [])))"

definition test4 :: "main_st \<Rightarrow> effect list \<times> main_st" where
  "test4 m =
     (if g_ticket_office_pids m 0 > 0
      then ([Pause 5, Signal (g_ticket_office_pids m 0) SIGKILL],
            m\<lparr>g_ticket_office_pids := (g_ticket_office_pids m)(0 := 0)\<rparr>)
      else ([Pause 5, Shows Nothing_There], m))"

definition test5 :: "bool \<Rightarrow> surroundings \<Rightarrow> effect list" where
  "test5 attached e = Pause 15 # (if attached then stats_check (seen_shm e 15) else [])"

definition test6_blocked :: "surroundings \<Rightarrow> effect list" where
  "test6_blocked e =
     [Pause 2, Shows (Figures [seen_sem e 2 SEM_TICKET_QUEUE_SLOTS])]
     @ watch (\<lambda>i sec. let s = seen_shm e sec in
         [Shows (Figures [int i + 1, passengers_in_office s, passengers_waiting s, tickets_sold_people s,
            seen_sem e sec SEM_TICKET_QUEUE_SLOTS])]) 2 10
     @ [Set_Semaphore SEM_TICKET_QUEUE_SLOTS MAX_TICKET_QUEUE_REQUESTS]"

definition test6 :: "bool \<Rightarrow> surroundings \<Rightarrow> effect list" where
  "test6 attached e =
     (if attached then test6_blocked e
        @ drain_loop e (\<lambda>s. [passengers_in_office s, passengers_waiting s, passengers_transported s,
              passengers_left_early s, on_bus s, total_passengers_created s])
            (\<lambda>s. passengers_in_office s = 0) 12 0 120
      else [Pause 2])"

definition test7_blocked :: "surroundings \<Rightarrow> effect list" where
  "test7_blocked e =
     [Pause 5, Shows (Figures [seen_sem e 5 SEM_BOARDING_QUEUE_SLOTS])]
     @ watch (\<lambda>i sec. let s = seen_shm e sec in
         [Shows (Figures [int i + 1, passengers_waiting s, on_bus s, boarded_people s,
            passengers_transported s, seen_sem e sec SEM_BOARDING_QUEUE_SLOTS])]) 5 10
     @ [Set_Semaphore SEM_BOARDING_QUEUE_SLOTS MAX_BOARDING_QUEUE_REQUESTS]"

definition test7 :: "bool \<Rightarrow> surroundings \<Rightarrow> effect list" where
  "test7 attached e =
     (if attached then test7_blocked e
        @ drain_loop e (\<lambda>s. [passengers_waiting s, passengers_in_office s, passengers_transported s,
              passengers_left_early s, on_bus s, total_passengers_created s])
            (\<lambda>s. passengers_waiting s = 0) 15 0 120
      else [Pause 5])"

definition test8_blocked :: "surroundings \<Rightarrow> effect list" where
  "test8_blocked e =
     [Pause 2, Shows (Figures [seen_sem e 2 SEM_TICKET_QUEUE_SLOTS, seen_sem e 2 SEM_BOARDING_QUEUE_SLOTS])]
     @ watch (\<lambda>i sec. let s = seen_shm e sec in
         [Shows (Figures [int i + 1, total_passengers_created s, passengers_in_office s, passengers_waiting s,
            boarded_people s, passengers_transported s,
            seen_sem e sec SEM_TICKET_QUEUE_SLOTS, seen_sem e sec SEM_BOARDING_QUEUE_SLOTS])]) 2 15
     @ [Set_Semaphore SEM_TICKET_QUEUE_SLOTS MAX_TICKET_QUEUE_REQUESTS,
        Set_Semaphore SEM_BOARDING_QUEUE_SLOTS MAX_BOARDING_QUEUE_REQUESTS]"

definition seconds :: "effect list \<Rightarrow> nat" where
  "seconds es = sum_list (map (\<lambda>a. case a of Pause n \<Rightarrow> n | _ \<Rightarrow> 0) es)"

text \<open>The last check of test 8 follows the drain loop at once, so it reads the state of that second.\<close>

definition test8 :: "bool \<Rightarrow> surroundings \<Rightarrow> effect list" where
  "test8 attached e =
     (if attached then
        (let d = drain_loop e (\<lambda>s. [passengers_in_office s, passengers_waiting s, passengers_transported s,
                     passengers_left_early s, on_bus s, total_passengers_created s])
                   (\<lambda>s. passengers_in_office s = 0 \<and> passengers_waiting s = 0) 17 0 120
         in test8_blocked e @ d @ stats_check (seen_shm e (17 + seconds d)))
      else [Pause 2])"

definition test9 :: "main_st \<Rightarrow> effect list" where
  "test9 m = Pause 5 #
     (if g_ticket_office_pids m 0 > 0
      then Signal (g_ticket_office_pids m 0) SIGSTOP # watch (\<lambda>i sec. []) 5 10
           @ [Signal (g_ticket_office_pids m 0) SIGCONT, Pause 10]
      else [Shows Nothing_There])"

definition test10 :: "bool \<Rightarrow> surroundings \<Rightarrow> main_st \<Rightarrow> effect list" where
  "test10 attached e m = Pause 5 #
     (if g_driver_pids m 0 > 0
      then Signal (g_driver_pids m 0) SIGSTOP
           # watch (\<lambda>i sec. if \<not> attached then []
               else if mutex_free e sec then
                 (let s = seen_shm e sec in
                  [Shows (Figures [int i + 1, passengers_waiting s, boarded_people s, passengers_transported s,
                     on_bus s, seen_sem e sec SEM_BOARDING_QUEUE_SLOTS])])
               else [Shows Mutex_Busy]) 5 10
           @ [Signal (g_driver_pids m 0) SIGCONT, Pause 10]
      else [Shows Nothing_There])"

text \<open>
  Test 11: the burst of processes; \<open>g_running\<close> is read before every \<open>fork\<close>. The burst does
  not count into \<open>g_passengers_spawned\<close>.
\<close>

fun burst :: "surroundings \<Rightarrow> nat \<Rightarrow> nat \<Rightarrow> main_st \<Rightarrow> effect list \<times> main_st" where
  "burst e i 0 m = ([], m)"
| "burst e i (Suc left) m =
     (if \<not> burst_running e i then ([], m)
      else if burst_fork e i = -1 then ([Shows (Fork_Failed_After i)], m)
      else
        let (r, m1) = track_passenger_pid (fst (burst_memory e i)) (snd (burst_memory e i)) (burst_fork e i) m;
            (es, m2) = burst e (i + 1) left m1
        in (Forked (burst_fork e i) # es, m2))"

definition signal_offices :: "signal \<Rightarrow> main_st \<Rightarrow> effect list" where
  "signal_offices sig m =
     map (\<lambda>p. Signal p sig) (filter (\<lambda>p. p > 0) (map (g_ticket_office_pids m) [0..<TICKET_OFFICES]))"

definition test11 :: "bool \<Rightarrow> surroundings \<Rightarrow> main_st \<Rightarrow> effect list \<times> main_st" where
  "test11 attached e m =
     (let (es, m') = burst e 0 5000 m;
          look = watch (\<lambda>i sec. [Shows (Queue_Figures (queue_stat e sec))])
      in ((if attached then [Fill_Queue_Mode True] else [])
          @ Set_Semaphore SEM_TICKET_QUEUE_SLOTS 32767 # signal_offices SIGSTOP m
          @ [Pause 1, Shows (Queue_Figures (queue_stat e 1))] @ es @ look 1 10
          @ signal_offices SIGCONT m' @ look 11 10
          @ (if attached then [Fill_Queue_Mode False] else []), m'))"

definition run_test :: "bool \<Rightarrow> surroundings \<Rightarrow> int \<Rightarrow> main_st \<Rightarrow> effect list \<times> main_st" where
  "run_test attached e test m =
     (if test = 1 then (test1 attached e, m) else if test = 2 then (test2 m, m)
      else if test = 3 then (test3 m, m) else if test = 4 then test4 m
      else if test = 5 then (test5 attached e, m) else if test = 6 then (test6 attached e, m)
      else if test = 7 then (test7 attached e, m) else if test = 8 then (test8 attached e, m)
      else if test = 9 then (test9 m, m) else if test = 10 then (test10 attached e m, m)
      else if test = 11 then test11 attached e m else ([Shows (Unknown_Test test)], m))"

section \<open>What the effects do\<close>

fun apply_effect :: "effect \<Rightarrow> world \<Rightarrow> world" where
  "apply_effect (Set_Semaphore n v) w = w_setval n v w"
| "apply_effect (Fill_Queue_Mode b) w = upd_shm (\<lambda>s. s\<lparr>test_fill_queue := b\<rparr>) w"
| "apply_effect a w = w"

text \<open>The processes that are stopped after the effects.\<close>

fun stop_cont :: "effect \<Rightarrow> int set \<Rightarrow> int set" where
  "stop_cont (Signal p sig) S = (if sig = SIGSTOP then insert p S else if sig = SIGCONT then S - {p} else S)"
| "stop_cont a S = S"

section \<open>Scripts in general\<close>

text \<open>Effects on nobody: pauses and printing.\<close>

definition silent :: "effect list \<Rightarrow> bool" where
  "silent es \<longleftrightarrow> list_all (\<lambda>a. case a of Pause n \<Rightarrow> True | Shows r \<Rightarrow> True | _ \<Rightarrow> False) es"

lemma silent_simps [simp]:
  "silent []" "silent (Pause n # es) = silent es" "silent (Shows r # es) = silent es"
  "silent (es @ fs) = (silent es \<and> silent fs)"
  by (simp_all add: silent_def)

lemma silent_effects:
  assumes "silent es"
  shows "fold apply_effect es w = w" and "fold stop_cont es S = S"
proof -
  have "fold apply_effect es w = w \<and> fold stop_cont es S = S"
    using assms by (induction es) (auto simp: silent_def split: effect.splits)
  then show "fold apply_effect es w = w" and "fold stop_cont es S = S" by simp_all
qed

lemma seconds_simps [simp]:
  "seconds [] = 0" "seconds (Pause n # es) = n + seconds es" "seconds (Set_Semaphore k v # es) = seconds es"
  "seconds (Signal p sig # es) = seconds es" "seconds (Fill_Queue_Mode b # es) = seconds es"
  "seconds (Forked p # es) = seconds es" "seconds (Reaped p # es) = seconds es"
  "seconds (Shows r # es) = seconds es" "seconds (es @ fs) = seconds es + seconds fs"
  by (simp_all add: seconds_def)

lemma watch_Suc: "watch line sec (Suc n) = watch line sec n @ Pause 1 # line n (sec + n + 1)"
  by (simp add: watch_def)

lemma watch_silent: "(\<And>i t. silent (line i t)) \<Longrightarrow> silent (watch line sec n)"
  by (induction n) (simp_all add: watch_Suc, simp add: watch_def)

lemma watch_seconds: "(\<And>i t. seconds (line i t) = 0) \<Longrightarrow> seconds (watch line sec n) = n"
  by (induction n) (simp_all add: watch_Suc, simp add: watch_def)

lemma drain_silent: "silent (drain_loop e figs quiet sec t left)"
  by (induction left arbitrary: t) (simp_all add: Let_def)

lemma stats_silent: "silent (stats_check s)" "seconds (stats_check s) = 0"
  by (simp_all add: stats_check_def)

lemma burst_effects:
  assumes "burst e i left m = (es, m')"
  shows "fold apply_effect es w = w" and "fold stop_cont es S = S" and "seconds es = 0"
    and "g_ticket_office_pids m' = g_ticket_office_pids m"
proof -
  have office: "g_ticket_office_pids n' = g_ticket_office_pids n"
    if "track_passenger_pid a b p n = (r, n')" for a b p n n' r
    using that by (auto simp: track_passenger_pid_def Let_def split: if_splits)
  have "fold apply_effect es w = w \<and> fold stop_cont es S = S \<and> seconds es = 0
      \<and> g_ticket_office_pids m' = g_ticket_office_pids m"
    using assms
  proof (induction left arbitrary: i m es m')
    case (Suc left)
    then show ?case by (auto simp: Let_def dest: office split: if_splits prod.splits)
  qed simp
  then show "fold apply_effect es w = w" and "fold stop_cont es S = S" and "seconds es = 0"
    and "g_ticket_office_pids m' = g_ticket_office_pids m" by simp_all
qed

lemma signal_offices_effects:
  "fold apply_effect (signal_offices sig m) w = w" "seconds (signal_offices sig m) = 0"
  "fold stop_cont (signal_offices SIGCONT m) (fold stop_cont (signal_offices SIGSTOP m) S) \<subseteq> S"
  by (auto simp: signal_offices_def upt_rec)

lemma blocked_seconds: "seconds (test6_blocked e) = 12" "seconds (test7_blocked e) = 15" "seconds (test8_blocked e) = 17"
  by (simp_all add: test6_blocked_def test7_blocked_def test8_blocked_def watch_seconds Let_def)

lemma blocked_effects:
  "fold apply_effect (test6_blocked e) w = w_setval SEM_TICKET_QUEUE_SLOTS MAX_TICKET_QUEUE_REQUESTS w"
  "fold apply_effect (test7_blocked e) w = w_setval SEM_BOARDING_QUEUE_SLOTS MAX_BOARDING_QUEUE_REQUESTS w"
  "fold apply_effect (test8_blocked e) w = w_setval SEM_BOARDING_QUEUE_SLOTS MAX_BOARDING_QUEUE_REQUESTS
     (w_setval SEM_TICKET_QUEUE_SLOTS MAX_TICKET_QUEUE_REQUESTS w)"
  by (simp_all add: test6_blocked_def test7_blocked_def test8_blocked_def silent_effects(1) watch_silent Let_def
      del: config_values)

lemma blocked_stop_cont:
  "fold stop_cont (test6_blocked e) S = S" "fold stop_cont (test7_blocked e) S = S" "fold stop_cont (test8_blocked e) S = S"
  by (simp_all add: test6_blocked_def test7_blocked_def test8_blocked_def silent_effects(2) watch_silent Let_def)

section \<open>The verdict of the drain tests\<close>

text \<open>
  \<open>drain_verdict e since n d\<close>: the effects \<open>d\<close> report the first of the \<open>n\<close> seconds after
  \<open>since\<close> in which everybody is accounted for, and end there, or a time-out after \<open>n\<close> seconds.
\<close>

definition drain_verdict :: "surroundings \<Rightarrow> nat \<Rightarrow> nat \<Rightarrow> effect list \<Rightarrow> bool" where
  "drain_verdict e since n d \<longleftrightarrow>
     (if \<exists>i<n. test_drained (seen_shm e (since + i + 1))
      then Shows Drain_Timeout \<notin> set d \<and> 0 < seconds d \<and> seconds d \<le> n
        \<and> test_drained (seen_shm e (since + seconds d))
        \<and> Shows (Drain_Complete (total_passengers_created (seen_shm e (since + seconds d)))) \<in> set d
        \<and> (\<forall>i. i + 1 < seconds d \<longrightarrow> \<not> test_drained (seen_shm e (since + i + 1)))
      else (\<forall>n. Shows (Drain_Complete n) \<notin> set d) \<and> Shows Drain_Timeout \<in> set d \<and> seconds d = n)"

lemma verdict_here:
  assumes "test_drained (seen_shm e (since + 1))" and "Shows Drain_Timeout \<notin> set l" and "seconds l = 0"
  shows "drain_verdict e since (Suc n)
    (Pause 1 # l @ [Shows (Drain_Complete (total_passengers_created (seen_shm e (since + 1))))])"
  using assms by (auto simp: drain_verdict_def)

lemma verdict_later:
  assumes "\<not> test_drained (seen_shm e (since + 1))" and "drain_verdict e (since + 1) n d"
    and "Shows Drain_Timeout \<notin> set l" and "\<And>k. Shows (Drain_Complete k) \<notin> set l" and "seconds l = 0"
  shows "drain_verdict e since (Suc n) (Pause 1 # l @ d)"
proof -
  let ?P = "\<lambda>i. test_drained (seen_shm e (since + i + 1))"
  have ex: "(\<exists>i<Suc n. ?P i) \<longleftrightarrow> (\<exists>i<n. ?P (Suc i))"
    using assms(1) by (auto simp: less_Suc_eq_0_disj)
  have all: "(\<forall>i. i + 1 < Suc k \<longrightarrow> \<not> ?P i) \<longleftrightarrow> (\<forall>i. i + 1 < k \<longrightarrow> \<not> ?P (Suc i))" if "0 < k" for k
    using assms(1) that by (auto simp: less_Suc_eq_0_disj gr0_conv_Suc)
  show ?thesis
  proof (cases "\<exists>i<n. ?P (Suc i)")
    case True
    with assms(2) have "0 < seconds d" by (simp add: drain_verdict_def)
    with True assms all [OF this] show ?thesis unfolding drain_verdict_def ex by (simp add: algebra_simps)
  next
    case False
    with assms show ?thesis unfolding drain_verdict_def ex by auto
  qed
qed

lemma drain_loop_verdict: "drain_verdict e (sec + t) left (drain_loop e figs quiet sec t left)"
proof (induction left arbitrary: t)
  case 0
  show ?case by (simp add: drain_verdict_def)
next
  case (Suc left)
  let ?s = "seen_shm e (sec + t + 1)"
  define l where "l = (if t mod 5 = 0 \<or> quiet ?s then [Shows (Figures (int t # figs ?s))] else [])"
  have l: "Shows Drain_Timeout \<notin> set l" "Shows (Drain_Complete k) \<notin> set l" "seconds l = 0" for k
    by (simp_all add: l_def)
  have eq: "drain_loop e figs quiet sec t (Suc left) = Pause 1 # l
      @ (if test_drained ?s then [Shows (Drain_Complete (total_passengers_created ?s))]
         else drain_loop e figs quiet sec (t + 1) left)"
    by (simp add: l_def Let_def)
  have "drain_verdict e (sec + t + 1) left (drain_loop e figs quiet sec (t + 1) left)"
    using Suc [of "t + 1"] by (simp add: add.assoc)
  with verdict_here [OF _ l(1,3)] verdict_later [OF _ _ l] show ?case unfolding eq by simp
qed

text \<open>The loop inside a script: \<open>neutral\<close> effects before and after it do not touch the verdict.\<close>

definition neutral :: "effect list \<Rightarrow> bool" where
  "neutral es \<longleftrightarrow> list_all (\<lambda>a. case a of
     Shows r \<Rightarrow> (case r of Drain_Timeout \<Rightarrow> False | Drain_Complete n \<Rightarrow> False | _ \<Rightarrow> True) | _ \<Rightarrow> True) es"

lemma neutralD: "neutral es \<Longrightarrow> Shows Drain_Timeout \<notin> set es" "neutral es \<Longrightarrow> Shows (Drain_Complete n) \<notin> set es"
  by (auto simp: neutral_def list_all_iff)

lemma neutral_append: "neutral (es @ fs) = (neutral es \<and> neutral fs)"
  by (simp add: neutral_def)

lemma neutral_simps: "neutral []" "neutral (Pause n # es) = neutral es" "neutral (Set_Semaphore k v # es) = neutral es"
  "neutral (Shows (Figures fs) # es) = neutral es"
  by (simp_all add: neutral_def)

lemma neutral_watch: "(\<And>i t. neutral (line i t)) \<Longrightarrow> neutral (watch line sec n)"
  by (induction n) (simp_all add: watch_Suc neutral_def, simp add: watch_def)

lemma neutral_blocked: "neutral (test6_blocked e)" "neutral (test7_blocked e)" "neutral (test8_blocked e)"
  unfolding test6_blocked_def test7_blocked_def test8_blocked_def neutral_append
  by (simp_all add: neutral_watch Let_def neutral_simps)

lemma neutral_stats: "neutral (stats_check s)"
  by (simp add: stats_check_def neutral_def)

lemma verdict_in_script:
  assumes "drain_verdict e since n d" and "es = pre @ d @ post" and "seconds pre = since" and "seconds post = 0"
    and "neutral pre" and "neutral post"
  shows "if \<exists>i<n. test_drained (seen_shm e (since + i + 1))
    then Shows Drain_Timeout \<notin> set es \<and> since < seconds es \<and> test_drained (seen_shm e (seconds es))
      \<and> Shows (Drain_Complete (total_passengers_created (seen_shm e (seconds es)))) \<in> set es
      \<and> (\<forall>i. since + i + 1 < seconds es \<longrightarrow> \<not> test_drained (seen_shm e (since + i + 1)))
    else (\<forall>n. Shows (Drain_Complete n) \<notin> set es) \<and> Shows Drain_Timeout \<in> set es \<and> seconds es = since + n"
proof (cases "\<exists>i<n. test_drained (seen_shm e (since + i + 1))")
  case True
  with assms(1) show ?thesis
    using assms(2-4) neutralD [OF assms(5)] neutralD [OF assms(6)] by (simp add: drain_verdict_def)
next
  case False
  with assms(1) have "(\<forall>n. Shows (Drain_Complete n) \<notin> set d) \<and> Shows Drain_Timeout \<in> set d \<and> seconds d = n"
    by (simp add: drain_verdict_def)
  with False show ?thesis
    using assms(2-4) neutralD [OF assms(5)] neutralD [OF assms(6)] by simp
qed

text \<open>
  C34: The verdict of the tests 6 to 8 is the truth about the seconds they watch. The test
  reports the drain exactly if at one of the 120 seconds after the queue was opened again
  nobody is waiting or in the office and the figures add up; it then ends at the first
  such second, and with a time-out after 120 seconds otherwise.
\<close>

theorem drain_tests_report:
  assumes "(test, since) \<in> {(6, 12), (7, 15), (8, 17)}" and "run_test True e test m = (es, m')"
  shows "if \<exists>i<120. test_drained (seen_shm e (since + i + 1))
    then Shows Drain_Timeout \<notin> set es \<and> since < seconds es \<and> test_drained (seen_shm e (seconds es))
      \<and> Shows (Drain_Complete (total_passengers_created (seen_shm e (seconds es)))) \<in> set es
      \<and> (\<forall>i. since + i + 1 < seconds es \<longrightarrow> \<not> test_drained (seen_shm e (since + i + 1)))
    else (\<forall>n. Shows (Drain_Complete n) \<notin> set es) \<and> Shows Drain_Timeout \<in> set es \<and> seconds es = since + 120"
proof -
  note body = verdict_in_script [OF drain_loop_verdict [of e _ 0, simplified], where pre = "_ :: effect list"]
  note blocked = blocked_seconds neutral_blocked
  consider "test = 6" "since = 12" | "test = 7" "since = 15" | "test = 8" "since = 17" using assms(1) by auto
  then show ?thesis
  proof cases
    case 1
    with assms(2) show ?thesis unfolding 1
      by (intro body [where post = "[]"]) (auto simp: blocked run_test_def test6_def neutral_simps)
  next
    case 2
    with assms(2) show ?thesis unfolding 2
      by (intro body [where post = "[]"]) (auto simp: blocked run_test_def test7_def neutral_simps)
  next
    case 3
    with assms(2) show ?thesis unfolding 3
      by (intro body) (auto simp: blocked run_test_def test8_def Let_def stats_silent neutral_stats)
  qed
qed

text \<open>Two passengers, transported at the third second after the queue is open again.\<close>

definition drained_at :: "nat \<Rightarrow> surroundings" where
  "drained_at n = \<lparr>seen_shm = (\<lambda>sec. (init_shared_state 100)\<lparr>total_passengers_created := 2,
        passengers_in_office := (if sec < n then 2 else 0), passengers_transported := (if sec < n then 0 else 2)\<rparr>),
     seen_sem = (\<lambda>_ _. 0), mutex_free = (\<lambda>_. True), queue_stat = (\<lambda>_. None), burst_running = (\<lambda>_. True),
     burst_fork = (\<lambda>_. -1), burst_memory = (\<lambda>_. (True, True))\<rparr>"

lemma drained_at_simp: "test_drained (seen_shm (drained_at n) sec) \<longleftrightarrow> n \<le> sec"
  by (auto simp: drained_at_def test_drained_def accounted_def init_shared_state_def on_bus_def bus_total_unfold init_bus_def)

theorem drain_tests_report_witness:
  "seconds (fst (run_test True (drained_at 15) 6 init_main)) = 15
   \<and> Shows (Drain_Complete 2) \<in> set (fst (run_test True (drained_at 15) 6 init_main))"
proof -
  obtain es m' where r: "run_test True (drained_at 15) 6 init_main = (es, m')" by fastforce
  have "\<exists>i<120. test_drained (seen_shm (drained_at 15) (12 + i + 1))"
    by (intro exI [of _ 2]) (simp add: drained_at_simp)
  with drain_tests_report [OF _ r, of 12] have late: "15 \<le> seconds es"
    and first: "\<forall>i. 12 + i + 1 < seconds es \<longrightarrow> \<not> 15 \<le> 12 + i + 1"
    and shows_it: "Shows (Drain_Complete (total_passengers_created (seen_shm (drained_at 15) (seconds es)))) \<in> set es"
    unfolding drained_at_simp by simp_all
  from first have "12 + 2 + 1 < seconds es \<longrightarrow> \<not> 15 \<le> (12 + 2 + 1 :: nat)" by blast
  with late shows_it r show ?thesis by (simp add: drained_at_def)
qed

section \<open>What is left behind\<close>

lemma test3_effects:
  "fold apply_effect (test3 m) w = w" "fold stop_cont (test3 m) S = S" "seconds (test3 m) = 15"
  by (simp_all add: test3_def replicate_Suc eval_nat_numeral)

lemma test9_effects:
  "fold apply_effect (test9 m) w = w" "fold stop_cont (test9 m) {} = {}" "seconds (test9 m) \<le> 25"
proof -
  have "silent (watch (\<lambda>i sec. []) 5 10)" "seconds (watch (\<lambda>i sec. []) 5 10) = 10"
    by (simp_all add: watch_silent watch_seconds)
  then show "fold apply_effect (test9 m) w = w" "fold stop_cont (test9 m) {} = {}" "seconds (test9 m) \<le> 25"
    by (simp_all add: test9_def silent_effects)
qed

lemma test10_effects:
  "fold apply_effect (test10 attached e m) w = w" "fold stop_cont (test10 attached e m) {} = {}"
  "seconds (test10 attached e m) \<le> 25"
proof -
  define line where "line = (\<lambda>i sec. if \<not> attached then []
               else if mutex_free e sec then
                 (let s = seen_shm e sec in
                  [Shows (Figures [int i + 1, passengers_waiting s, boarded_people s, passengers_transported s,
                     on_bus s, seen_sem e sec SEM_BOARDING_QUEUE_SLOTS])])
               else [Shows Mutex_Busy])"
  have "silent (line i t) \<and> seconds (line i t) = 0" for i t by (simp add: line_def Let_def)
  then have "silent (watch line 5 10)" "seconds (watch line 5 10) = 10"
    by (simp_all add: watch_silent watch_seconds)
  then show "fold apply_effect (test10 attached e m) w = w" "fold stop_cont (test10 attached e m) {} = {}"
    "seconds (test10 attached e m) \<le> 25"
    unfolding test10_def line_def [symmetric] by (simp_all add: silent_effects)
qed

lemma short_effects:
  "fold apply_effect (test1 attached e) w = w" "fold stop_cont (test1 attached e) {} = {}" "seconds (test1 attached e) \<le> 5"
  "fold apply_effect (test2 m) w = w" "fold stop_cont (test2 m) {} = {}" "seconds (test2 m) = 5"
  "fold apply_effect (fst (test4 m)) w = w" "fold stop_cont (fst (test4 m)) {} = {}" "seconds (fst (test4 m)) = 5"
  "fold apply_effect (test5 attached e) w = w" "fold stop_cont (test5 attached e) {} = {}" "seconds (test5 attached e) = 15"
  by (simp_all add: test1_def test2_def test4_def test5_def Let_def stats_silent silent_effects)

lemma test11_effects:
  "fold apply_effect (fst (test11 True e m)) w
     = upd_shm (\<lambda>s. s\<lparr>test_fill_queue := False\<rparr>) (w_setval SEM_TICKET_QUEUE_SLOTS 32767
         (upd_shm (\<lambda>s. s\<lparr>test_fill_queue := True\<rparr>) w))"
  "fold stop_cont (fst (test11 attached e m)) {} = {}"
  "seconds (fst (test11 attached e m)) = 21"
proof -
  obtain es m' where b: "burst e 0 5000 m = (es, m')" by fastforce
  note run = test11_def b Let_def
  show "fold apply_effect (fst (test11 True e m)) w
     = upd_shm (\<lambda>s. s\<lparr>test_fill_queue := False\<rparr>) (w_setval SEM_TICKET_QUEUE_SLOTS 32767
         (upd_shm (\<lambda>s. s\<lparr>test_fill_queue := True\<rparr>) w))"
    by (simp add: run burst_effects(1) [OF b] signal_offices_effects silent_effects(1) watch_silent)
  have "signal_offices SIGCONT m' = signal_offices SIGCONT m"
    using burst_effects(4) [OF b] by (simp add: signal_offices_def)
  then show "fold stop_cont (fst (test11 attached e m)) {} = {}"
    using signal_offices_effects(3) [of m "{}"]
    by (simp add: run burst_effects(2) [OF b] silent_effects(2) watch_silent)
  show "seconds (fst (test11 attached e m)) = 21"
    by (simp add: run burst_effects(3) [OF b] signal_offices_effects watch_seconds)
qed

lemma drain_test_effects:
  "fold apply_effect (test6 True e) w = w_setval SEM_TICKET_QUEUE_SLOTS MAX_TICKET_QUEUE_REQUESTS w"
  "fold apply_effect (test7 True e) w = w_setval SEM_BOARDING_QUEUE_SLOTS MAX_BOARDING_QUEUE_REQUESTS w"
  "fold apply_effect (test8 True e) w = w_setval SEM_BOARDING_QUEUE_SLOTS MAX_BOARDING_QUEUE_REQUESTS
     (w_setval SEM_TICKET_QUEUE_SLOTS MAX_TICKET_QUEUE_REQUESTS w)"
  "fold stop_cont (test6 attached e) {} = {}" "fold stop_cont (test7 attached e) {} = {}"
  "fold stop_cont (test8 attached e) {} = {}"
  by (simp_all add: test6_def test7_def test8_def Let_def blocked_effects blocked_stop_cont
      silent_effects drain_silent stats_silent del: config_values)

lemma drain_loop_seconds: "seconds (drain_loop e figs quiet a b c) \<le> c"
  using drain_loop_verdict [of e a b c figs quiet] by (auto simp: drain_verdict_def split: if_splits)

lemma drain_test_seconds:
  "seconds (test6 attached e) \<le> 132" "seconds (test7 attached e) \<le> 135" "seconds (test8 attached e) \<le> 137"
  using drain_loop_seconds [where c = 120]
  by (simp_all add: test6_def test7_def test8_def Let_def blocked_seconds stats_silent)

lemmas script_effects = short_effects test3_effects drain_test_effects test9_effects test10_effects

lemma nobody_stopped: "fold stop_cont (fst (run_test attached e test m)) {} = {}"
  by (simp add: run_test_def script_effects test11_effects(2))

text \<open>No script runs longer than 137 seconds.\<close>

lemma tests_end: "seconds (fst (run_test attached e test m)) \<le> 137"
proof -
  note bounds = drain_test_seconds test9_effects(3) test10_effects(3) short_effects(3)
  show ?thesis
    unfolding run_test_def using order_trans [OF bounds(1)] order_trans [OF bounds(2)] bounds(3)
      order_trans [OF bounds(4)] order_trans [OF bounds(5)] order_trans [OF bounds(6)]
    by (simp add: short_effects test3_effects test11_effects(3))
qed

text \<open>
  C33: A test script takes back what it did to the system. Every process it stopped has been
  continued, the mode that keeps the dispatcher alive is off again, and the semaphores are
  as they were before the queues were blocked, except that test 11 leaves the slots of the
  ticket queue at 32767.
\<close>

theorem tests_take_back:
  assumes "run_test True e test m = (es, m')" and "ipc_alive w" and "\<not> test_fill_queue (shm w)"
    and "sems w SEM_TICKET_QUEUE_SLOTS = MAX_TICKET_QUEUE_REQUESTS"
    and "sems w SEM_BOARDING_QUEUE_SLOTS = MAX_BOARDING_QUEUE_REQUESTS"
  shows "fold stop_cont es {} = {} \<and> fold apply_effect es (block_queues test w) =
    (if test = 11 then w_setval SEM_TICKET_QUEUE_SLOTS 32767 w else w)"
proof -
  have es: "es = fst (run_test True e test m)" using assms(1) by simp
  have reset: "w_setval n v (w_setval n u w) = w" if "sems w n = v" for n u v
    using that by (simp add: w_setval_def fun_upd_idem)
  have both: "w_setval b y (w_setval a x (w_setval b y' (w_setval a x' w))) = w"
    if "sems w a = x" "sems w b = y" "a \<noteq> b" for a b x y x' y'
    using that by (simp add: w_setval_def fun_upd_idem fun_upd_twist)
  have mode: "upd_shm (\<lambda>s. s\<lparr>test_fill_queue := False\<rparr>) (w_setval n v (upd_shm (\<lambda>s. s\<lparr>test_fill_queue := True\<rparr>) w))
      = w_setval n v w" for n v
    using assms(3) by (cases w) (auto simp: upd_shm_def w_setval_def)
  have "fold apply_effect es (block_queues test w) = (if test = 11 then w_setval SEM_TICKET_QUEUE_SLOTS 32767 w else w)"
    using assms(4,5) unfolding es run_test_def block_queues_def
    by (simp add: script_effects test11_effects(1) mode reset both SEM_TICKET_QUEUE_SLOTS_def SEM_BOARDING_QUEUE_SLOTS_def
        del: config_values)
  then show ?thesis unfolding es by (simp add: nobody_stopped)
qed

theorem tests_take_back_witness:
  "Signal 50 SIGSTOP \<in> set (fst (run_test True (drained_at 0) 9 (init_main\<lparr>g_ticket_office_pids := (\<lambda>_. 50)\<rparr>)))
   \<and> fold stop_cont (fst (run_test True (drained_at 0) 9 (init_main\<lparr>g_ticket_office_pids := (\<lambda>_. 50)\<rparr>))) {} = {}"
proof -
  let ?m = "init_main\<lparr>g_ticket_office_pids := (\<lambda>_. 50)\<rparr>"
  obtain es m' where r: "run_test True (drained_at 0) 9 ?m = (es, m')" by fastforce
  have "fold stop_cont es {} = {}"
    using tests_take_back [OF r, of "\<lparr>shm = init_shared_state 100, sems = initial_sems, ticket_q = [],
        ticket_resp_q = [], boarding_q = [], boarding_resp_q = [], ipc_alive = True\<rparr>"]
    by (simp add: init_shared_state_def initial_sems_def)
  moreover have "Signal 50 SIGSTOP \<in> set (fst (run_test True (drained_at 0) 9 ?m))"
    by (simp add: run_test_def test9_def)
  ultimately show ?thesis using r by simp
qed

end
