(* ===== verification/Main_Run.thy ===== *)
theory Main_Run
  imports Test_Scripts
begin

text \<open>
  The function \<open>main\<close> of src/main.c as a whole: from the command line over the start of the
  processes, the creation of passengers, the test or the monitor, to the termination of the
  children and the removal of the IPC objects, with its early returns. The answers of the
  system are a record; a loop that has not ended when they are used up, or a wait that has
  not returned, yields \<open>None\<close>.
\<close>

section \<open>The answers of the system\<close>








section \<open>The loops\<close>




section \<open>Start and end\<close>



text \<open>In the tests 6 to 8 the queues are blocked before the first passenger, cf. \<open>block_queues\<close>.\<close>

definition block_effects :: "int \<Rightarrow> effect list" where
  "block_effects test =
     (if test = 6 then [Set_Semaphore SEM_TICKET_QUEUE_SLOTS 0]
      else if test = 7 then [Set_Semaphore SEM_BOARDING_QUEUE_SLOTS 0]
      else if test = 8 then [Set_Semaphore SEM_TICKET_QUEUE_SLOTS 0, Set_Semaphore SEM_BOARDING_QUEUE_SLOTS 0]
      else [])"

lemma block_effects_queues: "fold apply_effect (block_effects test) w = block_queues test w"
  by (simp add: block_effects_def block_queues_def)






section \<open>The function main\<close>




section \<open>Nobody is left behind\<close>












































section \<open>The IPC objects are removed\<close>









end
