(* ===== verification/Mutex_Sections.thy ===== *)
theory Mutex_Sections
  imports Statistics
begin

text \<open>
  Why a critical section may be one function on the shared state. The sections that write
  are given here as lists of single loads and stores, in the order of the source; any
  number of threads run such lists, interleaved at every load and store, between the lock
  and the unlock of one semaphore. Whatever the interleaving, the result is that of the
  section functions of the model, applied one after the other in some order that keeps
  the order of every thread. Without the lock updates are lost.
\<close>

section \<open>Threads with a mutex\<close>

type_synonym ('l, 's) stmt = "'l \<times> 's \<Rightarrow> 'l \<times> 's"

definition run_stmts :: "('l, 's) stmt list \<Rightarrow> 'l \<times> 's \<Rightarrow> 'l \<times> 's" where
  "run_stmts rest x = fold (\<lambda>f. f) rest x"

lemma run_stmts_simps [simp]:
  "run_stmts [] x = x" "run_stmts (f # rest) x = run_stmts rest (f x)" "run_stmts (rest @ gs) x = run_stmts gs (run_stmts rest x)"
  by (simp_all add: run_stmts_def)

text \<open>
  A thread has its registers, the sections it has still to enter, and inside a section the
  statements that are left.
\<close>

record ('c, 'l, 's) thread =
  regs :: 'l
  pending :: "'c list"
  inside :: "('l, 's) stmt list option"

record ('c, 'l, 's) machine =
  mutex :: int
  threads :: "('c, 'l, 's) thread list"
  memory :: 's

inductive fine_step ::
  "('c \<Rightarrow> ('l, 's) stmt list) \<Rightarrow> nat \<Rightarrow> ('c, 'l, 's) machine \<Rightarrow> ('c, 'l, 's) machine \<Rightarrow> bool"
  for code where
  lock: "i < length (threads m) \<Longrightarrow> inside (threads m ! i) = None \<Longrightarrow> pending (threads m ! i) = c # cs
    \<Longrightarrow> mutex m > 0
    \<Longrightarrow> fine_step code i m (m\<lparr>mutex := mutex m - 1,
          threads := (threads m)[i := (threads m ! i)\<lparr>pending := cs, inside := Some (code c)\<rparr>]\<rparr>)"
| stmt: "i < length (threads m) \<Longrightarrow> inside (threads m ! i) = Some (f # rest)
    \<Longrightarrow> f (regs (threads m ! i), memory m) = (l, s)
    \<Longrightarrow> fine_step code i m (m\<lparr>threads := (threads m)[i := (threads m ! i)\<lparr>regs := l, inside := Some rest\<rparr>],
          memory := s\<rparr>)"
| unlock: "i < length (threads m) \<Longrightarrow> inside (threads m ! i) = Some []
    \<Longrightarrow> fine_step code i m (m\<lparr>mutex := mutex m + 1,
          threads := (threads m)[i := (threads m ! i)\<lparr>inside := None\<rparr>]\<rparr>)"

definition fine_run :: "('c \<Rightarrow> ('l, 's) stmt list) \<Rightarrow> ('c, 'l, 's) machine \<Rightarrow> ('c, 'l, 's) machine \<Rightarrow> bool" where
  "fine_run code = (\<lambda>m m'. \<exists>i. fine_step code i m m')\<^sup>*\<^sup>*"

text \<open>The next step of thread i, for schedules that are given.\<close>

definition move :: "('c \<Rightarrow> ('l, 's) stmt list) \<Rightarrow> nat \<Rightarrow> ('c, 'l, 's) machine \<Rightarrow> ('c, 'l, 's) machine option" where
  "move code i m =
     (if i \<ge> length (threads m) then None
      else let t = threads m ! i in
      case inside t of
        Some [] \<Rightarrow> Some (m\<lparr>mutex := mutex m + 1, threads := (threads m)[i := t\<lparr>inside := None\<rparr>]\<rparr>)
      | Some (f # rest) \<Rightarrow>
          Some (m\<lparr>threads := (threads m)[i := t\<lparr>regs := fst (f (regs t, memory m)), inside := Some rest\<rparr>],
                  memory := snd (f (regs t, memory m))\<rparr>)
      | None \<Rightarrow>
          (case pending t of
             [] \<Rightarrow> None
           | c # cs \<Rightarrow>
               if mutex m > 0
               then Some (m\<lparr>mutex := mutex m - 1,
                            threads := (threads m)[i := t\<lparr>pending := cs, inside := Some (code c)\<rparr>]\<rparr>)
               else None))"

fun moves :: "('c \<Rightarrow> ('l, 's) stmt list) \<Rightarrow> nat list \<Rightarrow> ('c, 'l, 's) machine \<Rightarrow> ('c, 'l, 's) machine option" where
  "moves code [] m = Some m"
| "moves code (i # is) m = (case move code i m of None \<Rightarrow> None | Some m' \<Rightarrow> moves code is m')"

lemma move_iff: "move code i m = Some m' \<longleftrightarrow> fine_step code i m m'"
proof
  show "move code i m = Some m' \<Longrightarrow> fine_step code i m m'"
    by (auto simp: move_def Let_def split: if_splits option.splits list.splits intro: fine_step.intros)
  show "fine_step code i m m' \<Longrightarrow> move code i m = Some m'"
    by (auto elim!: fine_step.cases simp: move_def Let_def)
qed

lemma moves_run: "moves code is m = Some m' \<Longrightarrow> fine_run code m m'"
proof (induction "is" arbitrary: m)
  case Nil
  then show ?case by (simp add: fine_run_def)
next
  case (Cons i "is")
  then obtain m1 where "fine_step code i m m1" "fine_run code m1 m'"
    by (auto simp: move_iff split: option.splits)
  then show ?case unfolding fine_run_def by (blast intro: converse_rtranclp_into_rtranclp)
qed

section \<open>Mutual exclusion\<close>

definition in_section :: "('c, 'l, 's) thread \<Rightarrow> bool" where
  "in_section t \<longleftrightarrow> inside t \<noteq> None"

text \<open>The semaphore is 1 less the threads inside.\<close>

definition exclusive :: "('c, 'l, 's) machine \<Rightarrow> bool" where
  "exclusive m \<longleftrightarrow> mutex m \<ge> 0 \<and> mutex m + sum_list (map (\<lambda>t. of_bool (in_section t)) (threads m)) = 1"

lemma exclusive_step:
  assumes "fine_step code i m m'" and "exclusive m"
  shows "exclusive m'"
  using assms
  by cases (auto simp: exclusive_def sum_list_map_update in_section_def)

lemma exclusive_one:
  assumes "exclusive m" and "i < length (threads m)" and "j < length (threads m)"
    and "in_section (threads m ! i)" and "in_section (threads m ! j)"
  shows "i = j"
proof -
  have "sum_list (map (\<lambda>t. of_bool (in_section t) :: int) (threads m)) \<le> 1" using assms(1) by (simp add: exclusive_def)
  with at_most_one [of "\<lambda>t. of_bool (in_section t)" "threads m" i j] assms(2-5) show ?thesis by simp
qed

section \<open>The order of the locks is a serial order\<close>

text \<open>The history: which thread has locked for which section; its part for one thread.\<close>

definition calls_of :: "nat \<Rightarrow> (nat \<times> 'c) list \<Rightarrow> 'c list" where
  "calls_of i h = map snd (filter (\<lambda>x. fst x = i) h)"

lemma calls_of_simps [simp]:
  "calls_of i [] = []" "calls_of i (h @ [(j, c)]) = (if i = j then calls_of i h @ [c] else calls_of i h)"
  by (simp_all add: calls_of_def)

definition started :: "('c, 'l, 's) machine \<Rightarrow> bool" where
  "started m \<longleftrightarrow> mutex m = 1 \<and> (\<forall>t \<in> set (threads m). inside t = None)"

definition finished :: "('c, 'l, 's) machine \<Rightarrow> bool" where
  "finished m \<longleftrightarrow> (\<forall>t \<in> set (threads m). inside t = None \<and> pending t = [])"

text \<open>The memory once the thread inside, if any, has run to its unlock.\<close>

definition completes :: "('c, 'l, 's) machine \<Rightarrow> 's \<Rightarrow> bool" where
  "completes m s \<longleftrightarrow> (\<forall>t \<in> set (threads m). inside t = None) \<and> s = memory m
     \<or> (\<exists>i rest. i < length (threads m) \<and> inside (threads m ! i) = Some rest
          \<and> s = snd (run_stmts rest (regs (threads m ! i), memory m)))"

lemma nobody_inside_sum:
  "\<forall>t \<in> set ts. inside t = None \<Longrightarrow> sum_list (map (\<lambda>t. of_bool (in_section t) :: int) ts) = 0"
  by (induction ts) (auto simp: in_section_def)

lemma exclusive_started: "started m \<Longrightarrow> exclusive m"
  by (simp add: exclusive_def started_def nobody_inside_sum)

lemma exclusive_run: "fine_run code m m' \<Longrightarrow> exclusive m \<Longrightarrow> exclusive m'"
  unfolding fine_run_def by (induction rule: rtranclp_induct) (auto intro: exclusive_step)

lemma free_nobody_inside:
  assumes "exclusive m" and "mutex m > 0" and "t \<in> set (threads m)"
  shows "inside t = None"
proof (rule ccontr)
  assume "inside t \<noteq> None"
  obtain i where i: "i < length (threads m)" "t = threads m ! i" using assms(3) by (metis in_set_conv_nth)
  have "of_bool (in_section (threads m ! i)) \<le> sum_list (map (\<lambda>t. of_bool (in_section t) :: int) (threads m))"
    using i by (intro sum_list_map_member_le) auto
  with assms(1,2) \<open>inside t \<noteq> None\<close> i show False by (simp add: exclusive_def in_section_def)
qed

lemma completes_free: "\<forall>t \<in> set (threads m). inside t = None \<Longrightarrow> completes m s \<longleftrightarrow> s = memory m"
  by (auto simp: completes_def dest: nth_mem)

lemma completes_inside:
  assumes "exclusive m" and "i < length (threads m)" and "inside (threads m ! i) = Some rest"
  shows "completes m s \<longleftrightarrow> s = snd (run_stmts rest (regs (threads m ! i), memory m))"
proof -
  have "j = i" if "j < length (threads m)" "inside (threads m ! j) = Some r" for j r
    using exclusive_one [OF assms(1) that(1) assms(2)] that assms(3) by (simp add: in_section_def)
  moreover have "\<not> (\<forall>t \<in> set (threads m). inside t = None)" using assms(3) nth_mem [OF assms(2)] by auto
  ultimately have "completes m s \<longleftrightarrow> (\<exists>r. inside (threads m ! i) = Some r
      \<and> s = snd (run_stmts r (regs (threads m ! i), memory m)))"
    unfolding completes_def using assms(2) by blast
  with assms(3) show ?thesis by simp
qed

lemma exclusive_can_move:
  assumes ex: "exclusive m" and "\<not> finished m"
  shows "\<exists>i m'. fine_step code i m m'"
proof -
  obtain t where t: "t \<in> set (threads m)" "inside t \<noteq> None \<or> pending t \<noteq> []" using assms(2) by (auto simp: finished_def)
  show ?thesis
  proof (cases "\<exists>t \<in> set (threads m). inside t \<noteq> None")
    case True
    then obtain i rest where "i < length (threads m)" "inside (threads m ! i) = Some rest"
      by (metis in_set_conv_nth not_None_eq)
    then have "move code i m \<noteq> None" by (simp add: move_def Let_def split: list.split)
    then show ?thesis by (metis move_iff option.exhaust)
  next
    case False
    with ex have "mutex m = 1" by (simp add: exclusive_def nobody_inside_sum)
    moreover obtain i where "i < length (threads m)" "threads m ! i = t" using t(1) by (metis in_set_conv_nth)
    ultimately have "move code i m \<noteq> None" using False t by (auto simp: move_def Let_def split: list.split)
    then show ?thesis by (metis move_iff option.exhaust)
  qed
qed

locale serial_sections =
  fixes code :: "'c \<Rightarrow> ('l, 's) stmt list" and effect :: "'c \<Rightarrow> 's \<Rightarrow> 's"
  assumes code_effect: "snd (run_stmts (code c) (l, s)) = effect c s"
begin

definition serial :: "('c, 'l, 's) machine \<Rightarrow> ('c, 'l, 's) machine \<Rightarrow> (nat \<times> 'c) list \<Rightarrow> bool" where
  "serial m0 m h \<longleftrightarrow> length (threads m) = length (threads m0)
     \<and> (\<forall>x \<in> set h. fst x < length (threads m0))
     \<and> (\<forall>i < length (threads m0). pending (threads m0 ! i) = calls_of i h @ pending (threads m ! i))
     \<and> completes m (fold (\<lambda>x. effect (snd x)) h (memory m0))"

lemma serial_step:
  assumes "fine_step code k m m'" and "exclusive m" and "serial m0 m h"
  shows "\<exists>h'. serial m0 m' h'"
  using assms(1)
proof cases
  case (lock c cs)
  have ex: "exclusive m'" using exclusive_step [OF assms(1,2)] .
  have "\<forall>t \<in> set (threads m). inside t = None" using free_nobody_inside [OF assms(2) lock(5)] by blast
  from completes_free [OF this] have "fold (\<lambda>x. effect (snd x)) h (memory m0) = memory m"
    using assms(3) by (simp add: serial_def)
  moreover have "completes m' (effect c (memory m))"
    using completes_inside [OF ex, of k "code c"] lock(1,2) by (simp add: code_effect)
  ultimately have "completes m' (fold (\<lambda>x. effect (snd x)) (h @ [(k, c)]) (memory m0))" by simp
  moreover have "pending (threads m0 ! i) = calls_of i (h @ [(k, c)]) @ pending (threads m' ! i)"
    if "i < length (threads m0)" for i
    using assms(3) that lock(1,2,4) by (cases "i = k") (simp_all add: serial_def)
  ultimately have "serial m0 m' (h @ [(k, c)])" using assms(3) lock(1,2) by (auto simp: serial_def)
  then show ?thesis by blast
next
  case (stmt f rest l s)
  have ex: "exclusive m'" using exclusive_step [OF assms(1,2)] .
  have "completes m' (fold (\<lambda>x. effect (snd x)) h (memory m0))"
    using assms(3) completes_inside [OF assms(2) stmt(2,3)] completes_inside [OF ex, of k rest] stmt(1,2,4)
    by (simp add: serial_def)
  moreover have "pending (threads m' ! i) = pending (threads m ! i)" for i
    using stmt(1,2) by (cases "i = k") simp_all
  ultimately have "serial m0 m' h" using assms(3) stmt(1) by (simp add: serial_def)
  then show ?thesis by blast
next
  case unlock
  have "inside (threads m' ! i) = None" if "i < length (threads m)" for i
    using exclusive_one [OF assms(2) that unlock(2)] that unlock
    by (cases "i = k"; cases "inside (threads m ! i)") (auto simp: in_section_def)
  then have "\<forall>t \<in> set (threads m'). inside t = None" using unlock(1) by (auto simp: in_set_conv_nth)
  from completes_free [OF this] have "completes m' (fold (\<lambda>x. effect (snd x)) h (memory m0))"
    using assms(3) completes_inside [OF assms(2) unlock(2,3)] unlock(1) by (simp add: serial_def)
  moreover have "pending (threads m' ! i) = pending (threads m ! i)" for i
    using unlock(1,2) by (cases "i = k") simp_all
  ultimately have "serial m0 m' h" using assms(3) unlock(1) by (simp add: serial_def)
  then show ?thesis by blast
qed

lemma serial_run:
  assumes "fine_run code m0 m" and "started m0"
  shows "\<exists>h. serial m0 m h"
  using assms(1) unfolding fine_run_def
proof (induction rule: rtranclp_induct)
  case base
  have "serial m0 m0 []" using assms(2) by (simp add: serial_def completes_def started_def)
  then show ?case by blast
next
  case (step u v)
  then have "exclusive u" using exclusive_run [of code m0 u] exclusive_started [OF assms(2)] by (simp add: fine_run_def)
  with step serial_step show ?case by blast
qed

lemma finished_serial:
  assumes "fine_run code m0 m" and "started m0" and "finished m"
  shows "\<exists>h. (\<forall>x \<in> set h. fst x < length (threads m0))
    \<and> (\<forall>i < length (threads m0). pending (threads m0 ! i) = calls_of i h)
    \<and> memory m = fold (\<lambda>x. effect (snd x)) h (memory m0)"
proof -
  obtain h where h: "serial m0 m h" using serial_run [OF assms(1,2)] by blast
  have "fold (\<lambda>x. effect (snd x)) h (memory m0) = memory m"
    using h assms(3) by (fastforce simp: serial_def completes_def finished_def dest: nth_mem)
  moreover have "pending (threads m ! i) = []" if "i < length (threads m)" for i
    using assms(3) nth_mem [OF that] by (simp add: finished_def)
  ultimately show ?thesis using h by (auto simp: serial_def)
qed

lemma not_stuck: "fine_run code m0 m \<Longrightarrow> started m0 \<Longrightarrow> \<not> finished m \<Longrightarrow> \<exists>i m'. fine_step code i m m'"
  using exclusive_can_move exclusive_run exclusive_started by blast

end

section \<open>The death of a thread\<close>





section \<open>The sections as loads and stores\<close>

text \<open>
  Two registers: one for the load and store of \<open>x += n\<close>, one for a local variable of the
  section. \<open>can_board\<close> and the search for the next bus only read; each is one statement.
\<close>

type_synonym shm_stmt = "(int \<times> int, shm_data_t) stmt"

definition load :: "(shm_data_t \<Rightarrow> int) \<Rightarrow> shm_stmt" where
  "load get = (\<lambda>((r, v), s). ((get s, v), s))"

definition local :: "(shm_data_t \<Rightarrow> int) \<Rightarrow> shm_stmt" where
  "local get = (\<lambda>((r, v), s). ((r, get s), s))"

definition store :: "(int \<Rightarrow> int \<Rightarrow> shm_data_t \<Rightarrow> shm_data_t) \<Rightarrow> shm_stmt" where
  "store put = (\<lambda>((r, v), s). ((r, v), put r v s))"

definition put_bus :: "nat \<Rightarrow> (int \<Rightarrow> int \<Rightarrow> bus_state_t \<Rightarrow> bus_state_t) \<Rightarrow> shm_stmt" where
  "put_bus b f = store (\<lambda>r v. upd_bus b (f r v))"

definition boarding_check_code :: "nat \<Rightarrow> boarding_msg_t \<Rightarrow> shm_stmt list" where
  "boarding_check_code b m =
     [local (\<lambda>s. of_bool (fst (can_board b s m))),
      load (\<lambda>s. entering_count (buses s b)),
      put_bus b (\<lambda>r v u. if v = 1 then u\<lparr>entering_count := r + 1\<rparr> else u)]"

definition boarding_commit_code :: "nat \<Rightarrow> boarding_msg_t \<Rightarrow> shm_stmt list" where
  "boarding_commit_code b m =
     (let p = bm_passenger m; seats = seats_of p in
      [load (\<lambda>s. passenger_count (buses s b)), put_bus b (\<lambda>r v u. u\<lparr>passenger_count := r + seats\<rparr>)]
      @ (if has_bike p
         then [load (\<lambda>s. bike_count (buses s b)), put_bus b (\<lambda>r v u. u\<lparr>bike_count := r + 1\<rparr>)] else [])
      @ [load (\<lambda>s. entering_count (buses s b)), put_bus b (\<lambda>r v u. u\<lparr>entering_count := r - 1\<rparr>),
         load passengers_waiting, store (\<lambda>r v s. s\<lparr>passengers_waiting := r - seats\<rparr>),
         load passengers_waiting, store (\<lambda>r v s. if r < 0 then s\<lparr>passengers_waiting := 0\<rparr> else s),
         load boarded_people, store (\<lambda>r v s. s\<lparr>boarded_people := r + seats\<rparr>)]
      @ (if is_vip p
         then [load boarded_vip_people, store (\<lambda>r v s. s\<lparr>boarded_vip_people := r + seats\<rparr>)] else []))"

definition depart_leave_code :: "nat \<Rightarrow> int \<Rightarrow> nat \<Rightarrow> shm_stmt list" where
  "depart_leave_code draw t b =
     [put_bus b (\<lambda>r v u. u\<lparr>boarding_open := False\<rparr>), put_bus b (\<lambda>r v u. u\<lparr>at_station := False\<rparr>),
      put_bus b (\<lambda>r v u. u\<lparr>return_time := t + return_delay draw\<rparr>),
      local (\<lambda>s. passenger_count (buses s b)),
      load passengers_transported, store (\<lambda>r v s. s\<lparr>passengers_transported := r + v\<rparr>)]"

definition depart_return_code :: "cfg \<Rightarrow> int \<Rightarrow> nat \<Rightarrow> shm_stmt list" where
  "depart_return_code c t b =
     [put_bus b (\<lambda>r v u. u\<lparr>at_station := True\<rparr>), put_bus b (\<lambda>r v u. u\<lparr>passenger_count := 0\<rparr>),
      put_bus b (\<lambda>r v u. u\<lparr>bike_count := 0\<rparr>), put_bus b (\<lambda>r v u. u\<lparr>boarding_open := True\<rparr>),
      put_bus b (\<lambda>r v u. u\<lparr>departure_time := t + boarding_interval c\<rparr>),
      local active_bus_id,
      load (\<lambda>s. of_bool (at_station (buses s (nat (active_bus_id s))))),
      store (\<lambda>r v s. if v < 0 \<or> r = 0 then s\<lparr>active_bus_id := int b\<rparr> else s)]"

definition driver_poll_code :: "cfg \<Rightarrow> int \<Rightarrow> nat \<Rightarrow> bool \<Rightarrow> shm_stmt list" where
  "driver_poll_code c t b was_active =
     [local (\<lambda>s. of_bool (at_station (buses s b))), load active_bus_id,
      put_bus b (\<lambda>r v u. if r = int b \<and> \<not> was_active \<and> v = 1
                         then u\<lparr>departure_time := t + boarding_interval c\<rparr> else u)]"

definition switch_active_code :: "nat \<Rightarrow> shm_stmt list" where
  "switch_active_code b =
     [local (find_next_bus b), store (\<lambda>r v s. s\<lparr>active_bus_id := (if v \<ge> 0 then v else -1)\<rparr>)]"

definition ticket_decide_code :: "ticket_msg_t \<Rightarrow> shm_stmt list" where
  "ticket_decide_code m =
     (let p = tm_passenger m in
      if \<not> validate_passenger p
      then [load tickets_denied, store (\<lambda>r v s. s\<lparr>tickets_denied := r + 1\<rparr>),
            load passengers_in_office, store (\<lambda>r v s. s\<lparr>passengers_in_office := r - 1\<rparr>)]
      else [load tickets_issued, store (\<lambda>r v s. s\<lparr>tickets_issued := r + 1\<rparr>),
            load tickets_sold_people, store (\<lambda>r v s. s\<lparr>tickets_sold_people := r + seats_of p\<rparr>),
            load passengers_in_office, store (\<lambda>r v s. s\<lparr>passengers_in_office := r - 1\<rparr>)])"

definition drain_count_code :: "shm_stmt list" where
  "drain_count_code =
     [load passengers_in_office, store (\<lambda>r v s. s\<lparr>passengers_in_office := r - 1\<rparr>),
      load tickets_denied, store (\<lambda>r v s. s\<lparr>tickets_denied := r + 1\<rparr>)]"

definition count_created_code :: "passenger_info_t \<Rightarrow> shm_stmt list" where
  "count_created_code g =
     [load total_passengers_created, store (\<lambda>r v s. s\<lparr>total_passengers_created := r + seat_count g\<rparr>),
      load adults_created, store (\<lambda>r v s. s\<lparr>adults_created := r + 1\<rparr>)]
     @ (if has_child_with g then [load children_created, store (\<lambda>r v s. s\<lparr>children_created := r + 1\<rparr>)] else [])
     @ (if is_vip g
        then [load vip_people_created, store (\<lambda>r v s. s\<lparr>vip_people_created := r + seat_count g\<rparr>)] else [])"

definition office_change_code :: "int \<Rightarrow> shm_stmt list" where
  "office_change_code n = [load passengers_in_office, store (\<lambda>r v s. s\<lparr>passengers_in_office := r + n\<rparr>)]"

definition count_left_early_code :: "passenger_info_t \<Rightarrow> shm_stmt list" where
  "count_left_early_code g = [load passengers_left_early, store (\<lambda>r v s. s\<lparr>passengers_left_early := r + seat_count g\<rparr>)]"

definition station_enter_code :: "passenger_info_t \<Rightarrow> shm_stmt list" where
  "station_enter_code g =
     [local (\<lambda>s. of_bool (station_open s)), load passengers_waiting,
      store (\<lambda>r v s. if v = 1 then s\<lparr>passengers_waiting := r + seat_count g\<rparr> else s)]"

definition leave_station_code :: "passenger_info_t \<Rightarrow> shm_stmt list" where
  "leave_station_code g =
     [load passengers_waiting, store (\<lambda>r v s. s\<lparr>passengers_waiting := r - seat_count g\<rparr>),
      load passengers_waiting, store (\<lambda>r v s. if r < 0 then s\<lparr>passengers_waiting := 0\<rparr> else s)]
     @ count_left_early_code g"

definition close_station_code :: "shm_stmt list" where
  "close_station_code =
     [local (\<lambda>s. of_bool (station_closed s)),
      store (\<lambda>r v s. if v = 0 then s\<lparr>station_closed := True\<rparr> else s),
      store (\<lambda>r v s. if v = 0 then s\<lparr>station_open := False\<rparr> else s),
      store (\<lambda>r v s. if v = 0 then s\<lparr>spawning_stopped := True\<rparr> else s)]"

datatype section_call =
    Check_Boarding nat boarding_msg_t | Commit_Boarding nat boarding_msg_t
  | Leave_Stop nat int nat | Come_Back cfg int nat | Poll cfg int nat bool | Switch_Active nat
  | Decide_Ticket nat ticket_msg_t | Drain_One
  | Count_Created passenger_info_t | Enter_Office | Abort_Office | Count_Left_Early passenger_info_t
  | Enter_Station passenger_info_t | Leave_Station passenger_info_t | Close_Station

fun section_code :: "section_call \<Rightarrow> shm_stmt list" where
  "section_code (Check_Boarding b m) = boarding_check_code b m"
| "section_code (Commit_Boarding b m) = boarding_commit_code b m"
| "section_code (Leave_Stop q t b) = depart_leave_code q t b"
| "section_code (Come_Back c t b) = depart_return_code c t b"
| "section_code (Poll c t b a) = driver_poll_code c t b a"
| "section_code (Switch_Active b) = switch_active_code b"
| "section_code (Decide_Ticket k m) = ticket_decide_code m"
| "section_code Drain_One = drain_count_code"
| "section_code (Count_Created g) = count_created_code g"
| "section_code Enter_Office = office_change_code 1"
| "section_code Abort_Office = office_change_code (-1)"
| "section_code (Count_Left_Early g) = count_left_early_code g"
| "section_code (Enter_Station g) = station_enter_code g"
| "section_code (Leave_Station g) = leave_station_code g"
| "section_code Close_Station = close_station_code"

text \<open>The same sections as functions of the model.\<close>

fun section_effect :: "section_call \<Rightarrow> shm_data_t \<Rightarrow> shm_data_t" where
  "section_effect (Check_Boarding b m) s = snd (boarding_check b m s)"
| "section_effect (Commit_Boarding b m) s = boarding_commit b m s"
| "section_effect (Leave_Stop q t b) s = depart_leave q t b s"
| "section_effect (Come_Back c t b) s = depart_return c t b s"
| "section_effect (Poll c t b a) s = snd (driver_poll c t b a s)"
| "section_effect (Switch_Active b) s = switch_active b s"
| "section_effect (Decide_Ticket k m) s = snd (ticket_decide k m s)"
| "section_effect Drain_One s = drain_count s"
| "section_effect (Count_Created g) s = count_created g s"
| "section_effect Enter_Office s = office_enter s"
| "section_effect Abort_Office s = office_abort s"
| "section_effect (Count_Left_Early g) s = count_left_early g s"
| "section_effect (Enter_Station g) s = station_enter g s"
| "section_effect (Leave_Station g) s = leave_station g s"
| "section_effect Close_Station s = (if station_closed s then s else close_station s)"

lemma stmt_simps:
  "load get (l, s) = ((get s, snd l), s)" "local get (l, s) = ((fst l, get s), s)"
  "store put (l, s) = (l, put (fst l) (snd l) s)" "put_bus b f (l, s) = (l, upd_bus b (f (fst l) (snd l)) s)"
  by (simp_all add: load_def local_def store_def put_bus_def case_prod_beta)

lemmas driver_code_defs = boarding_check_code_def boarding_commit_code_def depart_leave_code_def
  depart_return_code_def driver_poll_code_def switch_active_code_def

lemmas other_code_defs = ticket_decide_code_def drain_count_code_def count_created_code_def office_change_code_def
  count_left_early_code_def station_enter_code_def leave_station_code_def close_station_code_def

lemmas section_effect_defs = boarding_check_def boarding_commit_def depart_leave_def depart_return_def
  driver_poll_def switch_active_def ticket_decide_def drain_count_def count_created_def office_enter_def
  office_abort_def count_left_early_def station_enter_def leave_station_def close_station_def

lemma section_code_effect: "snd (run_stmts (section_code a) (l, s)) = section_effect a s"
  by (cases a) (simp_all add: driver_code_defs other_code_defs section_effect_defs stmt_simps upd_bus_def Let_def
      case_prod_beta)

interpretation program: serial_sections section_code section_effect
  by unfold_locales (rule section_code_effect)

section \<open>The sections are serial\<close>

definition start_sections :: "int \<Rightarrow> section_call list list \<Rightarrow> shm_data_t \<Rightarrow> (section_call, int \<times> int, shm_data_t) machine" where
  "start_sections permits calls s =
     \<lparr>mutex = permits, threads = map (\<lambda>cs. \<lparr>regs = (0, 0), pending = cs, inside = None\<rparr>) calls, memory = s\<rparr>"

text \<open>
  C10: The critical sections are atomic. Let any number of processes run any sequences of
  the program's writing sections, interleaved at every load and store, each section
  between the lock and the unlock of the mutex. As long as not everybody has finished
  somebody can go on, and when all have finished the shared state is what the section
  functions of the model make of it, applied one at a time in an order that contains
  the sections of each process in its own order.
\<close>

theorem sections_serializable:
  assumes "fine_run section_code (start_sections 1 calls s) m"
  shows "if finished m
    then \<exists>h. (\<forall>x \<in> set h. fst x < length calls) \<and> (\<forall>i < length calls. calls_of i h = calls ! i)
      \<and> memory m = fold (\<lambda>x. section_effect (snd x)) h s
    else \<exists>i m'. fine_step section_code i m m'"
proof -
  have start: "started (start_sections 1 calls s)" by (auto simp: started_def start_sections_def)
  show ?thesis
  proof (cases "finished m")
    case True
    from program.finished_serial [OF assms start this] show ?thesis
      unfolding if_P [OF True] by (auto simp: start_sections_def)
  next
    case False
    with program.not_stuck [OF assms start] show ?thesis by simp
  qed
qed

definition two_people :: passenger_info_t where
  "two_people = \<lparr>pid = 300, age = 30, has_bike = False, is_vip = False, has_ticket = True, is_child = False, has_child_with = True,
     child_age = 5, seat_count = 2, assigned_bus = 0\<rparr>"

text \<open>
  Two passengers give up at the same time. With two permits instead of one, so that both are
  inside at once, one of the updates is lost.
\<close>

lemma lost_update:
  "map_option (\<lambda>m. passengers_left_early (memory m))
     (moves section_code [0, 1, 0, 1, 0, 1, 0, 1]
        (start_sections 2 [[Count_Left_Early two_people], [Count_Left_Early two_people]] (init_shared_state 100))) = Some 2"
  by code_simp

definition sections_run :: "nat list" where
  "sections_run = [1, 1, 1, 1, 0, 0, 0, 0]"

theorem sections_serializable_witness:
  "\<exists>m h. moves section_code sections_run
       (start_sections 1 [[Enter_Office], [Count_Left_Early two_people]] (init_shared_state 100)) = Some m
     \<and> calls_of 0 h = [Enter_Office] \<and> passengers_left_early (memory m) = 2
     \<and> memory m = fold (\<lambda>x. section_effect (snd x)) h (init_shared_state 100)"
proof -
  let ?start = "start_sections 1 [[Enter_Office], [Count_Left_Early two_people]] (init_shared_state 100)"
  have "map_option (\<lambda>m. (map (\<lambda>t. (inside t = None, length (pending t))) (threads m), passengers_left_early (memory m)))
      (moves section_code sections_run ?start) = Some ([(True, 0), (True, 0)], 2)" by code_simp
  then obtain m where m: "moves section_code sections_run ?start = Some m"
    and ts: "map (\<lambda>t. (inside t = None, length (pending t))) (threads m) = [(True, 0), (True, 0)]"
    and left: "passengers_left_early (memory m) = 2" by auto
  have "finished m" using ts by (auto simp: finished_def map_eq_Cons_conv)
  with sections_serializable [OF moves_run [OF m]] obtain h where
    "\<forall>i < length [[Enter_Office], [Count_Left_Early two_people]].
       calls_of i h = [[Enter_Office], [Count_Left_Early two_people]] ! i"
    "memory m = fold (\<lambda>x. section_effect (snd x)) h (init_shared_state 100)" by auto
  then have "calls_of 0 h = [Enter_Office]" by simp
  with m left \<open>memory m = _\<close> show ?thesis by blast
qed

section \<open>A killed holder stops everybody\<close>



end
