(* ===== verification/Blocked_Queues.thy ===== *)
theory Blocked_Queues
  imports Bounds Scenario Main_Run
begin

text \<open>
  The tests 6 to 8 in the running system: \<open>main\<close> sets the slots of a request queue to zero
  before the first passenger, and the script sets them back to a constant while all
  processes run. The states of such a run are states of the ordinary system with the
  slots put back, so everything shown of reachable states holds for them as well.
\<close>

section \<open>The system with a test script\<close>

text \<open>
  A state is a system with the semaphores that are blocked. The values are those of the
  effects of \<open>main\<close>, before the first passenger, and of the script, which runs after
  them. Test 11, which raises the slots of a queue that is not blocked, is left out.
\<close>

inductive test_step :: "cfg \<Rightarrow> int \<Rightarrow> nat set \<times> system \<Rightarrow> nat set \<times> system \<Rightarrow> bool"
  for c :: cfg and test :: int where
  run: "sys_step c s t \<Longrightarrow> test_step c test (B, s) (B, t)"
| block: "Set_Semaphore n v \<in> set (block_effects test) \<Longrightarrow> ps s = [] \<Longrightarrow>
    test_step c test (B, s) (insert n B, s\<lparr>wrld := w_setval n v (wrld s)\<rparr>)"
| unblock: "Set_Semaphore n v \<in> set (fst (run_test True e test m)) \<Longrightarrow> n \<in> B \<Longrightarrow>
    test_step c test (B, s) (B - {n}, s\<lparr>wrld := w_setval n v (wrld s)\<rparr>)"

text \<open>The same world with the slots of the blocked queues put back.\<close>

definition uncover :: "nat set \<Rightarrow> world \<Rightarrow> world" where
  "uncover B w = w\<lparr>sems := (\<lambda>n. if n \<in> B then initial_sems n else sems w n)\<rparr>"

definition uncovered :: "nat set \<Rightarrow> system \<Rightarrow> system" where
  "uncovered B s = s\<lparr>wrld := uncover B (wrld s)\<rparr>"

lemma uncover_simps [simp]:
  "shm (uncover B w) = shm w" "ticket_q (uncover B w) = ticket_q w"
  "ticket_resp_q (uncover B w) = ticket_resp_q w" "boarding_q (uncover B w) = boarding_q w"
  "boarding_resp_q (uncover B w) = boarding_resp_q w" "ipc_alive (uncover B w) = ipc_alive w"
  "sems (uncover B w) n = (if n \<in> B then initial_sems n else sems w n)"
  "uncover {} w = w"
  by (simp_all add: uncover_def)

lemma uncover_update [simp]:
  "uncover B (w\<lparr>shm := x\<rparr>) = (uncover B w)\<lparr>shm := x\<rparr>"
  "uncover B (w\<lparr>ticket_q := q\<rparr>) = (uncover B w)\<lparr>ticket_q := q\<rparr>"
  "uncover B (w\<lparr>ticket_resp_q := q\<rparr>) = (uncover B w)\<lparr>ticket_resp_q := q\<rparr>"
  "uncover B (w\<lparr>boarding_q := b\<rparr>) = (uncover B w)\<lparr>boarding_q := b\<rparr>"
  "uncover B (w\<lparr>boarding_resp_q := b\<rparr>) = (uncover B w)\<lparr>boarding_resp_q := b\<rparr>"
  "uncover B (w\<lparr>ipc_alive := a\<rparr>) = (uncover B w)\<lparr>ipc_alive := a\<rparr>"
  "uncover B (upd_shm f w) = upd_shm f (uncover B w)"
  by (auto simp: uncover_def upd_shm_def fun_eq_iff intro!: world.equality)

lemma uncovered_simps [simp]:
  "wrld (uncovered B s) = uncover B (wrld s)" "ps (uncovered B s) = ps s" "ds (uncovered B s) = ds s"
  "fs (uncovered B s) = fs s" "dx (uncovered B s) = dx s" "uncovered {} s = s"
  by (simp_all add: uncovered_def)

lemma uncover_sems:
  "n \<notin> B \<Longrightarrow> uncover B (w\<lparr>sems := (sems w)(n := v)\<rparr>) = (uncover B w)\<lparr>sems := (sems (uncover B w))(n := v)\<rparr>"
  by (auto simp: uncover_def fun_eq_iff intro!: world.equality)

lemma uncover_set:
  "n \<in> B \<Longrightarrow> uncover B (w\<lparr>sems := (sems w)(n := v)\<rparr>) = uncover B w"
  by (auto simp: uncover_def fun_eq_iff intro!: world.equality)

section \<open>One step of each process\<close>

text \<open>The blocked semaphores are at zero and stay so.\<close>

definition still_blocked :: "nat set \<Rightarrow> world \<Rightarrow> world \<Rightarrow> bool" where
  "still_blocked B w w' \<longleftrightarrow> (\<forall>n \<in> B. n \<in> {SEM_TICKET_QUEUE_SLOTS, SEM_BOARDING_QUEUE_SLOTS}
     \<and> sems w n = 0 \<and> sems w' n = 0)"

lemma lock_uncovered:
  assumes "w_lock n w = Some (ok, w')" and "ipc_alive w" and "still_blocked B w w'"
  shows "w_lock n (uncover B w) = Some (ok, uncover B w')"
proof -
  from assms have "n \<notin> B" by (auto simp: w_lock_Some still_blocked_def)
  with assms(1,2) show ?thesis by (auto simp: w_lock_eq uncover_sems split: if_splits)
qed

lemma unlock_uncovered:
  assumes "still_blocked B w (w_unlock n w)" and "ipc_alive w"
  shows "w_unlock n (uncover B w) = uncover B (w_unlock n w)"
proof -
  from assms have "n \<notin> B" by (auto simp: w_unlock_eq still_blocked_def)
  with assms(2) show ?thesis by (auto simp: w_unlock_eq uncover_sems)
qed

lemma setval_uncovered:
  assumes "n \<notin> B"
  shows "w_setval n v (uncover B w) = uncover B (w_setval n v w)"
  using assms by (auto simp: w_setval_def uncover_sems)

lemma send_uncovered [simp]:
  "send_ticket m (uncover B w) = map_prod id (uncover B) (send_ticket m w)"
  "send_ticket_resp m (uncover B w) = map_prod id (uncover B) (send_ticket_resp m w)"
  "send_boarding b (uncover B w) = map_prod id (uncover B) (send_boarding b w)"
  "send_boarding_resp b (uncover B w) = map_prod id (uncover B) (send_boarding_resp b w)"
  by (simp_all add: send_ticket_def send_ticket_resp_def send_boarding_def send_boarding_resp_def)

lemma recv_uncovered [simp]:
  "recv_ticket t (uncover B w) = map_option (map_prod id (uncover B)) (recv_ticket t w)"
  "recv_ticket_resp t (uncover B w) = map_option (map_prod id (uncover B)) (recv_ticket_resp t w)"
  "recv_boarding t (uncover B w) = map_option (map_prod id (uncover B)) (recv_boarding t w)"
  "recv_boarding_resp t (uncover B w) = map_option (map_prod id (uncover B)) (recv_boarding_resp t w)"
  "recv_ticket_nowait t (uncover B w) = map_prod id (uncover B) (recv_ticket_nowait t w)"
  by (auto simp: recv_ticket_def recv_ticket_resp_def recv_boarding_def recv_boarding_resp_def
      recv_ticket_nowait_def split: option.split)

lemma passenger_uncovered:
  assumes "passenger_step e p w = Some (p', w')" and "ipc_alive w" and "still_blocked B w w'"
  shows "passenger_step e p (uncover B w) = Some (p', uncover B w')"
  using assms
  by (cases "p_pc p")
    (auto simp: passenger_code lock_uncovered unlock_uncovered split: if_splits option.splits prod.splits)

lemma driver_uncovered:
  assumes "driver_step c e b d w = Some (d', w')" and "ipc_alive w" and "still_blocked B w w'"
  shows "driver_step c e b d (uncover B w) = Some (d', uncover B w')"
  using assms
  by (cases "d_pc d")
    (auto simp: driver_code lock_uncovered unlock_uncovered split: if_splits option.splits prod.splits)

lemma office_uncovered:
  assumes "office_step e k f w = Some (f', w')" and "ipc_alive w" and "still_blocked B w w'"
  shows "office_step e k f (uncover B w) = Some (f', uncover B w')"
  using assms
  by (cases "o_pc f")
    (auto simp: office_code lock_uncovered unlock_uncovered split: if_splits option.splits prod.splits)

lemma dispatcher_uncovered:
  assumes "dispatcher_step c e dead x w = Some (x', w', sig)" and "still_blocked B w w'"
    and "SEM_TICKET_QUEUE_SLOTS \<in> B \<Longrightarrow> x_pc x \<noteq> X_SetSlots"
  shows "dispatcher_step c e dead x (uncover B w) = Some (x', uncover B w', sig)"
proof -
  have entry: "2 \<notin> B" using assms(2) by (auto simp: still_blocked_def)
  have slots: "x_pc x = X_SetSlots \<Longrightarrow> 9 \<notin> B" using assms(3) by auto
  show ?thesis
    using assms(1) entry slots
    by (cases "x_pc x") (auto simp: dispatcher_step_def setval_uncovered split: if_splits)
qed

section \<open>Nobody holds a slot of a blocked queue\<close>

definition blocked_zero :: "nat set \<Rightarrow> system \<Rightarrow> bool" where
  "blocked_zero B s \<longleftrightarrow> (\<forall>n \<in> B. n \<in> {SEM_TICKET_QUEUE_SLOTS, SEM_BOARDING_QUEUE_SLOTS} \<and> sems (wrld s) n = 0)"

definition no_tokens :: "nat set \<Rightarrow> system \<Rightarrow> bool" where
  "no_tokens B s \<longleftrightarrow>
     (SEM_TICKET_QUEUE_SLOTS \<in> B \<longrightarrow> ticket_q (wrld s) = []
        \<and> (\<forall>p \<in> set (ps s). ticket_slot (p_pc p) = 0) \<and> (\<forall>f \<in> set (fs s). office_slot (o_pc f) = 0))
   \<and> (SEM_BOARDING_QUEUE_SLOTS \<in> B \<longrightarrow> (\<forall>p \<in> set (ps s). board_slot (p_pc p) = 0))"

definition in_test :: "nat set \<Rightarrow> system \<Rightarrow> bool" where
  "in_test B s \<longleftrightarrow> ipc_alive (wrld s) \<and> (SEM_TICKET_QUEUE_SLOTS \<in> B \<longrightarrow> \<not> station_closed (shm (wrld s)))"

lemma sum_zero_members:
  fixes f :: "'a \<Rightarrow> int"
  assumes "sum_list (map f xs) = 0" and "\<And>x. 0 \<le> f x" and "x \<in> set xs"
  shows "f x = 0"
  using assms(1,3)
proof (induction xs)
  case (Cons y ys)
  have "0 \<le> sum_list (map f ys)" by (rule sum_list_map_nonneg) (rule assms(2))
  with Cons assms(2) [of y] show ?case by auto
qed simp

lemma uncovered_tokens:
  assumes r: "reachable c (uncovered B s)" and t: "in_test B s"
  shows "no_tokens B s"
proof -
  have len: "length (fs s) = 2" using reachable_flags [OF r] by (simp add: flags_inv_def)
  then have fs: "set (fs s) = {fs s ! 0, fs s ! 1}" by (cases "fs s"; cases "tl (fs s)") auto
  have zero: "sum_list (map (\<lambda>_. 0 :: int) xs) = 0" for xs :: "'z list" by (induction xs) auto
  have tickets: "ticket_q (wrld s) = [] \<and> sum_list (map (\<lambda>p. ticket_slot (p_pc p)) (ps s)) = 0
      \<and> office_slot (o_pc (fs s ! 0)) = 0 \<and> office_slot (o_pc (fs s ! 1)) = 0"
    if "9 \<in> B"
  proof -
    have "ticket_slots.in_force (uncovered B s)" using t that by (simp add: ticket_slots.in_force_def in_test_def)
    from ticket_slots.account.balance [OF r this] that
    have "int (length (ticket_q (wrld s))) + (sum_list (map (\<lambda>p. ticket_slot (p_pc p)) (ps s))
        + office_slot (o_pc (fs s ! 0)) + office_slot (o_pc (fs s ! 1))) = 0"
      by (simp add: tally_def zero initial_sems_def)
    moreover have "0 \<le> sum_list (map (\<lambda>p. ticket_slot (p_pc p)) (ps s))"
      by (rule sum_list_map_nonneg) simp
    moreover have "0 \<le> office_slot (o_pc (fs s ! 0))" "0 \<le> office_slot (o_pc (fs s ! 1))" by simp_all
    ultimately show ?thesis by (smt (verit) length_0_conv of_nat_0_le_iff of_nat_eq_0_iff)
  qed
  have boarding: "sum_list (map (\<lambda>p. board_slot (p_pc p)) (ps s)) = 0" if "10 \<in> B"
  proof -
    have "boarding_slots.in_force (uncovered B s)" using t that by (simp add: boarding_slots.in_force_def in_test_def)
    from boarding_slots.account.balance [OF r this] that show ?thesis
      by (simp add: tally_def zero initial_sems_def)
  qed
  show ?thesis
    using tickets boarding sum_zero_members [of "\<lambda>p. ticket_slot (p_pc p)" "ps s"]
      sum_zero_members [of "\<lambda>p. board_slot (p_pc p)" "ps s"] fs
    by (simp add: no_tokens_def)
qed

lemma blocked_zero_step:
  assumes step: "sys_step c s t" and zero: "blocked_zero B s" and free: "no_tokens B s"
    and alive: "ipc_alive (wrld s)" and flags: "flags_inv s" and test: "in_test B t"
  shows "blocked_zero B t"
proof -
  have "sems (wrld t) n = 0" if n: "n \<in> B" for n
  proof -
    have z: "sems (wrld s) n = 0" and n2: "n = 9 \<or> n = 10" using zero n by (auto simp: blocked_zero_def)
    from step show ?thesis
    proof (cases rule: sys_step_groups)
      case (passenger i e p' w')
      have "ps s ! i \<in> set (ps s)" using passenger(1) by simp
      with passenger_sem_law [OF passenger(2) alive, of n] z n n2 free passenger(3) show ?thesis
        by (auto simp: no_tokens_def) (smt (verit) token_nonneg(1,2) of_nat_0_le_iff)+
    next
      case (driver b e d' w')
      from driver_sem_law [OF driver(2) alive, of n] z n2 driver(3) show ?thesis by auto
    next
      case (office k e f' w')
      have k: "k < TICKET_OFFICES" "fs s ! k \<in> set (fs s)" using office(1) flags by (auto simp: flags_inv_def)
      from office_sem_law [OF office(2) k(1) alive, of n] z n n2 free k(2) office(3) show ?thesis
        by (auto simp: no_tokens_def) (smt (verit) token_nonneg(3) of_nat_0_le_iff)+
    next
      case (dispatcher e dead x' w' sig)
      have "x_pc (dx s) \<notin> {X_SetEntry, X_SetSlots}" if "n = 9"
        using flags test n that closed_stays_closed_step [OF step] by (auto simp: flags_inv_def in_test_def)
      with dispatcher_sem_law [OF dispatcher(1), of n] z n2 dispatcher(2) show ?thesis by auto
    next
      case (spawn q r1 r2 r3 r4 r5)
      with z show ?thesis by simp
    next
      case control
      with z show ?thesis by (simp add: same_codeD)
    qed
  qed
  with zero show ?thesis by (simp add: blocked_zero_def)
qed

section \<open>One step of the system\<close>

lemma uncovered_updates [simp]:
  "uncovered B (s\<lparr>ps := xs, wrld := w\<rparr>) = (uncovered B s)\<lparr>ps := xs, wrld := uncover B w\<rparr>"
  "uncovered B (s\<lparr>ds := dr, wrld := w\<rparr>) = (uncovered B s)\<lparr>ds := dr, wrld := uncover B w\<rparr>"
  "uncovered B (s\<lparr>fs := os, wrld := w\<rparr>) = (uncovered B s)\<lparr>fs := os, wrld := uncover B w\<rparr>"
  "uncovered B (s\<lparr>dx := x, wrld := w, ds := dr\<rparr>) = (uncovered B s)\<lparr>dx := x, wrld := uncover B w, ds := dr\<rparr>"
  "uncovered B (s\<lparr>ps := xs\<rparr>) = (uncovered B s)\<lparr>ps := xs\<rparr>"
  "uncovered B (s\<lparr>ds := dr\<rparr>) = (uncovered B s)\<lparr>ds := dr\<rparr>"
  "uncovered B (s\<lparr>fs := os\<rparr>) = (uncovered B s)\<lparr>fs := os\<rparr>"
  "uncovered B (s\<lparr>dx := x\<rparr>) = (uncovered B s)\<lparr>dx := x\<rparr>"
  "uncovered B (s\<lparr>wrld := w\<rparr>) = (uncovered B s)\<lparr>wrld := uncover B w\<rparr>"
  by (simp_all add: uncovered_def)

lemma step_uncovered:
  assumes step: "sys_step c s t" and alive: "ipc_alive (wrld s)" and flags: "flags_inv s"
    and zero: "blocked_zero B s" "blocked_zero B t"
    and test: "SEM_TICKET_QUEUE_SLOTS \<in> B \<Longrightarrow> \<not> station_closed (shm (wrld s))"
  shows "sys_step c (uncovered B s) (uncovered B t)"
proof -
  have same: "still_blocked B (wrld s) (wrld t)" using zero by (simp add: still_blocked_def blocked_zero_def)
  note move = sys_step.intros [where s = "uncovered B s", simplified]
  from step show ?thesis
  proof (cases rule: sys_step.cases)
    case (passenger i e p' w')
    with same passenger_uncovered [OF passenger(4) alive] show ?thesis by (auto intro: move(1))
  next
    case (child i p')
    then show ?thesis by (auto intro: move(2))
  next
    case (driver b e d' w')
    with same driver_uncovered [OF driver(4) alive] show ?thesis by (auto intro: move(3))
  next
    case (office k e f' w')
    with same office_uncovered [OF office(4) alive] show ?thesis by (auto intro: move(4))
  next
    case (dispatcher dead e x' w' sig)
    have "x_pc (dx s) \<noteq> X_SetSlots" if "SEM_TICKET_QUEUE_SLOTS \<in> B" using flags test [OF that] by (auto simp: flags_inv_def)
    with dispatcher same dispatcher_uncovered [OF dispatcher(4), of B]
    have "dispatcher_step c e dead (dx s) (uncover B (wrld s)) = Some (x', uncover B w', sig)" by simp
    with dispatcher show ?thesis by (auto intro: move(5))
  qed (auto intro: move)
qed

section \<open>What the blocked tests observe\<close>

text \<open>As long as a queue is blocked from the start, nobody waits for an answer from it.\<close>

definition nobody_waits :: "system \<Rightarrow> bool" where
  "nobody_waits s \<longleftrightarrow> (\<forall>p \<in> set (ps s). p_pc p \<noteq> P_WaitTicket)"

lemma sum_list_empty: "sum_list (map f xs) = {#} \<longleftrightarrow> (\<forall>x \<in> set xs. f x = {#})"
  by (induction xs) auto

lemma desks_empty:
  assumes "reachable c s" and "ipc_alive (wrld s)" and "nobody_waits s"
  shows "ticket_q (wrld s) = [] \<and> ticket_resp_q (wrld s) = [] \<and> (\<forall>f \<in> set (fs s). desk_pids (o_pc f) = {#})"
proof -
  have "ticket_waiters s = {#}"
    using assms(3) by (simp add: ticket_waiters_def sum_list_empty nobody_waits_def ticket_waiting_def)
  then have "tickets_in_flight s = {#}"
    using reachable_tickets [OF assms(1)] assms(2) by (simp add: ticket_inv_def ticket_protocol_ok_def)
  then show ?thesis by (simp add: tickets_in_flight_def queue_pids_def sum_list_empty)
qed

lemma hands_empty:
  assumes "reachable c s" and "ipc_alive (wrld s)" and "\<forall>p \<in> set (ps s). board_slot (p_pc p) = 0"
  shows "boarding_q (wrld s) = [] \<and> boarding_resp_q (wrld s) = [] \<and> (\<forall>d \<in> set (ds s). hand_infos (d_pc d) = {#})"
proof -
  have "p_pc p \<noteq> P_BoardWait" if "p \<in> set (ps s)" for p using assms(3) that by auto
  then have "boarding_waiters s = {#}"
    by (simp add: boarding_waiters_def sum_list_empty board_waiting_def)
  then have "in_flight s = {#}"
    using reachable_boarding [OF assms(1)] assms(2) by (simp add: boarding_inv_def protocol_ok_def)
  then show ?thesis by (simp add: in_flight_def queue_infos_def sum_list_empty)
qed

lemma nobody_waits_step:
  assumes step: "sys_step c s t" and "nobody_waits s" and "\<forall>p \<in> set (ps s). ticket_slot (p_pc p) = 0"
  shows "nobody_waits t"
  using step
proof (cases rule: sys_step_groups)
  case (passenger i e p' w')
  have "p_pc p' \<noteq> P_WaitTicket"
  proof
    assume "p_pc p' = P_WaitTicket"
    with passenger(2) have "p_pc (ps s ! i) = P_SendTicket" by (cases rule: passenger_stepE) (auto split: if_splits)
    with assms(3) passenger(1) show False using nth_mem by force
  qed
  with assms(2) passenger(3) show ?thesis
    by (auto simp: nobody_waits_def dest!: set_update_subset_insert [THEN subsetD])
next
  case control
  have "map p_pc (ps t) = map p_pc (ps s)"
    by (rule map_view_cong [OF same_codeD(1) [OF control]]) (simp add: p_view_def)
  with assms(2) show ?thesis by (metis nobody_waits_def in_set_conv_nth length_map nth_map)
qed (use assms(2) in \<open>auto simp: nobody_waits_def init_passenger_st_def\<close>)

lemma idle_counters_step:
  assumes step: "sys_step c s t" and flags: "flags_inv s"
  shows "(\<forall>f \<in> set (fs s). desk_pids (o_pc f) = {#}) \<Longrightarrow> tickets_sold_people (shm (wrld t)) = tickets_sold_people (shm (wrld s))"
    and "(\<forall>d \<in> set (ds s). hand_infos (d_pc d) = {#}) \<Longrightarrow> boarded_people (shm (wrld t)) = boarded_people (shm (wrld s))"
proof -
  let ?same = "\<lambda>w w'. ((\<forall>f \<in> set (fs s). desk_pids (o_pc f) = {#}) \<longrightarrow> tickets_sold_people (shm w') = tickets_sold_people (shm w))
    \<and> ((\<forall>d \<in> set (ds s). hand_infos (d_pc d) = {#}) \<longrightarrow> boarded_people (shm w') = boarded_people (shm w))"
  from step have "?same (wrld s) (wrld t)"
  proof (cases rule: sys_step_groups)
    case (passenger i e p' w')
    from passenger(2) have "?same (wrld s) w'"
      by (cases rule: passenger_stepE) (auto simp: world_simps section_defs Let_def)
    with passenger(3) show ?thesis by simp
  next
    case (driver b e d' w')
    from driver(2) nth_mem [OF driver(1)] have "?same (wrld s) w'"
      by (cases rule: driver_stepE) (auto simp: world_simps section_defs Let_def)
    with driver(3) show ?thesis by simp
  next
    case (office k e f' w')
    have "k < TICKET_OFFICES" using office(1) flags by (auto simp: flags_inv_def)
    from office(2) this nth_mem [OF office(1)] have "?same (wrld s) w'"
      by (cases rule: office_stepE) (auto simp: world_simps section_defs Let_def dest!: housekeepingD(7))
    with office(3) show ?thesis by simp
  next
    case (dispatcher e dead x' w' sig)
    from dispatcher(1) have "?same (wrld s) w'"
      using check_driver_health_frame [of c "now e" dead "shm (wrld s)"] shutdown_accounting_frame [of "shm (wrld s)"]
      by (cases rule: dispatcher_stepE) (auto simp: world_simps section_defs close_station_def)
    with dispatcher(2) show ?thesis by simp
  next
    case control
    with same_codeD(6) [OF control] show ?thesis by auto
  qed simp
  then show "(\<forall>f \<in> set (fs s). desk_pids (o_pc f) = {#}) \<Longrightarrow> tickets_sold_people (shm (wrld t)) = tickets_sold_people (shm (wrld s))"
    and "(\<forall>d \<in> set (ds s). hand_infos (d_pc d) = {#}) \<Longrightarrow> boarded_people (shm (wrld t)) = boarded_people (shm (wrld s))"
    by blast+
qed

section \<open>The invariant of the test runs\<close>

definition untouched :: "nat set \<Rightarrow> system \<Rightarrow> bool" where
  "untouched B s \<longleftrightarrow>
     (ps s = [] \<or> SEM_TICKET_QUEUE_SLOTS \<in> B \<longrightarrow> nobody_waits s \<and> tickets_sold_people (shm (wrld s)) = 0)
   \<and> (ps s = [] \<or> SEM_BOARDING_QUEUE_SLOTS \<in> B \<longrightarrow> boarded_people (shm (wrld s)) = 0)"

definition open_world :: "system \<Rightarrow> bool" where
  "open_world s \<longleftrightarrow> ipc_alive (wrld s) \<and> \<not> station_closed (shm (wrld s))"

definition test_inv :: "cfg \<Rightarrow> int \<Rightarrow> nat set \<times> system \<Rightarrow> bool" where
  "test_inv c test = (\<lambda>(B, s). flags_inv s \<and> (B \<noteq> {} \<longrightarrow> test \<in> {6, 7, 8})
     \<and> (open_world s \<longrightarrow> reachable c (uncovered B s) \<and> blocked_zero B s \<and> untouched B s))"

lemma sys_step_empty: "sys_step c s t \<Longrightarrow> ps t = [] \<Longrightarrow> ps s = []"
  by (cases rule: sys_step_groups) (auto dest!: same_codeD(1))

lemma reachable_moves: "reachable c s \<Longrightarrow> sys_step c s t \<Longrightarrow> reachable c t"
  unfolding reachable_def by (rule reach_move)

lemma test_run_step:
  assumes step: "sys_step c s t" and inv: "test_inv c test (B, s)"
  shows "test_inv c test (B, t)"
proof -
  have flags: "flags_inv s" "flags_inv t" using inv flags_inv_step [OF step] by (auto simp: test_inv_def)
  have "reachable c (uncovered B t) \<and> blocked_zero B t \<and> untouched B t" if t: "open_world t"
  proof -
    have s: "open_world s"
      using t sys_step_alive [OF step] closed_stays_closed_step [OF step flags(1)] by (auto simp: open_world_def)
    with inv have r: "reachable c (uncovered B s)" and zero: "blocked_zero B s" and idle: "untouched B s"
      by (auto simp: test_inv_def)
    have free: "no_tokens B s" using uncovered_tokens [OF r] s by (auto simp: in_test_def open_world_def)
    have zero': "blocked_zero B t"
      using blocked_zero_step [OF step zero free _ flags(1)] s t by (auto simp: open_world_def in_test_def)
    have r': "reachable c (uncovered B t)"
      using reachable_moves [OF r step_uncovered [OF step _ flags(1) zero zero']] s by (simp add: open_world_def)
    have "nobody_waits t \<and> tickets_sold_people (shm (wrld t)) = 0" if "ps t = [] \<or> SEM_TICKET_QUEUE_SLOTS \<in> B"
    proof -
      have none: "nobody_waits s" "tickets_sold_people (shm (wrld s)) = 0"
        using idle that sys_step_empty [OF step] by (auto simp: untouched_def)
      moreover have "\<forall>p \<in> set (ps s). ticket_slot (p_pc p) = 0"
        using free that sys_step_empty [OF step] by (auto simp: no_tokens_def)
      ultimately show ?thesis
        using nobody_waits_step [OF step] idle_counters_step(1) [OF step flags(1)] desks_empty [OF r] s
        by (simp add: nobody_waits_def open_world_def)
    qed
    moreover have "boarded_people (shm (wrld t)) = 0" if "ps t = [] \<or> SEM_BOARDING_QUEUE_SLOTS \<in> B"
    proof -
      have "boarded_people (shm (wrld s)) = 0" and "\<forall>p \<in> set (ps s). board_slot (p_pc p) = 0"
        using idle free that sys_step_empty [OF step] by (auto simp: untouched_def no_tokens_def)
      then show ?thesis using idle_counters_step(2) [OF step flags(1)] hands_empty [OF r] s by (simp add: open_world_def)
    qed
    ultimately show ?thesis using r' zero' by (simp add: untouched_def)
  qed
  with inv flags show ?thesis by (simp add: test_inv_def)
qed

lemma untouched_tokens:
  assumes r: "reachable c (uncovered B s)" and alive: "ipc_alive (wrld s)" and empty: "ps s = []"
    and n: "n \<in> {SEM_TICKET_QUEUE_SLOTS, SEM_BOARDING_QUEUE_SLOTS}" and "\<not> station_closed (shm (wrld s))"
  shows "sems (uncover B (wrld s)) n = initial_sems n"
proof -
  have len: "length (fs s) = 2" using reachable_flags [OF r] by (simp add: flags_inv_def)
  have desks: "ticket_q (wrld s) = []" "\<forall>f \<in> set (fs s). desk_pids (o_pc f) = {#}"
    using desks_empty [OF r] alive empty by (simp_all add: nobody_waits_def)
  have "office_slot po = 0" if "desk_pids po = {#}" for po using that by (cases po) simp_all
  then have "office_slot (o_pc (fs s ! 0)) = 0" "office_slot (o_pc (fs s ! 1)) = 0" using desks(2) len by simp_all
  moreover have zero: "sum_list (map (\<lambda>_. 0 :: int) xs) = 0" for xs :: "'z list" by (induction xs) auto
  ultimately show ?thesis
    using n ticket_slots.account.balance [OF r] boarding_slots.account.balance [OF r] assms(2,5) desks(1) empty
    by (auto simp: tally_def zero initial_sems_def ticket_slots.in_force_def boarding_slots.in_force_def)
qed

lemma silent_no_set: "silent es \<Longrightarrow> Set_Semaphore n v \<notin> set es"
  by (auto simp: silent_def list_all_iff)

lemma script_restores:
  assumes "Set_Semaphore n v \<in> set (fst (run_test True e test m))" and "test \<in> {6, 7, 8}"
  shows "v = initial_sems n"
proof -
  have w: "Set_Semaphore j u \<notin> set (watch line a k)" if "\<And>i t. silent (line i t)" for line a k j u
    using that by (intro silent_no_set watch_silent)
  show ?thesis
    using assms silent_no_set [OF drain_silent] silent_no_set [OF stats_silent(1)]
    by (auto simp: run_test_def test6_def test7_def test8_def test6_blocked_def test7_blocked_def test8_blocked_def
        Let_def w initial_sems_def)
qed

lemma block_values:
  "Set_Semaphore n v \<in> set (block_effects test) \<Longrightarrow>
     v = 0 \<and> n \<in> {SEM_TICKET_QUEUE_SLOTS, SEM_BOARDING_QUEUE_SLOTS} \<and> test \<in> {6, 7, 8}"
  by (auto simp: block_effects_def split: if_splits)

lemma flags_inv_sems [simp]: "flags_inv (s\<lparr>wrld := w_setval n v (wrld s)\<rparr>) = flags_inv s"
  by (simp add: flags_inv_def w_setval_def)

lemma test_block_step:
  assumes set: "Set_Semaphore n v \<in> set (block_effects test)" and "ps s = []" and inv: "test_inv c test (B, s)"
  shows "test_inv c test (insert n B, s\<lparr>wrld := w_setval n v (wrld s)\<rparr>)"
proof -
  note v = block_values [OF set]
  let ?t = "s\<lparr>wrld := w_setval n v (wrld s)\<rparr>"
  have "reachable c (uncovered (insert n B) ?t) \<and> blocked_zero (insert n B) ?t \<and> untouched (insert n B) ?t"
    if t: "open_world ?t"
  proof -
    have s: "open_world s" and w: "w_setval n v (wrld s) = (wrld s)\<lparr>sems := (sems (wrld s))(n := 0)\<rparr>"
      using t v by (auto simp: open_world_def w_setval_def split: if_splits)
    with inv have r: "reachable c (uncovered B s)" and zero: "blocked_zero B s" and idle: "untouched B s"
      by (auto simp: test_inv_def)
    have "sems (uncover B (wrld s)) n = initial_sems n"
      using untouched_tokens [OF r] s v assms(2) by (simp add: open_world_def)
    then have "uncover (insert n B) (w_setval n v (wrld s)) = uncover B (wrld s)"
      unfolding w by (auto simp: uncover_def fun_eq_iff intro!: world.equality)
    then have "uncovered (insert n B) ?t = uncovered B s" by (simp add: uncovered_def)
    with r zero idle v w assms(2) show ?thesis
      by (auto simp: blocked_zero_def untouched_def nobody_waits_def)
  qed
  with inv v show ?thesis by (auto simp: test_inv_def)
qed

lemma test_unblock_step:
  assumes set: "Set_Semaphore n v \<in> set (fst (run_test True e test m))" and "n \<in> B" and inv: "test_inv c test (B, s)"
  shows "test_inv c test (B - {n}, s\<lparr>wrld := w_setval n v (wrld s)\<rparr>)"
proof -
  have test: "test \<in> {6, 7, 8}" using inv assms(2) by (auto simp: test_inv_def)
  note v = script_restores [OF set test]
  let ?t = "s\<lparr>wrld := w_setval n v (wrld s)\<rparr>"
  have "reachable c (uncovered (B - {n}) ?t) \<and> blocked_zero (B - {n}) ?t \<and> untouched (B - {n}) ?t"
    if t: "open_world ?t"
  proof -
    have s: "open_world s" and w: "w_setval n v (wrld s) = (wrld s)\<lparr>sems := (sems (wrld s))(n := initial_sems n)\<rparr>"
      using t v by (auto simp: open_world_def w_setval_def split: if_splits)
    with inv have r: "reachable c (uncovered B s)" and zero: "blocked_zero B s" and idle: "untouched B s"
      by (auto simp: test_inv_def)
    have "uncover (B - {n}) (w_setval n v (wrld s)) = uncover B (wrld s)"
      unfolding w using assms(2) by (auto simp: uncover_def fun_eq_iff intro!: world.equality)
    then have "uncovered (B - {n}) ?t = uncovered B s" by (simp add: uncovered_def)
    with r zero idle v w show ?thesis
      by (auto simp: blocked_zero_def untouched_def nobody_waits_def)
  qed
  with inv test show ?thesis by (auto simp: test_inv_def)
qed

definition test_start :: "nat set \<times> system \<Rightarrow> bool" where
  "test_start x \<longleftrightarrow> fst x = {} \<and> sys_start (snd x)"

interpretation test_runs: inductive_invariant test_start "test_step c test" "test_inv c test" for c test
proof unfold_locales
  fix x :: "nat set \<times> system" assume "test_start x"
  then obtain s where x: "x = ({}, s)" and start: "sys_start s" by (cases x) (auto simp: test_start_def)
  have "reachable c s" unfolding reachable_def by (rule reach_start) (rule start)
  moreover have "ps s = [] \<and> tickets_sold_people (shm (wrld s)) = 0 \<and> boarded_people (shm (wrld s)) = 0"
    using start by (auto simp: sys_start_def sys_init_def init_world_def init_shared_state_def)
  ultimately show "test_inv c test x"
    using flags_inv_start [OF start] unfolding x
    by (simp add: test_inv_def untouched_def blocked_zero_def nobody_waits_def)
next
  fix x y assume "test_inv c test x" and "test_step c test x y"
  then show "test_inv c test y"
    by (cases x) (auto elim!: test_step.cases intro: test_run_step test_block_step test_unblock_step)
qed

definition test_reachable :: "cfg \<Rightarrow> int \<Rightarrow> nat set \<Rightarrow> system \<Rightarrow> bool" where
  "test_reachable c test B s \<longleftrightarrow> reach test_start (test_step c test) (B, s)"

lemma test_reachable_runs:
  assumes "(sys_step c)\<^sup>*\<^sup>* s t" and "reach test_start (test_step c test) (B, s)"
  shows "reach test_start (test_step c test) (B, t)"
  using assms by (induction rule: rtranclp_induct) (auto intro: reach_move test_step.run)

section \<open>The tests with blocked queues\<close>

text \<open>
  C32: Blocking a request queue and opening it again does no harm. While the tests 6 to 8
  run, and nobody has closed the station, every state is a state of the ordinary system
  once the slots of the queues that are still blocked are put back: no slot is lost or
  created by setting the semaphore to a constant under the feet of all processes, and
  when the script has opened the queues again all that is shown of ordinary states
  holds. As long as a queue is blocked the tests see what they announce: no request and
  no response is in it, no ticket is sold, nobody boards.
\<close>

theorem blocked_queues_harmless:
  assumes "test_reachable c test B s" and "ipc_alive (wrld s)" and "\<not> station_closed (shm (wrld s))"
  shows "reachable c (uncovered B s)
    \<and> (SEM_TICKET_QUEUE_SLOTS \<in> B \<longrightarrow>
         ticket_q (wrld s) = [] \<and> ticket_resp_q (wrld s) = [] \<and> tickets_sold_people (shm (wrld s)) = 0)
    \<and> (SEM_BOARDING_QUEUE_SLOTS \<in> B \<longrightarrow>
         boarding_q (wrld s) = [] \<and> boarding_resp_q (wrld s) = [] \<and> boarded_people (shm (wrld s)) = 0)"
proof -
  have "test_inv c test (B, s)" using test_runs.always assms(1) unfolding test_reachable_def by blast
  with assms(2,3) have r: "reachable c (uncovered B s)" and idle: "untouched B s"
    by (auto simp: test_inv_def open_world_def)
  have "no_tokens B s" using uncovered_tokens [OF r] assms(2,3) by (simp add: in_test_def)
  with idle r desks_empty [OF r] hands_empty [OF r] assms(2) show ?thesis
    by (auto simp: untouched_def nobody_waits_def no_tokens_def)
qed

text \<open>Test 6: a passenger has entered the office and sleeps for a slot; later the queue is open again.\<close>

definition test6_start :: system where
  "test6_start = demo_start\<lparr>wrld := w_setval SEM_TICKET_QUEUE_SLOTS 0 (wrld demo_start)\<rparr>"

definition test6_waiting :: system where
  "test6_waiting = the (exec_all demo_cfg (take 7 demo_script) test6_start)"

lemma test6_waiting_run: "exec_all demo_cfg (take 7 demo_script) test6_start = Some test6_waiting"
proof -
  have "exec_all demo_cfg (take 7 demo_script) test6_start \<noteq> None" by code_simp
  then show ?thesis by (auto simp: test6_waiting_def)
qed

lemma test6_waiting_reachable: "test_reachable demo_cfg 6 {SEM_TICKET_QUEUE_SLOTS} test6_waiting"
proof -
  have "test_start ({}, demo_start)" by (simp add: test_start_def demo_start_start)
  moreover have "test_step demo_cfg 6 ({}, demo_start) (insert SEM_TICKET_QUEUE_SLOTS {}, test6_start)"
    unfolding test6_start_def by (rule test_step.block) (simp_all add: block_effects_def demo_start_def sys_init_def)
  ultimately have "reach test_start (test_step demo_cfg 6) ({SEM_TICKET_QUEUE_SLOTS}, test6_start)"
    by (blast intro: reach_start reach_move)
  then show ?thesis
    unfolding test_reachable_def by (rule test_reachable_runs [OF exec_all_star [OF test6_waiting_run]])
qed

theorem blocked_queues_harmless_witness:
  "p_pc (ps test6_waiting ! 0) = P_TicketSlot \<and> passengers_in_office (shm (wrld test6_waiting)) = 1
   \<and> exec demo_cfg (Passenger_Moves (at_time 1) 0) test6_waiting = None
   \<and> ticket_q (wrld test6_waiting) = [] \<and> tickets_sold_people (shm (wrld test6_waiting)) = 0
   \<and> reachable demo_cfg (uncovered {SEM_TICKET_QUEUE_SLOTS} test6_waiting)
   \<and> exec demo_cfg (Passenger_Moves (at_time 1) 0) (uncovered {SEM_TICKET_QUEUE_SLOTS} test6_waiting) \<noteq> None"
proof -
  have "ipc_alive (wrld test6_waiting)" "\<not> station_closed (shm (wrld test6_waiting))" by code_simp+
  from blocked_queues_harmless [OF test6_waiting_reachable this]
  have "ticket_q (wrld test6_waiting) = [] \<and> tickets_sold_people (shm (wrld test6_waiting)) = 0
      \<and> reachable demo_cfg (uncovered {SEM_TICKET_QUEUE_SLOTS} test6_waiting)" by simp
  moreover have "p_pc (ps test6_waiting ! 0) = P_TicketSlot" "passengers_in_office (shm (wrld test6_waiting)) = 1"
    "exec demo_cfg (Passenger_Moves (at_time 1) 0) test6_waiting = None"
    "exec demo_cfg (Passenger_Moves (at_time 1) 0) (uncovered {SEM_TICKET_QUEUE_SLOTS} test6_waiting) \<noteq> None"
    by code_simp+
  ultimately show ?thesis by blast
qed

end
