(* ===== verification/Stranded.thy ===== *)
theory Stranded
  imports Bounds Scenario
begin

text \<open>
  What becomes of a request that nobody can answer any more: because it reached the queue
  after the last ticket office had drained it and left, or because the office or driver
  that held it was killed. Its passenger never wakes up, and as it stays in the counters
  the dispatcher never finds the simulation at its end.
\<close>

section \<open>Lost requests\<close>

definition office_gone :: "office_st \<Rightarrow> bool" where
  "office_gone f \<longleftrightarrow> o_killed f \<or> o_pc f = O_Done"

text \<open>A request of the process q that is undecided and out of reach of every living process.\<close>

definition lost_in_queue :: "system \<Rightarrow> int \<Rightarrow> bool" where
  "lost_in_queue s q \<longleftrightarrow> list_all office_gone (fs s) \<and> list_ex (\<lambda>m. ticket_pid m = q) (ticket_q (wrld s))"

definition lost_at_desk :: "system \<Rightarrow> int \<Rightarrow> bool" where
  "lost_at_desk s q \<longleftrightarrow> list_ex (\<lambda>f. o_killed f \<and> decided (o_pc f) = 0 \<and> q \<in># desk_pids (o_pc f)) (fs s)"

definition lost_with_driver :: "system \<Rightarrow> int \<Rightarrow> bool" where
  "lost_with_driver s q \<longleftrightarrow>
     list_ex (\<lambda>d. d_killed d \<and> granted_hand (d_pc d) = 0 \<and> q \<in># image_mset pid (hand_infos (d_pc d))) (ds s)"

definition lost_request :: "system \<Rightarrow> int \<Rightarrow> bool" where
  "lost_request s q \<longleftrightarrow> lost_in_queue s q \<or> lost_at_desk s q \<or> lost_with_driver s q"

section \<open>Lost for ever\<close>

text \<open>Who is killed or done makes no step.\<close>

lemma list_ex_update_other:
  assumes "list_ex P xs" and "i < length xs" and "\<not> P (xs ! i)"
  shows "list_ex P (xs[i := y])"
proof -
  obtain j where j: "j < length xs" "P (xs ! j)" using assms(1) by (auto simp: list_ex_iff in_set_conv_nth)
  with assms(3) have "j \<noteq> i" by blast
  with j have "j < length (xs[i := y])" "P (xs[i := y] ! j)" by simp_all
  then show ?thesis by (metis list_ex_iff nth_mem)
qed

lemma list_ex_update_keeps:
  assumes "list_ex P xs" and "P (xs ! i) \<Longrightarrow> P y"
  shows "list_ex P (xs[i := y])"
proof (cases "i < length xs \<and> P (xs ! i)")
  case True
  with assms(2) show ?thesis by (auto simp: list_ex_iff set_update_memI)
next
  case False
  with assms(1) list_ex_update_other [of P xs i] show ?thesis
    by (cases "i < length xs") (auto simp: list_update_beyond)
qed

lemma ticket_q_grows:
  assumes "passenger_step e p w = Some (p', w')"
  shows "set (ticket_q w) \<subseteq> set (ticket_q w')"
  using assms by (cases rule: passenger_stepE) (auto simp: world_simps)

lemma deliver_usr1_ex:
  assumes "\<And>d d'. P d \<Longrightarrow> d_pc d' = d_pc d \<Longrightarrow> d_killed d' = d_killed d \<Longrightarrow> P d'" and "list_ex P xs"
  shows "list_ex P (deliver_usr1 sig xs)"
proof -
  obtain d where d: "d \<in> set xs" "P d" using assms(2) by (auto simp: list_ex_iff)
  let ?d = "if d_pid d \<in> set sig then driver_handle_early_departure d else d"
  have "P ?d" by (rule assms(1) [OF d(2)]) (simp_all add: driver_handle_early_departure_def)
  moreover have "?d \<in> set (deliver_usr1 sig xs)" unfolding deliver_usr1_def set_map using d(1) by (rule imageI)
  ultimately show ?thesis unfolding list_ex_iff by blast
qed

lemma lost_request_step:
  assumes "sys_step c s t" and "lost_request s q"
  shows "lost_request t q"
  using assms(1)
proof (cases rule: sys_step.cases)
  case (passenger i e p' w')
  with assms(2) ticket_q_grows [OF passenger(4)] show ?thesis
    by (auto simp: lost_request_def lost_in_queue_def lost_at_desk_def lost_with_driver_def list_ex_iff)
next
  case (driver b e d' w')
  with assms(2) driver_step_frame [OF driver(4)] show ?thesis
    by (auto simp: lost_request_def lost_in_queue_def lost_at_desk_def lost_with_driver_def intro: list_ex_update_other)
next
  case (office k e f' w')
  then have "\<not> office_gone (fs s ! k)" by (auto simp: office_gone_def office_step_def)
  with office assms(2) show ?thesis
    by (auto simp: lost_request_def lost_in_queue_def lost_at_desk_def lost_with_driver_def list_all_length
        intro: list_ex_update_other)
next
  case (dispatcher dead e x' w' sig)
  with assms(2) dispatcher_step_traffic [OF dispatcher(4)] show ?thesis
    by (auto simp: lost_request_def lost_in_queue_def lost_at_desk_def lost_with_driver_def intro: deliver_usr1_ex)
next
  case (term_driver b)
  with assms(2) show ?thesis
    by (auto simp: lost_request_def lost_in_queue_def lost_at_desk_def lost_with_driver_def driver_handle_shutdown_def
        intro: list_ex_update_keeps)
next
  case (kill_driver b)
  with assms(2) show ?thesis
    by (auto simp: lost_request_def lost_in_queue_def lost_at_desk_def lost_with_driver_def intro: list_ex_update_keeps)
next
  case (term_office k)
  with assms(2) show ?thesis
    by (auto simp: lost_request_def lost_in_queue_def lost_at_desk_def lost_with_driver_def office_handle_shutdown_def
        office_gone_def list_all_length nth_list_update intro: list_ex_update_keeps)
next
  case (kill_office k)
  with assms(2) show ?thesis
    by (auto simp: lost_request_def lost_in_queue_def lost_at_desk_def lost_with_driver_def office_gone_def
        list_all_length nth_list_update intro: list_ex_update_keeps)
qed (use assms(2) in \<open>auto simp: lost_request_def lost_in_queue_def lost_at_desk_def lost_with_driver_def upd_shm_def\<close>)

lemma lost_request_run: "(sys_step c)\<^sup>*\<^sup>* s t \<Longrightarrow> lost_request s q \<Longrightarrow> lost_request t q"
  by (induction rule: rtranclp_induct) (auto intro: lost_request_step)

lemma pid_kept_step:
  assumes step: "sys_step c s t" and inv: "passengers_inv s" and i: "i < length (ps s)"
  shows "i < length (ps t) \<and> pid (p_info (ps t ! i)) = pid (p_info (ps s ! i))"
  using step
proof (cases rule: sys_step_groups)
  case (passenger j e p' w')
  have "passenger_ok (ipc_alive (wrld s)) (station_closed (shm (wrld s))) (ps s ! j)"
    using inv passenger(1) by (simp add: passengers_inv_def)
  then have "pid (p_info p') = pid (p_info (ps s ! j))"
    using passenger_step_info [OF passenger(2)] by (simp add: passenger_ok_def)
  with passenger(3) i show ?thesis by (cases "j = i") simp_all
next
  case (spawn q r1 r2 r3 r4 r5)
  with i show ?thesis by (simp add: nth_append)
next
  case control
  have "map p_info (ps t) = map p_info (ps s)"
    by (rule map_view_cong [OF same_codeD(1) [OF control]]) (simp add: p_view_def)
  then show ?thesis using i by (metis length_map nth_map)
qed (use i in simp_all)

lemma reachable_run: "(sys_step c)\<^sup>*\<^sup>* s t \<Longrightarrow> reachable c s \<Longrightarrow> reachable c t"
  unfolding reachable_def by (rule reach_star)

lemma reachable_passengers_inv: "reachable c s \<Longrightarrow> passengers_inv s"
  unfolding reachable_def by (rule passenger_safety.always)

lemma pid_kept:
  assumes "(sys_step c)\<^sup>*\<^sup>* s t" and "reachable c s" and "i < length (ps s)"
  shows "i < length (ps t) \<and> pid (p_info (ps t ! i)) = pid (p_info (ps s ! i))"
  using assms(1)
proof (induction rule: rtranclp_induct)
  case base
  with assms(3) show ?case by simp
next
  case (step u v)
  then show ?case
    using pid_kept_step [OF step(2) reachable_passengers_inv [OF reachable_run [OF step(1) assms(2)]]] by auto
qed

section \<open>Nobody waits twice\<close>

lemma count_sum_list: "count (sum_list (map f xs)) q = sum_list (map (\<lambda>x. count (f x) q) xs)"
  by (induction xs) auto

lemma distinct_count:
  assumes "distinct (map k xs)" and "\<And>x. count (f x) q \<le> of_bool (k x = q)"
  shows "count (sum_list (map f xs)) q \<le> 1"
  using assms(1)
proof (induction xs)
  case (Cons x xs)
  show ?case
  proof (cases "k x = q")
    case True
    then have "k y \<noteq> q" if "y \<in> set xs" for y
      using Cons.prems imageI [OF that, of k] by auto
    then have "count (f y) q = 0" if "y \<in> set xs" for y using assms(2) [of y] that by auto
    then have "count (sum_list (map f xs)) q = 0" by (simp add: count_sum_list)
    with assms(2) [of x] True show ?thesis by simp
  next
    case False
    with assms(2) [of x] Cons show ?thesis by simp
  qed
qed simp

lemma ticket_waiters_once:
  assumes "passengers_inv s"
  shows "count (ticket_waiters s) q \<le> 1"
  unfolding ticket_waiters_def
  by (rule distinct_count [where k = "pid \<circ> p_info"])
    (use assms in \<open>auto simp: passengers_inv_def ticket_waiting_def\<close>)

lemma boarding_waiters_once:
  assumes "passengers_inv s"
  shows "count (boarding_waiters s) g \<le> 1"
  unfolding boarding_waiters_def
proof (rule distinct_count [where k = p_info])
  show "distinct (map p_info (ps s))" using assms by (auto simp: passengers_inv_def distinct_map inj_on_def)
qed (auto simp: board_waiting_def)

section \<open>The passenger sleeps and the simulation goes on\<close>

lemma lost_ticket_waits:
  assumes r: "reachable c s" and alive: "ipc_alive (wrld s)" and i: "i < length (ps s)"
    and lost: "lost_in_queue s (pid (p_info (ps s ! i))) \<or> lost_at_desk s (pid (p_info (ps s ! i)))"
  shows "p_pc (ps s ! i) = P_WaitTicket \<and> passenger_step e (ps s ! i) (wrld s) = None
    \<and> passengers_in_office (shm (wrld s)) > 0"
proof -
  let ?q = "pid (p_info (ps s ! i))"
  have inv: "passengers_inv s" and ok: "ticket_protocol_ok s" and len: "length (fs s) = 2"
    using reachable_tickets [OF r] alive reachable_flags [OF r] by (simp_all add: ticket_inv_def flags_inv_def)
  let ?Q = "image_mset ticket_pid (mset (ticket_q (wrld s)))" and ?R = "image_mset ticket_pid (mset (ticket_resp_q (wrld s)))"
  let ?D = "sum_list (map (\<lambda>f. desk_pids (o_pc f)) (fs s))"
  have flight: "?Q + ?R + ?D = ticket_waiters s"
    using ok by (simp add: ticket_protocol_ok_def tickets_in_flight_def queue_pids_def)
  have here: "?q \<in># ?Q + ?D"
    using lost
    by (auto simp: lost_in_queue_def lost_at_desk_def list_ex_iff set_mset_sum_list intro: rev_image_eqI)
  then have "?q \<in># ticket_waiters s" unfolding flight [symmetric] by auto
  then obtain j where j: "j < length (ps s)" "p_pc (ps s ! j) = P_WaitTicket" "pid (p_info (ps s ! j)) = ?q"
    by (auto simp: ticket_waiters_def set_mset_sum_list ticket_waiting_def in_set_conv_nth split: if_splits)
  with pid_unique [OF inv j(1) i] have wait: "p_pc (ps s ! i) = P_WaitTicket" by simp
  have "?q \<notin># ?R"
  proof
    assume "?q \<in># ?R"
    then have "count ?R ?q \<ge> 1" by simp
    moreover have "count (?Q + ?D) ?q \<ge> 1" using here by (metis count_greater_eq_one_iff)
    moreover have "count (ticket_waiters s) ?q = count (?Q + ?D) ?q + count ?R ?q"
      unfolding flight [symmetric] by simp
    ultimately show False using ticket_waiters_once [OF inv, of ?q] by linarith
  qed
  then have "tm_mtype m \<noteq> ?q" if "m \<in> set (ticket_resp_q (wrld s))" for m
    using ok that
    by (auto simp: ticket_protocol_ok_def tickets_ok_def ticket_response_ok_def intro: rev_image_eqI)
  moreover have "0 < ?q" using passengers_inv_nth(1) [OF inv i] by (simp add: info_ok_def)
  ultimately have "recv_ticket_resp ?q (wrld s) = None"
    using alive by (auto simp: recv_ticket_resp_def k_select_def split: option.split dest: take_first_in take_first_pred)
  moreover have "passengers_in_office (shm (wrld s)) > 0"
  proof -
    have le: "decided pc \<le> int (size (desk_pids pc))" for pc by (cases pc) auto
    have "1 \<le> int (length (ticket_q (wrld s)))
        + sum_list (map (\<lambda>f. int (size (desk_pids (o_pc f))) - decided (o_pc f)) (fs s))"
    proof (cases "lost_in_queue s ?q")
      case True
      then have "1 \<le> length (ticket_q (wrld s))" by (cases "ticket_q (wrld s)") (auto simp: lost_in_queue_def)
      moreover have "0 \<le> sum_list (map (\<lambda>f. int (size (desk_pids (o_pc f))) - decided (o_pc f)) (fs s))"
        by (rule sum_list_map_nonneg) (simp add: le)
      ultimately show ?thesis by linarith
    next
      case False
      with lost obtain k where k: "k < length (fs s)" "decided (o_pc (fs s ! k)) = 0" "?q \<in># desk_pids (o_pc (fs s ! k))"
        by (auto simp: lost_at_desk_def list_ex_iff in_set_conv_nth)
      then have "1 \<le> int (size (desk_pids (o_pc (fs s ! k)))) - decided (o_pc (fs s ! k))"
        by (cases "desk_pids (o_pc (fs s ! k))") auto
      also have "\<dots> \<le> sum_list (map (\<lambda>f. int (size (desk_pids (o_pc f))) - decided (o_pc f)) (fs s))"
        using sum_list_map_member_le [OF k(1), of "\<lambda>f. int (size (desk_pids (o_pc f))) - decided (o_pc f)"] le by simp
      finally show ?thesis by simp
    qed
    moreover have "size (?Q + ?R + ?D) = size (ticket_waiters s)" unfolding flight by simp
    then have "int (length (ticket_q (wrld s))) + int (length (ticket_resp_q (wrld s)))
        + sum_list (map (\<lambda>f. int (size (desk_pids (o_pc f)))) (fs s))
        = sum_list (map (\<lambda>p. int (size (ticket_waiting p))) (ps s))"
      by (simp add: ticket_waiters_def flip: size_sum_list)
    moreover have "sum_list (map (\<lambda>p. int (size (ticket_waiting p))) (ps s)) \<le> sum_list (map (\<lambda>p. in_office (p_pc p)) (ps s))"
      by (rule sum_list_map_mono_int) (simp add: in_office_waiting)
    ultimately show ?thesis
      using office_account.balance [OF r alive]
      by (simp add: tally_def sum_list_uminus sum_list_subtractf sum_list_two [OF len])
  qed
  ultimately show ?thesis using wait by (simp add: passenger_step_defs)
qed

lemma lost_boarding_waits:
  assumes r: "reachable c s" and calm: "calm s" and i: "i < length (ps s)"
    and lost: "lost_with_driver s (pid (p_info (ps s ! i)))"
  shows "p_pc (ps s ! i) = P_BoardWait \<and> passenger_step e (ps s ! i) (wrld s) = None
    \<and> passengers_waiting (shm (wrld s)) > 0"
proof -
  let ?g = "p_info (ps s ! i)"
  have alive: "ipc_alive (wrld s)" using calm by (simp add: calm_def)
  have bi: "boarding_inv s" and inv: "passengers_inv s" and ok: "protocol_ok s"
    using reachable_boarding [OF r] alive by (simp_all add: boarding_inv_def)
  let ?Q = "queue_infos (wrld s)" and ?H = "sum_list (map (\<lambda>d. hand_infos (d_pc d)) (ds s))"
  have flight: "?Q + ?H = boarding_waiters s" using ok by (simp add: protocol_ok_def in_flight_def)
  obtain b g where b: "b < length (ds s)" "granted_hand (d_pc (ds s ! b)) = 0" "g \<in># hand_infos (d_pc (ds s ! b))"
    and g: "pid g = pid ?g"
    using lost by (auto simp: lost_with_driver_def list_ex_iff in_set_conv_nth)
  have hand: "g \<in># ?H" using b(1,3) by (auto simp: set_mset_sum_list)
  then have "g \<in># boarding_waiters s" unfolding flight [symmetric] by simp
  then obtain j where j: "j < length (ps s)" "p_pc (ps s ! j) = P_BoardWait" "p_info (ps s ! j) = g"
    by (auto simp: boarding_waiters_def set_mset_sum_list board_waiting_def in_set_conv_nth split: if_splits)
  with g pid_unique [OF inv j(1) i] have wait: "p_pc (ps s ! i) = P_BoardWait" and own: "?g = g" by auto
  have "bm_mtype m \<noteq> pid ?g" if m: "m \<in> set (boarding_resp_q (wrld s))" for m
  proof
    assume "bm_mtype m = pid ?g"
    then have "bm_passenger m = g" using response_owner [OF inv ok m i] own by simp
    with m have "g \<in># ?Q" by (auto simp: queue_infos_def)
    then have "count ?Q g \<ge> 1" "count ?H g \<ge> 1" using hand by simp_all
    moreover have "count (boarding_waiters s) g = count ?Q g + count ?H g" unfolding flight [symmetric] by simp
    ultimately show False using boarding_waiters_once [OF inv, of g] by linarith
  qed
  moreover have "0 < pid ?g" using passengers_inv_nth(1) [OF inv i] by (simp add: info_ok_def)
  ultimately have "recv_boarding_resp (pid ?g) (wrld s) = None"
    using alive by (auto simp: recv_boarding_resp_def k_select_def split: option.split dest: take_first_in take_first_pred)
  moreover have "passengers_waiting (shm (wrld s)) > 0"
  proof -
    have "0 < crowd (hand_infos (d_pc (ds s ! b)))" using b(3) by (cases "d_pc (ds s ! b)") simp_all
    then show ?thesis
      using waiting_covers_driver [OF bi alive waiting_account.balance [OF r calm] b(1)] b(2) by simp
  qed
  ultimately show ?thesis using wait by (simp add: passenger_step_defs)
qed

text \<open>
  C18: A lost request is never made up for. If the request of a passenger reached the queue
  after every ticket office had gone, or is undecided in the hands of an office or a
  driver that was killed, then whatever happens afterwards, the passenger sleeps in its
  receive; and because it stays in the counters, the dispatcher never finds the
  simulation at its end. Only the signals that stop everybody end it.
\<close>

theorem lost_request_strands:
  assumes "reachable c s" and "i < length (ps s)" and "lost_request s (pid (p_info (ps s ! i)))"
    and "(sys_step c)\<^sup>*\<^sup>* s t" and "calm t" and "simulation_running (shm (wrld t))"
  shows "p_pc (ps t ! i) \<in> {P_WaitTicket, P_BoardWait} \<and> passenger_step e (ps t ! i) (wrld t) = None
    \<and> \<not> check_simulation_end (shm (wrld t))"
proof -
  have r: "reachable c t" using reachable_run [OF assms(4,1)] .
  have i: "i < length (ps t)" and "pid (p_info (ps t ! i)) = pid (p_info (ps s ! i))"
    using pid_kept [OF assms(4,1,2)] by simp_all
  with lost_request_run [OF assms(4,3)] have lost: "lost_request t (pid (p_info (ps t ! i)))" by simp
  have alive: "ipc_alive (wrld t)" using assms(5) by (simp add: calm_def)
  show ?thesis
  proof (cases "lost_with_driver t (pid (p_info (ps t ! i)))")
    case True
    from lost_boarding_waits [OF r assms(5) i this, of e] assms(6) show ?thesis by (auto simp: check_simulation_end_def)
  next
    case False
    with lost lost_ticket_waits [OF r alive i, of e] assms(6) show ?thesis
      by (auto simp: lost_request_def check_simulation_end_def)
  qed
qed

text \<open>
  A passenger is in the office when the station closes; both offices drain the queue and
  leave, and then it sends its request. The dispatcher goes round for ever.
\<close>

definition late_request :: "action list" where
  "late_request =
     Spawn 400 20 50 50 50 0 # replicate 5 (Passenger_Moves (at_time 1) 0) @ closing
     @ replicate 4 (Office_Moves (at_time 5) 0) @ replicate 4 (Office_Moves (at_time 5) 1)
     @ [Passenger_Moves (at_time 6) 0]"

definition rounds :: "action list" where
  "rounds = replicate 15 (Dispatcher_Moves (at_time 90))"

theorem lost_request_strands_witness:
  "map o_pc (fs (after late_request)) = [O_Done, O_Done] \<and> length (ticket_q (wrld (after late_request))) = 1
   \<and> passenger_step (at_time 99) (ps (after (late_request @ rounds)) ! 0) (wrld (after (late_request @ rounds))) = None
   \<and> \<not> check_simulation_end (shm (wrld (after (late_request @ rounds))))"
proof -
  have run: "exec_all demo_cfg (late_request @ rounds) demo_start \<noteq> None" by code_simp
  have "map o_pc (fs (after late_request)) = [O_Done, O_Done]" "length (ticket_q (wrld (after late_request))) = 1"
    "0 < length (ps (after late_request))"
    "lost_request (after late_request) (pid (p_info (ps (after late_request) ! 0)))"
    "calm (after (late_request @ rounds))" "simulation_running (shm (wrld (after (late_request @ rounds))))"
    by code_simp+
  with lost_request_strands [OF after_reachable _ _ after_later [OF run], of 0 "at_time 99"] show ?thesis by simp
qed

end
