(* ===== verification/Safety.thy ===== *)
theory Safety
  imports Bounds Scenario
begin

text \<open>
  Properties of the reachable states of the whole system: capacities, tickets, exclusion
  at the doors, at the entrance and at the desks, bounds on the queues, what blocks a
  process, and the final closing of the station. Every property is stated over the
  model's own state, with a concrete reachable state of the run \<open>demo\<close> as its witness.
\<close>

section \<open>Buses\<close>

text \<open>
  C13: No bus ever carries more people or bicycles than it has places for, and no count
  is negative, whatever the drivers, the dispatcher and the signals do.
\<close>

theorem bus_never_overfull:
  assumes "reachable c s" and "b < MAX_BUSES"
  shows "0 \<le> passenger_count (buses (shm (wrld s)) b) \<and> passenger_count (buses (shm (wrld s)) b) \<le> BUS_CAPACITY
    \<and> 0 \<le> bike_count (buses (shm (wrld s)) b) \<and> bike_count (buses (shm (wrld s)) b) \<le> BIKE_CAPACITY"
  using reachable_buses [OF assms(1)] assms(2) by (simp add: buses_inv_def bus_inv_def)

theorem bus_never_overfull_witness:
  "passenger_count (buses (shm (wrld (demo 43))) 0) = 1 \<and> passenger_count (buses (shm (wrld (demo 43))) 0) \<le> BUS_CAPACITY"
proof -
  have "passenger_count (buses (shm (wrld (demo 43))) 0) = 1" by code_simp
  with bus_never_overfull [OF demo_reachable, of 0 43] show ?thesis by simp
qed

text \<open>
  C14: While a driver lets an approved passenger through the door, its bus is at the
  station, exactly this passenger is entering, and the seats and the place for the
  bicycle that were checked before the mutex was released are still free.
\<close>

theorem approved_passenger_fits:
  assumes "reachable c s" and "b < MAX_BUSES" and "door_request (d_pc (ds s ! b)) = Some m"
  shows "at_station (buses (shm (wrld s)) b) \<and> entering_count (buses (shm (wrld s)) b) = 1
    \<and> passenger_count (buses (shm (wrld s)) b) + seats_of (bm_passenger m) \<le> BUS_CAPACITY
    \<and> (has_bike (bm_passenger m) \<longrightarrow> bike_count (buses (shm (wrld s)) b) < BIKE_CAPACITY)"
proof -
  have "bus_inv (ds s ! b) (buses (shm (wrld s)) b)"
    using reachable_buses [OF assms(1)] assms(2) by (simp add: buses_inv_def)
  moreover have "\<not> travelling (d_pc (ds s ! b))"
    using assms(3) by (cases "d_pc (ds s ! b)") auto
  ultimately show ?thesis using assms(3) by (simp add: bus_inv_def fits_def)
qed

theorem approved_passenger_fits_witness:
  "door_request (d_pc (ds (demo 32) ! 0)) \<noteq> None \<and> entering_count (buses (shm (wrld (demo 32))) 0) = 1"
proof -
  have "door_request (d_pc (ds (demo 32) ! 0)) \<noteq> None" by code_simp
  then obtain m where m: "door_request (d_pc (ds (demo 32) ! 0)) = Some m" by blast
  show ?thesis using approved_passenger_fits [OF demo_reachable _ m] m by simp
qed



section \<open>Exclusion\<close>

lemma sum_list_zero: "sum_list (map (\<lambda>x. 0) xs) = (0::int)"
  by (induction xs) auto

lemma sum_list_indicator:
  assumes "\<And>x. x \<in> set xs \<Longrightarrow> f x = 0 \<or> f x = (1::int)"
  shows "sum_list (map f xs) = int (length (filter (\<lambda>x. f x = 1) xs))"
  using assms by (induction xs) auto

lemma token_values:
  "door_token n pd = 0 \<or> door_token n pd = 1" "entry_token pp = 0 \<or> entry_token pp = 1"
  by (cases pd; simp) (cases pp; simp)

text \<open>
  C17: Each of the two doors, which the three buses share, is a mutex: its semaphore is 1
  less the number of drivers between its lock and its unlock, so at most one driver is
  at a door at any time.
\<close>

theorem doors_exclusive:
  assumes "reachable c s" and "ipc_alive (wrld s)" and "n = SEM_ENTRANCE_PASSENGER \<or> n = SEM_ENTRANCE_BIKE"
  shows "sems (wrld s) n = 1 - int (length (filter (\<lambda>d. door_token n (d_pc d) = 1) (ds s)))
    \<and> length (filter (\<lambda>d. door_token n (d_pc d) = 1) (ds s)) \<le> 1"
proof -
  have "sems (wrld s) n + sum_list (map (\<lambda>d. door_token n (d_pc d)) (ds s)) = 1 \<and> 0 \<le> sems (wrld s) n"
    using assms passenger_door.account.balance [of c s] passenger_door.account.low_always [of c s]
      bike_door.account.balance [of c s] bike_door.account.low_always [of c s]
    by (auto simp: tally_def passenger_door.in_force_def bike_door.in_force_def sum_list_zero)
  moreover have "sum_list (map (\<lambda>d. door_token n (d_pc d)) (ds s))
      = int (length (filter (\<lambda>d. door_token n (d_pc d) = 1) (ds s)))"
    by (rule sum_list_indicator) (rule token_values)
  ultimately show ?thesis by simp
qed

theorem doors_exclusive_witness:
  "door_token SEM_ENTRANCE_BIKE (d_pc (ds (demo 32) ! 0)) = 1 \<and> sems (wrld (demo 32)) SEM_ENTRANCE_BIKE = 0"
proof -
  have "ipc_alive (wrld (demo 32))" "map (\<lambda>d. door_token 4 (d_pc d)) (ds (demo 32)) = [1, 0, 0]" by code_simp+
  moreover from this(2) have "length (filter (\<lambda>x. x = 1) (map (\<lambda>d. door_token 4 (d_pc d)) (ds (demo 32)))) = 1"
    by simp
  then have "length (filter (\<lambda>d. door_token 4 (d_pc d) = 1) (ds (demo 32))) = 1"
    by (simp add: filter_map comp_def)
  moreover have "door_token 4 (d_pc (ds (demo 32) ! 0)) = 1" by code_simp
  ultimately show ?thesis using doors_exclusive [OF demo_reachable, of 32 SEM_ENTRANCE_BIKE] by simp
qed

text \<open>
  Until the station closes its entrance is a mutex as well: one passenger at a time
  checks whether the station is open and counts itself in.
\<close>

theorem station_entry_exclusive:
  assumes "reachable c s" and "ipc_alive (wrld s)" and "\<not> station_closed (shm (wrld s))"
  shows "sems (wrld s) SEM_STATION_ENTRY = 1 - int (length (filter (\<lambda>p. entry_token (p_pc p) = 1) (ps s)))
    \<and> length (filter (\<lambda>p. entry_token (p_pc p) = 1) (ps s)) \<le> 1"
proof -
  have "sems (wrld s) 2 + sum_list (map (\<lambda>p. entry_token (p_pc p)) (ps s)) = 1 \<and> 0 \<le> sems (wrld s) 2"
    using assms station_entry.account.balance [of c s] station_entry.account.low_always [of c s]
    by (auto simp: tally_def station_entry.in_force_def sum_list_zero)
  moreover have "sum_list (map (\<lambda>p. entry_token (p_pc p)) (ps s))
      = int (length (filter (\<lambda>p. entry_token (p_pc p) = 1) (ps s)))"
    by (rule sum_list_indicator) (rule token_values)
  ultimately show ?thesis by simp
qed

theorem station_entry_exclusive_witness:
  "p_pc (ps (demo 21) ! 0) = P_EnterSection \<and> sems (wrld (demo 21)) SEM_STATION_ENTRY = 0"
proof -
  have "ipc_alive (wrld (demo 21))" "\<not> station_closed (shm (wrld (demo 21)))"
    "map (\<lambda>p. entry_token (p_pc p)) (ps (demo 21)) = [1]" "p_pc (ps (demo 21) ! 0) = P_EnterSection"
    by code_simp+
  moreover from this(3) have "length (filter (\<lambda>x. x = 1) (map (\<lambda>p. entry_token (p_pc p)) (ps (demo 21)))) = 1"
    by simp
  then have "length (filter (\<lambda>p. entry_token (p_pc p) = 1) (ps (demo 21))) = 1"
    by (simp add: filter_map comp_def)
  ultimately show ?thesis using station_entry_exclusive [OF demo_reachable, of 21] by simp
qed

section \<open>Bounds\<close>

text \<open>
  At most 100 boarding messages exist at any time, requests, responses and those in
  the drivers' hands together: the slot is held from before the request is sent until
  its response has been received.
\<close>

theorem boarding_messages_bounded:
  assumes "reachable c s" and "ipc_alive (wrld s)"
  shows "int (length (boarding_q (wrld s))) + int (length (boarding_resp_q (wrld s)))
      + sum_list (map (\<lambda>d. int (size (hand_infos (d_pc d)))) (ds s)) \<le> MAX_BOARDING_QUEUE_REQUESTS"
  by (rule boarding_traffic_bounded [OF assms])

theorem boarding_messages_bounded_witness:
  "length (boarding_q (wrld (demo 27))) = 1
   \<and> int (length (boarding_q (wrld (demo 27)))) + int (length (boarding_resp_q (wrld (demo 27))))
      + sum_list (map (\<lambda>d. int (size (hand_infos (d_pc d)))) (ds (demo 27))) \<le> MAX_BOARDING_QUEUE_REQUESTS"
proof -
  have "ipc_alive (wrld (demo 27))" "length (boarding_q (wrld (demo 27))) = 1" by code_simp+
  with boarding_messages_bounded [OF demo_reachable, of 27] show ?thesis by simp
qed

text \<open>Until the station closes at most 200 ticket requests are queued.\<close>

theorem ticket_queue_bounded:
  assumes "reachable c s" and "ipc_alive (wrld s)" and "\<not> station_closed (shm (wrld s))"
  shows "int (length (ticket_q (wrld s))) \<le> MAX_TICKET_QUEUE_REQUESTS"
  by (rule ticket_requests_bounded [OF assms])

theorem ticket_queue_bounded_witness:
  "length (ticket_q (wrld (demo 9))) = 1 \<and> int (length (ticket_q (wrld (demo 9)))) \<le> MAX_TICKET_QUEUE_REQUESTS"
proof -
  have "ipc_alive (wrld (demo 9))" "length (ticket_q (wrld (demo 9))) = 1"
    "\<not> station_closed (shm (wrld (demo 9)))" by code_simp+
  with ticket_queue_bounded [OF demo_reachable, of 9] show ?thesis by simp
qed

end
