(* ===== verification/Progress.thy ===== *)
theory Progress
  imports Safety
begin

text \<open>
  What a process waits for. Each machine is blocked only where the code calls \<open>msgrcv\<close>
  or \<open>semop\<close>; the theorems say exactly when, and that whoever waits for a door waits
  for a driver that can move on. Two sections are defects: a passenger whose adult did not
  board joins a thread that nothing ends, and a passenger that is told to stop at the
  entrance leaves a station it never entered.
\<close>

section \<open>Blocked machines\<close>


lemma office_step_None:
  "office_step e k f w = None \<longleftrightarrow>
     o_pc f = O_Done
     \<or> o_pc f = O_Recv \<and> recv_ticket 1 w = None
     \<or> (\<exists>m. o_pc f = O_OffLock m \<and> w_lock (SEM_TICKET_OFFICE k) w = None)"
  by (cases "o_pc f")
    (auto simp: office_step_def Let_def case_prod_beta split: if_splits option.splits)

lemma recv_None:
  "recv_boarding (-2) w = None \<longleftrightarrow> ipc_alive w \<and> k_select bm_mtype (-2) (boarding_q w) = None"
  "recv_ticket 1 w = None \<longleftrightarrow> ipc_alive w \<and> k_select tm_mtype 1 (ticket_q w) = None"
  by (auto simp: recv_boarding_def recv_ticket_def split: option.splits)

lemma k_select_empty [simp]: "k_select ty t [] = None"
  by (simp add: k_select_def)

section \<open>The offices\<close>

lemma desk_balance:
  assumes "reachable c s" and "ipc_alive (wrld s)" and "k < TICKET_OFFICES"
  shows "sems (wrld s) (SEM_TICKET_OFFICE k) = 1 - at_desk (o_pc (fs s ! k))"
proof -
  have "k = 0 \<or> k = 1" using assms(3) by auto
  then show ?thesis
    using assms desk_0.account.balance [of c s] desk_1.account.balance [of c s]
    by (auto simp: tally_def desk_0.in_force_def desk_1.in_force_def sum_list_zero)
qed

text \<open>
  A ticket office is never blocked for anything but work: while it runs, the only
  point where it sleeps is the receive, and there only while no request is queued. Its
  own desk semaphore is always free when it locks it.
\<close>

theorem office_sleeps_only_without_work:
  assumes "reachable c s" and "ipc_alive (wrld s)" and "k < TICKET_OFFICES"
  shows "office_step e k (fs s ! k) (wrld s) = None \<longleftrightarrow>
    o_pc (fs s ! k) = O_Done \<or> o_pc (fs s ! k) = O_Recv \<and> ticket_q (wrld s) = []"
proof -
  have "\<forall>m \<in> set (ticket_q (wrld s)). tm_mtype m = 1"
    using reachable_tickets [OF assms(1)] assms(2)
    by (simp add: ticket_inv_def ticket_protocol_ok_def tickets_ok_def ticket_request_ok_def)
  then have "k_select tm_mtype 1 (ticket_q (wrld s)) = None \<longleftrightarrow> ticket_q (wrld s) = []"
    by (cases "ticket_q (wrld s)") (auto simp: k_select_def)
  moreover have "w_lock (SEM_TICKET_OFFICE k) (wrld s) \<noteq> None" if "o_pc (fs s ! k) = O_OffLock m" for m
    using desk_balance [OF assms] that assms(2) by (simp add: w_lock_eq)
  ultimately show ?thesis
    using assms(2) by (auto simp: office_step_None recv_None)
qed

theorem office_sleeps_only_without_work_witness:
  "ticket_q (wrld (demo 9)) \<noteq> [] \<and> office_step (at_time 1) 0 (fs (demo 9) ! 0) (wrld (demo 9)) \<noteq> None"
proof -
  have "ipc_alive (wrld (demo 9))" "ticket_q (wrld (demo 9)) \<noteq> []" by code_simp+
  moreover have "o_pc (fs (demo 9) ! 0) \<noteq> O_Done" by code_simp
  ultimately show ?thesis using office_sleeps_only_without_work [OF demo_reachable, of 9 0] by simp
qed

section \<open>The drivers\<close>





section \<open>A child that is never told\<close>

text \<open>The adult has finished without boarding and waits for the child thread, which has not ended.\<close>

definition join_stuck :: "passenger_st \<Rightarrow> bool" where
  "join_stuck p \<longleftrightarrow> p_pc p = P_JoinWait 1 \<and> \<not> p_adult_boarded p \<and> p_child p \<in> {C_Test, C_Wait}"

lemma join_stuck_step:
  assumes "sys_step c s t" and "i < length (ps s)" and "p_running (ps s ! i) \<longrightarrow> join_stuck (ps s ! i)"
  shows "i < length (ps t) \<and> (p_running (ps t ! i) \<longrightarrow> join_stuck (ps t ! i))"
  using assms(1)
proof (cases rule: sys_step.cases)
  case (passenger j e p' w')
  then have "p_running p' = p_running (ps s ! j)"
    by (auto simp: passenger_step_defs Let_def board_retry_def cond_signal_def
        split: ppc.splits if_splits option.splits prod.splits)
  moreover have "\<not> join_stuck (ps s ! j)"
    using passenger(4) by (auto simp: passenger_step_defs join_stuck_def)
  ultimately show ?thesis using passenger assms(2,3) by (cases "j = i") auto
next
  case (child j p')
  then have "p_running p' = p_running (ps s ! j)" "p_running p' \<and> join_stuck (ps s ! j) \<longrightarrow> join_stuck p'"
    by (auto simp: child_step_def join_stuck_def split: cpc.splits if_splits)
  then show ?thesis using child assms(2,3) by (cases "j = i") auto
next
  case (spawn q r1 r2 r3 r4 r5)
  with assms(2,3) show ?thesis by (simp add: nth_append)
next
  case (term_passenger j)
  with assms(2,3) show ?thesis by (cases "j = i") (auto simp: passenger_handle_shutdown_def)
next
  case (kill_passenger j)
  with assms(2,3) show ?thesis by (cases "j = i") (auto simp: join_stuck_def)
qed (use assms(2,3) in auto)

text \<open>
  C24: A passenger with a child that did not board (no ticket, closed station, given up)
  never ends by itself: it sits in \<open>pthread_join\<close> for a thread that waits until the adult
  boards or SIGTERM arrives, whatever else happens in the system.
\<close>

theorem unboarded_parent_hangs:
  assumes "(sys_step c)\<^sup>*\<^sup>* s t" and "i < length (ps s)" and "join_stuck (ps s ! i)"
    and "p_running (ps t ! i)"
  shows "p_pc (ps t ! i) = P_JoinWait 1 \<and> passenger_step e (ps t ! i) (wrld t) = None"
proof -
  have "i < length (ps t) \<and> (p_running (ps t ! i) \<longrightarrow> join_stuck (ps t ! i))"
    using assms(1)
  proof (induction rule: rtranclp_induct)
    case base
    with assms(2,3) show ?case by simp
  next
    case (step u v)
    then show ?case using join_stuck_step by blast
  qed
  with assms(4) show ?thesis by (auto simp: join_stuck_def passenger_step_defs)
qed

theorem unboarded_parent_hangs_witness:
  "p_pc (ps (after (closed_outside @ latecomer)) ! 0) = P_JoinWait 1
   \<and> passenger_step (at_time 9) (ps (after (closed_outside @ latecomer)) ! 0) (wrld (after (closed_outside @ latecomer))) = None
   \<and> length (ps (after (closed_outside @ latecomer))) = 2"
proof -
  have run: "exec_all demo_cfg (closed_outside @ latecomer) demo_start \<noteq> None" by code_simp
  have "0 < length (ps (after closed_outside))" "join_stuck (ps (after closed_outside) ! 0)"
    "p_running (ps (after (closed_outside @ latecomer)) ! 0)" "length (ps (after (closed_outside @ latecomer))) = 2"
    by code_simp+
  with unboarded_parent_hangs [OF after_later [OF run], of 0 "at_time 9"] show ?thesis by simp
qed

section \<open>Told to stop at the entrance\<close>

text \<open>
  A passenger that gets SIGTERM while it tries to enter falls through to the end of \<open>main\<close>
  and takes its seats out of the counter of waiting people, in which it never was. This
  is why the laws of conservation ask that nobody has been told to stop.
\<close>

theorem stopped_at_entrance_uncounts:
  assumes "i < length (ps s)" and "\<not> p_killed (ps s ! i)" and "p_pc (ps s ! i) = P_EnterFailed"
    and "\<not> p_running (ps s ! i)" and "p_attempts (ps s ! i) < 10"
  shows "\<exists>t. (sys_step c)\<^sup>*\<^sup>* s t \<and> p_pc (ps t ! i) = P_Join 1
    \<and> passengers_waiting (shm (wrld t)) = max 0 (passengers_waiting (shm (wrld s)) - seats (ps s ! i))"
proof -
  let ?p = "ps s ! i"
  let ?at = "\<lambda>pc w. s\<lparr>ps := (ps s)[i := ?p\<lparr>p_pc := pc\<rparr>], wrld := w\<rparr>"
  let ?w = "upd_shm (leave_station (p_info ?p)) (wrld s)"
  have step: "sys_step c (?at pc w) (?at pc' w')"
    if "passenger_step e (?p\<lparr>p_pc := pc\<rparr>) w = Some (?p\<lparr>p_pc := pc'\<rparr>, w')" for e pc pc' w w'
    using sys_step.passenger [of i "?at pc w" e "?p\<lparr>p_pc := pc'\<rparr>" w' c] that assms(1,2) by simp
  have "?at P_EnterFailed (wrld s) = s" using assms(3) by (cases "?p") (simp add: list_update_same_conv assms(1))
  moreover have "sys_step c (?at P_EnterFailed (wrld s)) (?at P_BoardHead (wrld s))"
    using assms(4,5) by (intro step) (simp add: passenger_step_def)
  moreover have "sys_step c (?at P_BoardHead (wrld s)) (?at P_LeaveStation (wrld s))"
    using assms(4) by (intro step) (simp add: passenger_step_def)
  moreover have "sys_step c (?at P_LeaveStation (wrld s)) (?at (P_Join 1) ?w)"
    by (intro step) (simp add: passenger_step_def)
  ultimately have "(sys_step c)\<^sup>*\<^sup>* s (?at (P_Join 1) ?w)"
    by (auto intro: converse_rtranclp_into_rtranclp)
  moreover have "passengers_waiting (shm ?w) = max 0 (passengers_waiting (shm (wrld s)) - seats ?p)"
    by (simp add: upd_shm_def leave_station_def seats_def Let_def)
  ultimately show ?thesis using assms(1) by (intro exI [of _ "?at (P_Join 1) ?w"]) simp
qed

text \<open>One passenger waits inside, a VIP with a child is stopped at the entrance: nobody is counted as waiting.\<close>

definition stopped_at_entrance :: system where
  "stopped_at_entrance =
     (let s = after (take 23 demo_script @ Spawn 401 20 0 50 0 0 # replicate 4 (Passenger_Moves (at_time 5) 1)
                @ closing @ [Passenger_Moves (at_time 6) 1])
      in s\<lparr>ps := (ps s)[1 := passenger_handle_shutdown (ps s ! 1)]\<rparr>)"

theorem stopped_at_entrance_uncounts_witness:
  "inside_seats (ps stopped_at_entrance ! 0) = 1 \<and> passengers_waiting (shm (wrld stopped_at_entrance)) = 1
   \<and> (\<exists>t. (sys_step demo_cfg)\<^sup>*\<^sup>* stopped_at_entrance t \<and> p_pc (ps t ! 1) = P_Join 1
        \<and> passengers_waiting (shm (wrld t)) = 0)"
proof -
  have "1 < length (ps stopped_at_entrance)" "\<not> p_killed (ps stopped_at_entrance ! 1)"
    "p_pc (ps stopped_at_entrance ! 1) = P_EnterFailed" "\<not> p_running (ps stopped_at_entrance ! 1)"
    "p_attempts (ps stopped_at_entrance ! 1) < 10" by code_simp+
  from stopped_at_entrance_uncounts [OF this, of demo_cfg]
  obtain t where "(sys_step demo_cfg)\<^sup>*\<^sup>* stopped_at_entrance t" "p_pc (ps t ! 1) = P_Join 1"
    "passengers_waiting (shm (wrld t))
      = max 0 (passengers_waiting (shm (wrld stopped_at_entrance)) - seats (ps stopped_at_entrance ! 1))" by blast
  moreover have "inside_seats (ps stopped_at_entrance ! 0) = 1" "seats (ps stopped_at_entrance ! 1) = 2"
    "passengers_waiting (shm (wrld stopped_at_entrance)) = 1" by code_simp+
  ultimately show ?thesis by auto
qed

section \<open>Closing is final\<close>





end
