(* ===== verification/Service.thy ===== *)
theory Service
  imports Progress
begin

text \<open>
  Bounded service at the ticket offices: an office that runs answers every request in the
  queue within a number of its own steps that depends only on the length of the queue,
  whatever the clock and the results of calls are, and even when the station closes.
\<close>

section \<open>An office by itself\<close>

definition office_act :: "nat \<Rightarrow> env_in \<Rightarrow> system \<Rightarrow> system option" where
  "office_act k e s = map_option (\<lambda>(f', w'). s\<lparr>fs := (fs s)[k := f'], wrld := w'\<rparr>) (office_step e k (fs s ! k) (wrld s))"

fun office_run :: "nat \<Rightarrow> env_in list \<Rightarrow> system \<Rightarrow> system option" where
  "office_run k [] s = Some s"
| "office_run k (e # es) s = (case office_act k e s of None \<Rightarrow> None | Some t \<Rightarrow> office_run k es t)"

definition serving :: "office_st \<Rightarrow> bool" where
  "serving f \<longleftrightarrow> o_running f \<and> \<not> o_killed f \<and> o_pc f \<notin> {O_Exit, O_Done}"

text \<open>The request of process q is in the queue or at the desk of office k; its answer is in the queue.\<close>

definition pending_at :: "nat \<Rightarrow> int \<Rightarrow> system \<Rightarrow> bool" where
  "pending_at k q s \<longleftrightarrow> q \<in> ticket_pid ` set (ticket_q (wrld s)) \<or> q \<in># desk_pids (o_pc (fs s ! k))"

definition answered :: "int \<Rightarrow> system \<Rightarrow> bool" where
  "answered q s \<longleftrightarrow> q \<in> tm_mtype ` set (ticket_resp_q (wrld s))"

text \<open>The steps that are left until the office is back at its receive.\<close>

fun rank :: "opc \<Rightarrow> nat" where
  "rank (O_Unlock m) = 9" | "rank (O_Busy m) = 8" | "rank (O_OffLock m) = 7" | "rank (O_Process m) = 6"
| "rank (O_Reply r) = 5" | "rank O_OffUnlock = 4" | "rank O_Free = 3" | "rank O_Start = 3" | "rank O_Loop = 2"
| "rank O_Recv = 1" | "rank O_DrainRecv = 1"
| "rank (O_DrainUnlock m) = 4" | "rank (O_DrainCount m) = 3" | "rank (O_DrainReply r) = 2"
| "rank O_Exit = 0" | "rank O_Done = 0"

definition work_left :: "nat \<Rightarrow> system \<Rightarrow> nat" where
  "work_left k s = 10 * length (ticket_q (wrld s)) + rank (o_pc (fs s ! k))"

lemma first_request:
  assumes "\<forall>m \<in> set q. tm_mtype m = 1" and "q \<noteq> []"
  shows "k_select tm_mtype 1 q = Some (hd q, tl q)"
  using assms by (cases q) (simp_all add: k_select_def)

lemma office_act_serves:
  assumes step: "office_step e k f w = Some (f', w')" and alive: "ipc_alive w" and serving: "serving f"
    and ok: "tickets_ok w" and desk: "desk_ok (o_pc f)"
    and pending: "q \<in> ticket_pid ` set (ticket_q w) \<or> q \<in># desk_pids (o_pc f)"
  shows "q \<in> tm_mtype ` set (ticket_resp_q w')
    \<or> serving f' \<and> (q \<in> ticket_pid ` set (ticket_q w') \<or> q \<in># desk_pids (o_pc f'))
      \<and> 10 * length (ticket_q w') + rank (o_pc f') < 10 * length (ticket_q w) + rank (o_pc f)"
proof -
  have ones: "\<forall>m \<in> set (ticket_q w). tm_mtype m = 1"
    using ok by (simp add: tickets_ok_def ticket_request_ok_def)
  note defs = office_step_def Let_def case_prod_beta serving_def world_simps
  show ?thesis
  proof (cases "o_pc f = O_Recv \<or> o_pc f = O_DrainRecv")
    case True
    with pending have ne: "ticket_q w \<noteq> []" by auto
    with True step first_request [OF ones ne] alive serving pending
    show ?thesis
      by (cases "ticket_q w") (auto simp: defs recv_ticket_def recv_ticket_nowait_def)
  next
    case False
    then show ?thesis
      using step alive serving pending desk
      by (cases "o_pc f")
        (auto simp: defs ticket_request_valid ticket_response_ok_def split: if_splits option.splits)
  qed
qed

lemma office_serves:
  assumes r: "reachable c s" and alive: "ipc_alive (wrld s)" and k: "k < TICKET_OFFICES"
    and serving: "serving (fs s ! k)" and pending: "pending_at k q s"
  shows "\<exists>t. office_act k e s = Some t \<and> sys_step c s t \<and> ipc_alive (wrld t) \<and> ps t = ps s
    \<and> (answered q t \<or> serving (fs t ! k) \<and> pending_at k q t \<and> work_left k t < work_left k s)"
proof -
  have len: "k < length (fs s)" using reachable_flags [OF r] k by (simp add: flags_inv_def)
  have ok: "tickets_ok (wrld s)" "desk_ok (o_pc (fs s ! k))"
    using reachable_tickets [OF r] alive len by (simp_all add: ticket_inv_def ticket_protocol_ok_def)
  have "office_step e k (fs s ! k) (wrld s) \<noteq> None"
    using office_sleeps_only_without_work [OF r alive k, of e] serving pending
    by (auto simp: serving_def pending_at_def)
  then obtain f' w' where step: "office_step e k (fs s ! k) (wrld s) = Some (f', w')" by auto
  let ?t = "s\<lparr>fs := (fs s)[k := f'], wrld := w'\<rparr>"
  have "sys_step c s ?t" using sys_step.office [OF len _ step] serving by (simp add: serving_def)
  moreover have "ipc_alive w'" using office_step_frame [OF step] alive by simp
  moreover note office_act_serves [OF step alive serving ok pending [unfolded pending_at_def]]
  ultimately show ?thesis
    using step len by (intro exI [of _ ?t]) (simp add: office_act_def answered_def pending_at_def work_left_def)
qed

lemma office_run_serves:
  assumes "reachable c s" and "ipc_alive (wrld s)" and k: "k < TICKET_OFFICES"
    and "serving (fs s ! k)" and "pending_at k q s" and "work_left k s \<le> length es"
  shows "\<exists>n t. n \<le> length es \<and> office_run k (take n es) s = Some t \<and> (sys_step c)\<^sup>*\<^sup>* s t
    \<and> ipc_alive (wrld t) \<and> ps t = ps s \<and> answered q t"
  using assms(1,2,4-6)
proof (induction es arbitrary: s)
  case Nil
  then have "rank (o_pc (fs s ! k)) = 0" by (simp add: work_left_def)
  with Nil.prems(3) show ?case by (cases "o_pc (fs s ! k)") (simp_all add: serving_def)
next
  case (Cons e es)
  obtain t where t: "office_act k e s = Some t" "sys_step c s t" "ipc_alive (wrld t)" "ps t = ps s"
    and next_state: "answered q t \<or> serving (fs t ! k) \<and> pending_at k q t \<and> work_left k t < work_left k s"
    using office_serves [OF Cons.prems(1,2) k Cons.prems(3,4)] by blast
  have r: "reachable c t" using Cons.prems(1) t(2) unfolding reachable_def by (rule reach_move)
  show ?case
  proof (cases "answered q t")
    case True
    with t show ?thesis by (intro exI [of _ 1] exI [of _ t]) simp
  next
    case False
    with next_state Cons.prems(5) have "serving (fs t ! k)" "pending_at k q t" "work_left k t \<le> length es" by auto
    from Cons.IH [OF r t(3) this] obtain n u where "n \<le> length es" "office_run k (take n es) t = Some u"
      "(sys_step c)\<^sup>*\<^sup>* t u" "ipc_alive (wrld u)" "ps u = ps t" "answered q u" by blast
    with t show ?thesis
      by (intro exI [of _ "Suc n"] exI [of _ u]) (auto intro: converse_rtranclp_into_rtranclp)
  qed
qed

section \<open>Every request is answered\<close>

text \<open>
  C20: A ticket request in the queue is answered by any one office that runs, within ten of
  its steps for each queued request and nine more, whatever the clock and the calls yield,
  and also when the station has closed meanwhile; then the passenger can go on, with its
  ticket or without. Together with the requests that are lost this says which passengers
  in the office are served.
\<close>

theorem queued_request_served:
  assumes "reachable c s" and "ipc_alive (wrld s)" and "k < TICKET_OFFICES" and "serving (fs s ! k)"
    and "i < length (ps s)" and "p_pc (ps s ! i) = P_WaitTicket" and "pending_at k (pid (p_info (ps s ! i))) s"
    and "10 * length (ticket_q (wrld s)) + 9 \<le> length es"
  shows "\<exists>n t p' w'. n \<le> length es \<and> office_run k (take n es) s = Some t \<and> (sys_step c)\<^sup>*\<^sup>* s t \<and> ps t = ps s
    \<and> passenger_step e (ps t ! i) (wrld t) = Some (p', w') \<and> p_pc p' \<in> {P_CheckClosed, P_LeaveNoTicket}"
proof -
  let ?q = "pid (p_info (ps s ! i))"
  have "rank pc \<le> 9" for pc by (cases pc) simp_all
  then have "work_left k s \<le> length es"
    using assms(8) by (auto simp: work_left_def intro: order_trans [OF add_left_mono])
  from office_run_serves [OF assms(1-4,7) this] obtain n t where
    run: "n \<le> length es" "office_run k (take n es) s = Some t" "(sys_step c)\<^sup>*\<^sup>* s t" "ps t = ps s"
    and alive: "ipc_alive (wrld t)" and ans: "answered ?q t" by blast
  obtain r where r: "r \<in> set (ticket_resp_q (wrld t))" "tm_mtype r = ?q" using ans by (auto simp: answered_def)
  have "0 < ?q"
    using reachable_tickets [OF assms(1)] assms(5) passengers_inv_nth(1) by (auto simp: ticket_inv_def info_ok_def)
  with k_select_none_pos [of tm_mtype ?q "ticket_resp_q (wrld t)" r] r
  obtain m q' where "k_select tm_mtype ?q (ticket_resp_q (wrld t)) = Some (m, q')"
    by (cases "k_select tm_mtype ?q (ticket_resp_q (wrld t))") auto
  then have "\<exists>p' w'. passenger_step e (ps t ! i) (wrld t) = Some (p', w') \<and> p_pc p' \<in> {P_CheckClosed, P_LeaveNoTicket}"
    using alive assms(6) run(4) by (auto simp: passenger_step_defs recv_ticket_resp_def Let_def)
  with run show ?thesis by blast
qed

theorem queued_request_served_witness:
  "length (ticket_q (wrld (demo 9))) = 1
   \<and> (\<exists>n t p' w'. n \<le> 19 \<and> office_run 0 (take n (replicate 19 (at_time 7))) (demo 9) = Some t
        \<and> (sys_step demo_cfg)\<^sup>*\<^sup>* (demo 9) t \<and> ps t = ps (demo 9)
        \<and> passenger_step (at_time 8) (ps t ! 0) (wrld t) = Some (p', w') \<and> p_pc p' \<in> {P_CheckClosed, P_LeaveNoTicket})"
proof -
  have "ipc_alive (wrld (demo 9))" "serving (fs (demo 9) ! 0)" "0 < length (ps (demo 9))"
    "p_pc (ps (demo 9) ! 0) = P_WaitTicket" "pending_at 0 (pid (p_info (ps (demo 9) ! 0))) (demo 9)"
    "length (ticket_q (wrld (demo 9))) = 1" by code_simp+
  with queued_request_served [OF demo_reachable, of 9 0 0 "replicate 19 (at_time 7)" "at_time 8"] show ?thesis by simp
qed

end
