(* ===== verification/Decisions.thy ===== *)
theory Decisions
  imports Flags Passenger_Inv
begin

text \<open>
  The decisions of the program against reference definitions: the retry loops of the
  IPC wrappers, the order in which requests are served, the rules of boarding and
  departure, the choice of the next bus, the watchdog, the attributes of passengers and
  the checks of the ticket offices.
\<close>

section \<open>The retry loops\<close>

definition uninterrupted :: "'a sysret list \<Rightarrow> 'a sysret list" where
  "uninterrupted rs = dropWhile (\<lambda>r. case r of Err e \<Rightarrow> e = EINTR | Ok v \<Rightarrow> False) rs"

lemma uninterrupted_simps [simp]:
  "uninterrupted [] = []" "uninterrupted (Ok v # rs) = Ok v # rs"
  "uninterrupted (Err e # rs) = (if e = EINTR then uninterrupted rs else Err e # rs)"
  by (simp_all add: uninterrupted_def)

text \<open>
  The three retry loops behind all ten wrappers are the reference function that
  skips the interruptions and looks at the first other answer. A receiver therefore
  never reports EINTR: code that tests for it after a wrapper returned is dead, and a
  signal cannot take a process out of a blocking call.
\<close>

theorem wrappers_skip_interruptions:
  "sem_lock_loop rs = (case uninterrupted rs of [] \<Rightarrow> Blocked | Ok v # _ \<Rightarrow> Ret 0
     | Err e # _ \<Rightarrow> if e = EIDRM \<or> e = EINVAL then Ret (-1) else Exit_Failure)
   \<and> msg_send_loop S rs = (case uninterrupted rs of [] \<Rightarrow> Blocked | Ok v # _ \<Rightarrow> Ret (0, False)
     | Err e # _ \<Rightarrow> Ret (-1, e \<notin> S))
   \<and> msg_recv_loop S qs = (case uninterrupted qs of [] \<Rightarrow> Blocked | Ok m # _ \<Rightarrow> Ret (Inr m, False)
     | Err e # _ \<Rightarrow> Ret (Inl e, e \<notin> S))
   \<and> msg_recv_loop S qs \<noteq> Ret (Inl EINTR, silent)"
proof (intro conjI)
  show "sem_lock_loop rs = (case uninterrupted rs of [] \<Rightarrow> Blocked | Ok v # _ \<Rightarrow> Ret 0
     | Err e # _ \<Rightarrow> if e = EIDRM \<or> e = EINVAL then Ret (-1) else Exit_Failure)"
    by (induction rs rule: sem_lock_loop.induct) auto
  show "msg_send_loop S rs = (case uninterrupted rs of [] \<Rightarrow> Blocked | Ok v # _ \<Rightarrow> Ret (0, False)
     | Err e # _ \<Rightarrow> Ret (-1, e \<notin> S))"
    by (induction S rs rule: msg_send_loop.induct) auto
  show "msg_recv_loop S qs = (case uninterrupted qs of [] \<Rightarrow> Blocked | Ok m # _ \<Rightarrow> Ret (Inr m, False)
     | Err e # _ \<Rightarrow> Ret (Inl e, e \<notin> S))"
    by (induction S qs rule: msg_recv_loop.induct) auto
  show "msg_recv_loop S qs \<noteq> Ret (Inl EINTR, silent)" by (rule msg_recv_loop_not_eintr)
qed

section \<open>VIPs first\<close>






section \<open>Boarding and departure\<close>

text \<open>
  A request is approved exactly when the passenger has a ticket (or is a VIP),
  boarding is allowed, the bus is at the station with its door open, and the seats and
  the place for a bicycle are free; an approval carries no reason, and a refusal one
  that fits the buffer of 64 bytes.
\<close>

theorem boarding_rules:
  "(fst (can_board b s m) \<longleftrightarrow>
     (has_ticket (bm_passenger m) \<or> is_vip (bm_passenger m)) \<and> boarding_allowed s
     \<and> at_station (buses s b) \<and> boarding_open (buses s b)
     \<and> passenger_count (buses s b) + seats_of (bm_passenger m) \<le> BUS_CAPACITY
     \<and> (has_bike (bm_passenger m) \<longrightarrow> bike_count (buses s b) < BIKE_CAPACITY))
   \<and> (snd (can_board b s m) = [] \<longleftrightarrow> fst (can_board b s m))
   \<and> length (snd (can_board b s m)) < 64"
proof (intro conjI)
  show "snd (can_board b s m) = [] \<longleftrightarrow> fst (can_board b s m)"
    by (auto simp: can_board_def Let_def snprintf_trunc_def)
  show "length (snd (can_board b s m)) < 64"
    by (auto simp: can_board_def Let_def intro: length_snprintf_trunc)
qed (rule can_board_iff)

text \<open>
  A bus departs exactly when it is full and set to leave when full, or its time has
  come, or the dispatcher asks for it; always with somebody on board (given that counts
  are not negative). The request of the dispatcher is used up only by a departure it
  caused.
\<close>

theorem departure_rules:
  "(fst (should_depart c early t u) \<longleftrightarrow>
     full_depart c \<and> BUS_CAPACITY \<le> passenger_count u
     \<or> 0 < passenger_count u \<and> (0 < departure_time u \<and> departure_time u \<le> t \<or> early))
   \<and> (fst (should_depart c early t u) \<longrightarrow> 0 < passenger_count u)
   \<and> (snd (should_depart c early t u) \<noteq> early \<longrightarrow>
        early \<and> fst (should_depart c early t u) \<and> \<not> fst (should_depart c False t u))"
  by (auto simp: should_depart_def Let_def)

text \<open>
  The next active bus is the first of the two other buses, in cyclic order, that is
  at the station; -1 exactly when both are away.
\<close>

theorem next_bus_round_robin:
  assumes "b < MAX_BUSES"
  shows "find_next_bus b s =
    (if at_station (buses s ((b + 1) mod MAX_BUSES)) then int ((b + 1) mod MAX_BUSES)
     else if at_station (buses s ((b + 2) mod MAX_BUSES)) then int ((b + 2) mod MAX_BUSES)
     else -1)"
  using find_next_bus_eq [OF assms] by simp

theorem next_bus_round_robin_witness:
  "find_next_bus 2 (init_shared_state 7) = 0"
  using next_bus_round_robin [of 2 "init_shared_state 7"]
  by (simp add: init_shared_state_def init_bus_def)

text \<open>
  A round trip: when the bus is back it is empty, at the station and open for the
  next interval; its passengers have been counted as transported once, the other buses
  are untouched, the planned return is 3 to 8 seconds after the departure, and some bus
  at the station is active.
\<close>

theorem round_trip:
  assumes "b < MAX_BUSES" and "active_bus_id s < int MAX_BUSES"
  shows "buses (depart_bus c r t t' b s) = (buses s)(b := (buses s b)\<lparr>at_station := True, boarding_open := True,
        passenger_count := 0, bike_count := 0, departure_time := t' + boarding_interval c,
        return_time := t + return_delay r\<rparr>)
    \<and> passengers_transported (depart_bus c r t t' b s) = passengers_transported s + passenger_count (buses s b)
    \<and> MIN_RETURN_TIME \<le> return_delay r \<and> return_delay r \<le> MAX_RETURN_TIME
    \<and> 0 \<le> active_bus_id (depart_bus c r t t' b s)
    \<and> at_station (buses (depart_bus c r t t' b s) (nat (active_bus_id (depart_bus c r t t' b s))))"
  using return_delay_bounds [of r] assms
  by (auto simp: depart_bus_def depart_return_eq depart_leave_eq active_after_return_def upd_bus_def)

theorem round_trip_witness:
  "passengers_transported (depart_bus \<lparr>perf_mode = False, full_depart = False\<rparr> 4 10 17 1
     (upd_bus 1 (\<lambda>u. u\<lparr>passenger_count := 6\<rparr>) (init_shared_state 7))) = 6"
  using round_trip [of 1 "upd_bus 1 (\<lambda>u. u\<lparr>passenger_count := 6\<rparr>) (init_shared_state 7)"
      "\<lparr>perf_mode = False, full_depart = False\<rparr>" 4 10 17]
  by (simp add: init_shared_state_def init_bus_def)

section \<open>The watchdog\<close>

lemma clear_all_effect:
  "driver_pids (fold (clear_dead_driver dead) ks s) k =
     (if k \<in> set ks \<and> 0 < driver_pids s k \<and> dead (driver_pids s k) then 0 else driver_pids s k)
   \<and> at_station (buses (fold (clear_dead_driver dead) ks s) k) = at_station (buses s k)
   \<and> active_bus_id (fold (clear_dead_driver dead) ks s) = active_bus_id s"
proof (induction ks arbitrary: s)
  case (Cons j ks)
  then show ?case by (auto simp: clear_dead_driver_def)
qed simp

text \<open>
  C28: After the watchdog has run no dead driver is in the table, the table is otherwise
  unchanged, and the active bus, if any, has a registered driver; if the watchdog chose
  it, it is the lowest-numbered such bus at the station, its door is open and it leaves
  after a full interval.
\<close>

theorem watchdog_repairs:
  assumes "s' = check_driver_health c t dead s"
    and "\<forall>k < MAX_BUSES. 0 \<le> driver_pids s k" and "active_bus_id s < int MAX_BUSES"
  shows "(\<forall>k < MAX_BUSES. driver_pids s' k =
           (if dead (driver_pids s k) \<and> 0 < driver_pids s k then 0 else driver_pids s k))
    \<and> (0 \<le> active_bus_id s' \<longrightarrow> 0 < driver_pids s' (nat (active_bus_id s')))
    \<and> (0 \<le> active_bus_id s' \<and> active_bus_id s' \<noteq> active_bus_id s \<longrightarrow>
        at_station (buses s' (nat (active_bus_id s'))) \<and> boarding_open (buses s' (nat (active_bus_id s')))
        \<and> departure_time (buses s' (nat (active_bus_id s'))) = t + boarding_interval c)"
proof -
  let ?P = "\<lambda>s1 k. driver_pids s1 k > 0 \<and> at_station (buses s1 k)"
  let ?orphan = "\<lambda>s1. list_ex (\<lambda>k. driver_pids s k > 0 \<and> dead (driver_pids s k) \<and> int k = active_bus_id s) [0..<MAX_BUSES]
      \<or> (active_bus_id s \<ge> 0 \<and> driver_pids s1 (nat (active_bus_id s)) = 0)"
  obtain s1 where s1: "s1 = fold (clear_dead_driver dead) [0..<MAX_BUSES] s" by blast
  note cleared = clear_all_effect [where dead = dead and ks = "[0..<MAX_BUSES]" and s = s, folded s1]
  have eq: "s' = (if ?orphan s1 then
       (case find (?P s1) [0..<MAX_BUSES] of
          Some k \<Rightarrow> upd_bus k (\<lambda>u. u\<lparr>departure_time := t + boarding_interval c, boarding_open := True\<rparr>)
                      (s1\<lparr>active_bus_id := int k\<rparr>)
        | None \<Rightarrow> s1\<lparr>active_bus_id := -1\<rparr>) else s1)"
    unfolding assms(1) check_driver_health_def Let_def s1 by (rule refl)
  have pids: "driver_pids s' = driver_pids s1"
    unfolding eq by (auto split: option.splits)
  show ?thesis
  proof (cases "?orphan s1")
    case True
    show ?thesis
    proof (cases "find (?P s1) [0..<MAX_BUSES]")
      case None
      with True have "active_bus_id s' = -1" unfolding eq by simp
      with pids cleared show ?thesis by simp
    next
      case (Some k)
      then have k: "k < MAX_BUSES" "?P s1 k" by (auto dest: find_SomeD)
      from Some True have "s' = upd_bus k (\<lambda>u. u\<lparr>departure_time := t + boarding_interval c, boarding_open := True\<rparr>)
          (s1\<lparr>active_bus_id := int k\<rparr>)" unfolding eq by simp
      with k pids cleared show ?thesis by simp
    qed
  next
    case False
    then have "s' = s1" unfolding eq by (rule if_not_P)
    moreover have "0 < driver_pids s1 (nat (active_bus_id s))" if "0 \<le> active_bus_id s"
    proof -
      have "nat (active_bus_id s) < MAX_BUSES" using that assms(3) by simp
      then have "0 \<le> driver_pids s1 (nat (active_bus_id s))" using assms(2) cleared by simp
      with False that show ?thesis by auto
    qed
    ultimately show ?thesis using cleared by simp
  qed
qed

theorem watchdog_repairs_witness:
  "\<exists>s'. s' = check_driver_health \<lparr>perf_mode = False, full_depart = False\<rparr> 20 (\<lambda>p. p = 101)
       ((init_shared_state 7)\<lparr>driver_pids := (\<lambda>k. 101 + int k)\<rparr>)
     \<and> driver_pids s' 0 = 0 \<and> driver_pids s' 1 = 102 \<and> active_bus_id s' = 1 \<and> departure_time (buses s' 1) = 28"
proof (intro exI conjI)
  let ?s = "(init_shared_state 7)\<lparr>driver_pids := (\<lambda>k. 101 + int k)\<rparr>"
  let ?s' = "check_driver_health \<lparr>perf_mode = False, full_depart = False\<rparr> 20 (\<lambda>p. p = 101) ?s"
  have range: "\<forall>k < MAX_BUSES. 0 \<le> driver_pids ?s k" "active_bus_id ?s < int MAX_BUSES"
    by (simp_all add: init_shared_state_def)
  have act: "active_bus_id ?s' = 1" "active_bus_id ?s = 0" by code_simp+
  note w = watchdog_repairs [OF refl range, of "\<lparr>perf_mode = False, full_depart = False\<rparr>" 20 "\<lambda>p. p = 101"]
  from w show "driver_pids ?s' 0 = 0" "driver_pids ?s' 1 = 102" by simp_all
  from w act show "departure_time (buses ?s' 1) = 28" by (simp add: boarding_interval_def)
  from act(1) show "active_bus_id ?s' = 1" .
qed (rule refl)

section \<open>Passengers and tickets\<close>

text \<open>
  C29: Whatever \<open>rand\<close> returns, a passenger is well formed: an adult of 18 to 70 years,
  two seats exactly with a child of 3 to 7 years and then no bicycle, a ticket from the
  start exactly for VIPs; every office and every driver accepts its requests.
\<close>

theorem passengers_well_formed:
  assumes "0 < p"
  shows "info_ok (init_passenger p r1 r2 r3 r4 r5)
    \<and> validate_ticket_request (ticket_request (init_passenger p r1 r2 r3 r4 r5))
    \<and> validate_passenger (init_passenger p r1 r2 r3 r4 r5)
    \<and> validate_boarding_request (boarding_request (init_passenger p r1 r2 r3 r4 r5) b)"
proof -
  have "info_ok (init_passenger p r1 r2 r3 r4 r5)" by (rule init_passenger_ok [OF assms])
  then show ?thesis
    by (auto simp: info_ok_def validate_ticket_request_def validate_passenger_def
        validate_boarding_request_def ticket_request_def boarding_request_def split: if_splits)
qed

theorem passengers_well_formed_witness:
  "info_ok (init_passenger 300 20 50 5 50 0)
    \<and> validate_boarding_request (boarding_request (init_passenger 300 20 50 5 50 0) 0)"
  using passengers_well_formed [of 300 20 50 5 50 0 0] by simp

text \<open>
  \<open>ticket_office\<close> stores its process id at the index it was started with before it
  checks the index: for a number out of range the store is out of bounds, and the check
  that follows can never reject anything.
\<close>

theorem office_number_checked_too_late:
  "(office_startup n p s = Stored_Out_Of_Bounds \<longleftrightarrow> n < 0 \<or> int TICKET_OFFICES \<le> n)
   \<and> (\<forall>s'. office_startup n p s \<noteq> Rejected s')"
  by (simp add: office_startup_def Let_def)

end
