(* ===== verification/Solo_Runs.thy ===== *)
theory Solo_Runs
  imports Decisions Progress
begin

text \<open>
  The machines against the functions as the source writes them: when no other process
  moves in between, the steps of a driver, of an office and of a passenger are the
  sequential functions \<open>process_boarding_request\<close>, \<open>depart_bus\<close>,
  \<open>process_ticket_request\<close> and \<open>drain_queue_on_close\<close>.
\<close>

section \<open>Running one process alone\<close>

text \<open>One environment input per step; no result when the process blocks or has ended.\<close>

fun solo :: "(env_in \<Rightarrow> 'p \<Rightarrow> world \<Rightarrow> ('p \<times> world) option) \<Rightarrow> env_in list \<Rightarrow> 'p \<Rightarrow> world \<Rightarrow> ('p \<times> world) option" where
  "solo step [] p w = Some (p, w)"
| "solo step (e # es) p w = (case step e p w of None \<Rightarrow> None | Some (p', w') \<Rightarrow> solo step es p' w')"

lemma solo_append:
  "solo step (es @ es') p w = (case solo step es p w of None \<Rightarrow> None | Some (p', w') \<Rightarrow> solo step es' p' w')"
  by (induction es arbitrary: p w) (auto split: option.split)

section \<open>The driver\<close>

lemma boarding_check_refused:
  "\<not> fst (can_board b s m) \<Longrightarrow> snd (boarding_check b m s) = s \<and> \<not> bm_approved (fst (boarding_check b m s))"
  by (simp add: boarding_check_def case_prod_beta Let_def)





text \<open>
  C26: \<open>wait_for_entrance_clear\<close> ends at once and the departure goes through: a driver
  that has decided to depart finds nobody entering its bus and, undisturbed, is back after
  three more steps with exactly the effect of \<open>depart_bus\<close>.
\<close>

theorem departure_completes:
  assumes "reachable c s" and "b < MAX_BUSES" and "d_pc (ds s ! b) = D_DepartWait fin"
  shows "solo (\<lambda>e. driver_step c e b) [e1, e2, e3] (ds s ! b) (wrld s) =
    Some ((ds s ! b)\<lparr>d_pc := (if fin then D_Exit else D_Loop)\<rparr>,
          upd_shm (depart_bus c (rnd e2) (now e2) (now e3) b) (wrld s))"
proof -
  have "entering_count (buses (shm (wrld s)) b) = 0"
    using reachable_buses [OF assms(1)] assms(2,3) by (simp add: buses_inv_def bus_inv_def)
  then show ?thesis
    using assms(3) by (simp add: driver_step_def wait_for_entrance_clear_def depart_bus_def upd_shm_def)
qed

text \<open>The bus of the run on its way: the driver has switched the active bus.\<close>

theorem departure_completes_witness:
  "d_pc (ds (demo 41) ! 0) = D_DepartWait False
   \<and> solo (\<lambda>e. driver_step demo_cfg e 0) [at_time 9, at_time 9, at_time 14] (ds (demo 41) ! 0) (wrld (demo 41)) \<noteq> None"
proof -
  have "d_pc (ds (demo 41) ! 0) = D_DepartWait False" by code_simp
  with departure_completes [OF demo_reachable _ this] show ?thesis by simp
qed

section \<open>The ticket office\<close>

lemma drain_round:
  assumes "o_pc f = O_DrainRecv" and "recv_ticket_nowait MSG_TICKET_REQUEST w = (Some m, w')"
  shows "solo (\<lambda>e. office_step e k) [e, e, e, e] f w = Some (f, drain_one k m w')"
  using assms by (cases f) (simp add: office_step_def drain_one_def case_prod_beta Let_def)

text \<open>
  An undisturbed office that drains the queue at closing runs exactly
  \<open>drain_queue_on_close\<close>: it reaches its exit after finitely many steps and never sleeps.
\<close>

theorem drain_is_sequential:
  assumes "o_pc f = O_DrainRecv"
  shows "\<exists>es. solo (\<lambda>e. office_step e k) es f w = Some (f\<lparr>o_pc := O_Exit\<rparr>, drain_queue_on_close k w)"
proof (induction k w rule: drain_queue_on_close.induct)
  case (1 k w)
  obtain r w' where recv: "recv_ticket_nowait MSG_TICKET_REQUEST w = (r, w')" by fastforce
  show ?case
  proof (cases r)
    case None
    with recv assms have "solo (\<lambda>e. office_step e k) [undefined] f w = Some (f\<lparr>o_pc := O_Exit\<rparr>, w')"
      by (simp add: office_step_def)
    then show ?thesis
      by (intro exI [of _ "[undefined]"]) (simp add: drain_queue_on_close.simps [of k w] recv [simplified] None del: solo.simps)
  next
    case (Some m)
    with recv "1.IH" [OF recv [symmetric]]
    obtain es where "solo (\<lambda>e. office_step e k) es f (drain_one k m w')
        = Some (f\<lparr>o_pc := O_Exit\<rparr>, drain_queue_on_close k (drain_one k m w'))" by auto
    moreover have "solo (\<lambda>e. office_step e k) [undefined, undefined, undefined, undefined] f w
        = Some (f, drain_one k m w')"
      using recv Some by (intro drain_round [OF assms]) simp
    ultimately have "solo (\<lambda>e. office_step e k) ([undefined, undefined, undefined, undefined] @ es) f w
        = Some (f\<lparr>o_pc := O_Exit\<rparr>, drain_queue_on_close k w)"
      unfolding solo_append drain_queue_on_close.simps [of k w] using recv Some by simp
    then show ?thesis by blast
  qed
qed

theorem drain_is_sequential_witness:
  "\<exists>es. solo (\<lambda>e. office_step e 1) es ((init_office 7)\<lparr>o_pc := O_DrainRecv\<rparr>) (init_world 5)
     = Some (((init_office 7)\<lparr>o_pc := O_DrainRecv\<rparr>)\<lparr>o_pc := O_Exit\<rparr>, drain_queue_on_close 1 (init_world 5))"
  by (rule drain_is_sequential) simp

text \<open>
  The drain leaves no request behind: every queued request is answered, in order,
  with a denial addressed to its passenger; each is counted as denied and as having left
  the office, and gives its slot back. Nothing else changes.
\<close>

theorem drain_denies_everybody:
  assumes "ipc_alive w" and "\<forall>m \<in> set (ticket_q w). tm_mtype m = MSG_TICKET_REQUEST"
    and "0 \<le> sems w SEM_TICKET_QUEUE_SLOTS"
    and "sems w SEM_TICKET_QUEUE_SLOTS + int (length (ticket_q w)) \<le> SEMVMX"
  shows "drain_queue_on_close k w =
    w\<lparr>shm := (shm w)\<lparr>passengers_in_office := passengers_in_office (shm w) - int (length (ticket_q w)),
                 tickets_denied := tickets_denied (shm w) + int (length (ticket_q w))\<rparr>,
      sems := (sems w)(SEM_TICKET_QUEUE_SLOTS := sems w SEM_TICKET_QUEUE_SLOTS + int (length (ticket_q w))),
      ticket_q := [], ticket_resp_q := ticket_resp_q w @ map (ticket_response k) (ticket_q w)\<rparr>"
  using assms
proof (induction "ticket_q w" arbitrary: w)
  case Nil
  then have "recv_ticket_nowait 1 w = (None, w)"
    by (simp add: recv_ticket_nowait_def recv_ticket_def k_select_def)
  with Nil.hyps show ?case by (subst drain_queue_on_close.simps) simp
next
  case (Cons m q)
  have "recv_ticket_nowait 1 w = (Some m, w\<lparr>ticket_q := q\<rparr>)"
    using Cons.prems(1,2) by (simp add: recv_ticket_nowait_def recv_ticket_def k_select_def flip: Cons.hyps(2))
  moreover have "drain_one k m (w\<lparr>ticket_q := q\<rparr>) =
      w\<lparr>shm := drain_count (shm w), sems := (sems w)(9 := sems w 9 + 1), ticket_q := q,
        ticket_resp_q := ticket_resp_q w @ [ticket_response k m]\<rparr>" (is "_ = ?w1")
    using Cons.prems arg_cong [OF Cons.hyps(2), of length]
    by (simp add: drain_one_def w_unlock_eq upd_shm_def send_ticket_resp_def)
  ultimately have "drain_queue_on_close k w = drain_queue_on_close k ?w1"
    by (subst drain_queue_on_close.simps) simp
  also have "\<dots> = ?w1\<lparr>shm := (shm ?w1)\<lparr>passengers_in_office := passengers_in_office (shm ?w1) - int (length q),
                 tickets_denied := tickets_denied (shm ?w1) + int (length q)\<rparr>,
      sems := (sems ?w1)(9 := sems ?w1 9 + int (length q)),
      ticket_q := [], ticket_resp_q := ticket_resp_q ?w1 @ map (ticket_response k) q\<rparr>"
    using Cons.hyps(1) [of ?w1] Cons.prems Cons.hyps(2) [symmetric] by simp
  also have "\<dots> = w\<lparr>shm := (shm w)\<lparr>passengers_in_office := passengers_in_office (shm w) - int (length (m # q)),
                 tickets_denied := tickets_denied (shm w) + int (length (m # q))\<rparr>,
      sems := (sems w)(9 := sems w 9 + int (length (m # q))),
      ticket_q := [], ticket_resp_q := ticket_resp_q w @ map (ticket_response k) (m # q)\<rparr>"
    by (simp add: drain_count_def algebra_simps)
  finally show ?case by (simp only: Cons.hyps(2) [symmetric]) simp
qed

theorem drain_denies_everybody_witness:
  "tickets_denied (shm (drain_queue_on_close 0 (wrld (demo 9)))) = 1
   \<and> ticket_q (drain_queue_on_close 0 (wrld (demo 9))) = []"
proof -
  have "ipc_alive (wrld (demo 9))" "length (ticket_q (wrld (demo 9))) = 1"
    "list_all (\<lambda>m. tm_mtype m = MSG_TICKET_REQUEST) (ticket_q (wrld (demo 9)))"
    "sems (wrld (demo 9)) SEM_TICKET_QUEUE_SLOTS = 199" "tickets_denied (shm (wrld (demo 9))) = 0" by code_simp+
  with drain_denies_everybody [of "wrld (demo 9)" 0] show ?thesis by (simp add: list_all_iff)
qed

end
