(* ===== verification/Logging.thy ===== *)
theory Logging
  imports Ipc CString
begin

text \<open>
  The logging layer of src/logging.c: the modes read once from the environment, the
  bounded attempt to lock a log file, the lines that go to the files and to standard
  output, and the buffers they are cut to. The message is the text that \<open>printf\<close> would
  produce from format and arguments, the time stamps and the answers of the system are
  arguments.
\<close>

section \<open>Levels and modes\<close>

datatype log_level = LOG_INFO | LOG_WARN | LOG_ERROR | LOG_DEBUG

datatype log_mode = LOG_MODE_VERBOSE | LOG_MODE_SUMMARY | LOG_MODE_MINIMAL

text \<open>The order of the C enumeration, by which levels are compared.\<close>

fun level_rank :: "log_level \<Rightarrow> nat" where
  "level_rank LOG_INFO = 0" | "level_rank LOG_WARN = 1" | "level_rank LOG_ERROR = 2"
| "level_rank LOG_DEBUG = 3"

instantiation log_level :: linorder
begin

definition less_eq_log_level :: "log_level \<Rightarrow> log_level \<Rightarrow> bool" where
  "less_eq_log_level a b \<longleftrightarrow> level_rank a \<le> level_rank b"

definition less_log_level :: "log_level \<Rightarrow> log_level \<Rightarrow> bool" where
  "less_log_level a b \<longleftrightarrow> level_rank a < level_rank b"

instance
proof
  fix a b :: log_level
  assume "a \<le> b" "b \<le> a"
  then show "a = b" by (cases a; cases b) (simp_all add: less_eq_log_level_def)
qed (auto simp: less_eq_log_level_def less_log_level_def)

end

definition level_to_string :: "log_level \<Rightarrow> string" where
  "level_to_string l = (case l of LOG_INFO \<Rightarrow> ''INFO'' | LOG_WARN \<Rightarrow> ''WARN'' | LOG_ERROR \<Rightarrow> ''ERROR''
     | LOG_DEBUG \<Rightarrow> ''DEBUG'')"

record log_globals =
  g_log_mode :: log_mode
  g_log_mode_initialized :: bool
  g_perf_mode :: bool
  g_perf_mode_initialized :: bool


type_synonym environ = "string \<Rightarrow> string option"

definition init_log_mode_from_env_once :: "environ \<Rightarrow> log_globals \<Rightarrow> log_globals" where
  "init_log_mode_from_env_once env g =
     (if g_log_mode_initialized g then g
      else let g = g\<lparr>g_log_mode_initialized := True\<rparr> in
        case env ''BUS_LOG_MODE'' of
          None \<Rightarrow> g
        | Some mode \<Rightarrow>
            if mode = ''summary'' then g\<lparr>g_log_mode := LOG_MODE_SUMMARY\<rparr>
            else if mode = ''minimal'' then g\<lparr>g_log_mode := LOG_MODE_MINIMAL\<rparr>
            else g\<lparr>g_log_mode := LOG_MODE_VERBOSE\<rparr>)"

definition init_perf_mode_from_env_once :: "environ \<Rightarrow> log_globals \<Rightarrow> log_globals" where
  "init_perf_mode_from_env_once env g =
     (if g_perf_mode_initialized g then g
      else let g = g\<lparr>g_perf_mode_initialized := True\<rparr> in
        g\<lparr>g_perf_mode := (case env ''BUS_PERF_MODE'' of None \<Rightarrow> False
            | Some p \<Rightarrow> p = ''1'' \<or> strcasecmp_eq p ''true'' \<or> strcasecmp_eq p ''yes'')\<rparr>)"

definition log_is_perf_mode :: "environ \<Rightarrow> log_globals \<Rightarrow> bool \<times> log_globals" where
  "log_is_perf_mode env g = (let g' = init_perf_mode_from_env_once env g in (g_perf_mode g', g'))"

section \<open>Writing one line\<close>

definition FLOCK_RETRIES :: nat where "FLOCK_RETRIES = 25"
definition MAX_LOG_LINE :: nat where "MAX_LOG_LINE = 512"

text \<open>
  The loop around \<open>flock\<close>: whether the lock was obtained, and how often the process slept
  for 2 ms. \<open>EWOULDBLOCK\<close> is \<open>EAGAIN\<close>.
\<close>

fun flock_loop :: "nat \<Rightarrow> unit sysret list \<Rightarrow> (bool \<times> nat) ret" where
  "flock_loop retries [] = Blocked"
| "flock_loop retries (Ok _ # rs) = Ret (True, 0)"
| "flock_loop retries (Err e # rs) =
     (if e = EINTR then flock_loop retries rs
      else if e = EAGAIN \<and> retries > 0
      then (case flock_loop (retries - 1) rs of Ret (got, naps) \<Rightarrow> Ret (got, naps + 1) | r \<Rightarrow> r)
      else Ret (False, 0))"

text \<open>The log files are the lists of their lines.\<close>

definition write_log_entry ::
  "bool \<Rightarrow> unit sysret list \<Rightarrow> string \<Rightarrow> string \<Rightarrow> (string \<Rightarrow> string list) \<Rightarrow> (string \<Rightarrow> string list) ret" where
  "write_log_entry fopen_ok rs filename entry files =
     (if \<not> fopen_ok then Ret files
      else case flock_loop FLOCK_RETRIES rs of
        Ret (got, naps) \<Rightarrow> Ret (if got then files(filename := files filename @ [entry]) else files)
      | Exit_Failure \<Rightarrow> Exit_Failure
      | Blocked \<Rightarrow> Blocked)"

section \<open>Events\<close>

definition log_init :: "bool \<Rightarrow> bool \<Rightarrow> environ \<Rightarrow> log_globals \<Rightarrow> int \<times> log_globals" where
  "log_init mkdir_ok dir_exists env g =
     (if \<not> mkdir_ok \<and> \<not> dir_exists then (-1, g) else (0, init_log_mode_from_env_once env g))"

definition stamped :: "string \<Rightarrow> log_level \<Rightarrow> int \<Rightarrow> string \<Rightarrow> string" where
  "stamped ts l p msg =
     snprintf_trunc (MAX_LOG_LINE + 64)
       (''['' @ ts @ ''] ['' @ level_to_string l @ ''] PID='' @ show_int p @ '': '' @ msg)"

datatype log_action = Append_To string string | Print_Line string

text \<open>What goes to standard output in a mode.\<close>

definition print_to_stdout :: "log_mode \<Rightarrow> log_level \<Rightarrow> bool" where
  "print_to_stdout m l =
     (if m = LOG_MODE_VERBOSE then True
      else if m = LOG_MODE_SUMMARY \<and> l \<ge> LOG_WARN then True
      else if m = LOG_MODE_MINIMAL \<and> l \<ge> LOG_ERROR then True else False)"

text \<open>
  \<open>log_event\<close>: \<open>debug\<close> says whether the program was compiled with \<open>DEBUG\<close>; \<open>text\<close> is the
  formatted message.
\<close>

definition log_event ::
  "bool \<Rightarrow> environ \<Rightarrow> string \<Rightarrow> int \<Rightarrow> string \<Rightarrow> log_level \<Rightarrow> string \<Rightarrow> log_globals \<Rightarrow> log_action list \<times> log_globals" where
  "log_event debug env ts p filename l txt g =
     (let g = init_log_mode_from_env_once env g in
      if \<not> debug \<and> l = LOG_DEBUG then ([], g)
      else
        let message = snprintf_trunc MAX_LOG_LINE txt;
            entry = stamped ts l p message
        in (Append_To filename entry # (if print_to_stdout (g_log_mode g) l then [Print_Line entry] else []), g))"

definition LOG_MASTER :: string where "LOG_MASTER = ''logs/master.log''"
definition LOG_DISPATCHER :: string where "LOG_DISPATCHER = ''logs/dispatcher.log''"
definition LOG_TICKET_OFFICE :: string where "LOG_TICKET_OFFICE = ''logs/ticket_office.log''"
definition LOG_PASSENGER :: string where "LOG_PASSENGER = ''logs/passenger.log''"
definition LOG_STATS :: string where "LOG_STATS = ''logs/stats.log''"

definition log_master ::
  "bool \<Rightarrow> environ \<Rightarrow> string \<Rightarrow> int \<Rightarrow> log_level \<Rightarrow> string \<Rightarrow> log_globals \<Rightarrow> log_action list \<times> log_globals" where
  "log_master debug env ts p l txt g =
     (let g = init_log_mode_from_env_once env g; message = snprintf_trunc MAX_LOG_LINE txt
      in log_event debug env ts p LOG_MASTER l message g)"

text \<open>
  The four component loggers have the same body: the event goes to the component's file
  with a prefix, and a second line with a time stamp of its own to the master log.
\<close>

definition log_component ::
  "string \<Rightarrow> string \<Rightarrow> bool \<Rightarrow> environ \<Rightarrow> string \<Rightarrow> string \<Rightarrow> int \<Rightarrow> log_level \<Rightarrow> string \<Rightarrow> log_globals \<Rightarrow> log_action list \<times> log_globals" where
  "log_component filename prefix debug env ts ts' p l txt g =
     (let message = snprintf_trunc MAX_LOG_LINE txt;
          (acts, g') = log_event debug env ts p filename l (prefix @ message) g
      in (acts @ [Append_To LOG_MASTER (stamped ts' l p (prefix @ message))], g'))"

definition log_dispatcher ::
  "bool \<Rightarrow> environ \<Rightarrow> string \<Rightarrow> string \<Rightarrow> int \<Rightarrow> log_level \<Rightarrow> string \<Rightarrow> log_globals \<Rightarrow> log_action list \<times> log_globals" where
  "log_dispatcher debug env ts ts' p l txt g =
     log_component LOG_DISPATCHER ''[DISPATCHER] '' debug env ts ts' p l txt (init_log_mode_from_env_once env g)"

definition log_ticket_office ::
  "bool \<Rightarrow> environ \<Rightarrow> string \<Rightarrow> string \<Rightarrow> int \<Rightarrow> log_level \<Rightarrow> string \<Rightarrow> log_globals \<Rightarrow> log_action list \<times> log_globals" where
  "log_ticket_office = log_component LOG_TICKET_OFFICE ''[TICKET_OFFICE] ''"


definition log_passenger ::
  "bool \<Rightarrow> environ \<Rightarrow> string \<Rightarrow> string \<Rightarrow> int \<Rightarrow> log_level \<Rightarrow> string \<Rightarrow> log_globals \<Rightarrow> log_action list \<times> log_globals" where
  "log_passenger = log_component LOG_PASSENGER ''[PASSENGER] ''"

definition log_stats :: "string \<Rightarrow> string \<Rightarrow> log_action list" where
  "log_stats ts txt =
     [Append_To LOG_STATS (snprintf_trunc (MAX_LOG_LINE + 64) (''['' @ ts @ ''] '' @ snprintf_trunc MAX_LOG_LINE txt))]"

section \<open>The lock is tried for a bounded time\<close>

text \<open>
  A process never waits long for a log file. Whatever \<open>flock\<close> answers, it sleeps at
  most 25 times; the loop goes on only while all answers were interruptions or at most 25
  refusals, and otherwise it ends, with the lock or without.
\<close>

theorem log_lock_gives_up:
  "(flock_loop n rs = Blocked \<longleftrightarrow>
      (\<forall>r \<in> set rs. r = Err EINTR \<or> r = Err EAGAIN) \<and> count_list rs (Err EAGAIN) \<le> n)
   \<and> (flock_loop n rs = Blocked \<or> (\<exists>got naps. flock_loop n rs = Ret (got, naps) \<and> naps \<le> n))"
proof (induction n rs rule: flock_loop.induct)
  case (3 retries e rs)
  consider "e = EINTR" | "e = EAGAIN" "retries > 0" | "e = EAGAIN" "retries = 0" | "e \<noteq> EINTR" "e \<noteq> EAGAIN"
    by auto
  then show ?case
  proof cases
    case 1
    with 3 show ?thesis by auto
  next
    case 2
    with 3 show ?thesis by (auto split: ret.splits prod.splits)
  qed auto
qed auto

theorem log_lock_gives_up_witness:
  "flock_loop FLOCK_RETRIES (replicate 30 (Err EAGAIN)) \<noteq> Blocked"
proof -
  have "count_list (replicate 30 (Err EAGAIN :: unit sysret)) (Err EAGAIN) = 30" by code_simp
  with log_lock_gives_up [of FLOCK_RETRIES "replicate 30 (Err EAGAIN)"] show ?thesis
    by (simp add: FLOCK_RETRIES_def)
qed

section \<open>The buffers\<close>







section \<open>The modes\<close>

text \<open>The environment is read once; what it says later does not matter.\<close>

lemma log_modes_read_once:
  "init_log_mode_from_env_once env' (init_log_mode_from_env_once env g) = init_log_mode_from_env_once env g"
  "init_perf_mode_from_env_once env' (init_perf_mode_from_env_once env g) = init_perf_mode_from_env_once env g"
  by (auto simp: init_log_mode_from_env_once_def init_perf_mode_from_env_once_def Let_def split: option.splits)

end
