(* ===== verification/Spec2Isabelle.thy ===== *)
theory Spec2Isabelle
  imports Reports Main_Run Mutex_Sections Message_Bytes Blocked_Queues Stranded Service Solo_Runs Logging
begin

text \<open>
  City bus: a simulation of a suburban bus station by processes that share a memory
  segment, semaphores and message queues (System V IPC). \<open>main\<close> starts a dispatcher, two
  ticket offices and three drivers and creates passengers; passengers buy a ticket, enter
  the station and ask the driver of the active bus for a seat; the dispatcher watches
  over the drivers, closes the station on a signal and ends the simulation.

  \<^bold>\<open>How the program is modelled.\<close> The shared state is the record \<open>shm_data_t\<close> of
  include/common.h; with the semaphore values and the four message queues it makes up a
  \<open>world\<close>. Every stretch of code between \<open>sem_lock(SEM_SHM_MUTEX)\<close> and its unlock is one
  function on \<open>shm_data_t\<close> (a critical section). A process is a record with a program
  counter and its globals, and a function \<open>..._step\<close> that performs its next section or
  system call and has no result while the process sleeps. \<open>System.sys_step\<close> interleaves any
  number of passengers with the drivers, offices, the dispatcher, signals, the death of
  processes at any point between two sections, and the actions of \<open>main\<close>; a state is
  \<open>reachable\<close> from the state after initialisation. Everything that is decided outside the
  program (clock, random numbers, success of calls, answers of the kernel) is an argument.

  \<^bold>\<open>Theories and source files.\<close>
  \<^item> Prelude: sums, first match, reachability, the locale \<open>inductive_invariant\<close>.
  \<^item> Common: config.h and common.h. CString: the string functions of C.
  \<^item> Ipc: the wrappers of src/ipc.c as retry loops over the answers of the kernel, and their
    net effect on a world; the locale \<open>message_channel\<close>, interpreted for the four queues.
    Ipc_Setup: creation, attachment and removal of the objects.
  \<^item> Driver, Ticket_Office, Passenger, Dispatcher: the four programs, each with its decisions,
    sections and machine, and a case rule \<open>..._stepE\<close> that lists its steps by their effect.
  \<^item> Main_Process: the functions of src/main.c and the rounds of its loops. Test_Scripts: its
    \<open>run_test\<close> as the list of what a script does. Main_Run: the function \<open>main\<close> as a whole, with
    its early returns. Logging: src/logging.c. Reports: what src/dispatcher.c prints.
  \<^item> System: the composition. Bus_Safety, Flags, Passenger_Inv, Boarding_Protocol,
    Ticket_Protocol: inductive invariants, each an interpretation of \<open>inductive_invariant\<close>.
  \<^item> Accounts: the locale \<open>ledger\<close> (a quantity of the world plus what each process holds is
    constant). Semaphores: its extension \<open>token_semaphore\<close> with one interpretation for each
    semaphore. Books, Waiting, Conservation: the interpretations for the people counters.
  \<^item> Lifecycle: the abstract station and the refinement. Bounds: exclusion and queue bounds.
  \<^item> Mutex_Sections: the sections as single loads and stores of any number of processes with
    their mutex (locale \<open>serial_sections\<close>). Message_Bytes: the sizes of the messages and the
    byte limit of a queue. Blocked_Queues: the system in which \<open>main\<close> blocks the queues and
    the scripts of the tests 6 to 8 open them again, and its reduction to \<open>System\<close>. Stranded:
    requests that nobody can answer any more. Service: bounded service of all others at the
    ticket offices.
  \<^item> Scenario: an executable scheduler and the runs that serve as witnesses.
  \<^item> Safety, Progress, Statistics, Decisions, Solo_Runs and this theory: the properties.

  \<^bold>\<open>What is shown.\<close> Conservation: nobody is lost or counted twice while no passenger has
  been told to stop and the objects exist (\<open>calm\<close>). Protocols: who waits for an answer is
  owed exactly one. Safety: capacities, tickets, mutual exclusion at the doors and the
  entrance, bounded queues, the finality of closing. Progress: what each process sleeps
  for, and which passengers are never woken. Statistics: what the figures of the program mean, with the cases in which they are
  wrong. Equivalence: the machines run the sequential functions of the source when
  undisturbed, and the sections are serializable, which is why one function each is enough.
  Set-up, process table, command line and logging: all-or-nothing creation,
  exact bookkeeping, termination of the waits, round trips. Main and its scripts: nobody is
  left behind on any way out, the objects are removed, the scripts take back what they did.

  \<^bold>\<open>Bounds and fuel.\<close> No function needs fuel: loops over answers of the system recurse on the
  list of answers and yield \<open>Blocked\<close> or \<open>None\<close> when the list ends; the drain loop has a
  measure. Counters are integers: by the conservation laws the people counters partition the
  people created, so no \<open>int\<close> wraps before 2^31 people.

  \<^bold>\<open>Not modelled.\<close> In \<open>System\<close> a send never sleeps: Message_Bytes shows that the requests and
  the boarding responses fit the default limit of a queue, but ticket responses, and the
  requests of test 11, which raises the slots, are not bounded in this way. The death of a
  process inside a section is treated in Mutex_Sections (it stops everybody) and not in
  \<open>System\<close>. Left out are the slots of test 11 in the running system and queues opened again
  after the station has closed; failures of \<open>ipc_attach_all\<close> in the children; the layout of
  printed text (reports are labels with their figures); the pauses inside the processes of
  the system. \<open>Main_Run\<close> takes what \<open>main\<close> sees of the others as an argument; its
  effects on the shared state are the actions of \<open>main\<close> in \<open>System\<close>.
\<close>

section \<open>Conservation\<close>

lemma demo_calm: "calm (demo 43)" "calm (demo 35)" "calm (demo 32)" "calm (demo 27)"
  "calm (demo 17)" "calm (demo 11)" "calm (demo 9)"
  by code_simp+

text \<open>
  C1: While the IPC objects exist and no passenger has been told to stop, everybody who
  has been counted as created is in exactly one of the other books: on the way through
  the ticket office and the entrance, waiting inside, boarded, or gone. Nobody is lost
  or counted twice, for every interleaving of all processes, signals and deaths.
\<close>

theorem people_conserved:
  assumes "reachable c s" and "calm s"
  shows "total_passengers_created (shm (wrld s)) = sum_list (map pending_seats (ps s))
    + passengers_waiting (shm (wrld s)) + boarded_people (shm (wrld s))
    + passengers_left_early (shm (wrld s))"
  by (rule created_balance [OF assms])

theorem people_conserved_witness:
  "total_passengers_created (shm (wrld (demo 35))) = 1
   \<and> 1 = sum_list (map pending_seats (ps (demo 35))) + passengers_waiting (shm (wrld (demo 35)))
    + boarded_people (shm (wrld (demo 35))) + passengers_left_early (shm (wrld (demo 35)))"
proof -
  have "total_passengers_created (shm (wrld (demo 35))) = 1" by code_simp
  with people_conserved [OF demo_reachable demo_calm(2)] show ?thesis by simp
qed

text \<open>
  C3: Until the dispatcher's shutdown, the people who have boarded are those the counter
  of transported people has and those on a bus at the station; a travelling bus is
  counted once although its passenger count stays until it is back.
\<close>

theorem boarded_people_transported:
  assumes "reachable c s" and "simulation_running (shm (wrld s))"
  shows "boarded_people (shm (wrld s)) = passengers_transported (shm (wrld s))
    + riders_at_station (buses (shm (wrld s)))"
  by (rule boarded_balance [OF assms])

theorem boarded_people_transported_witness:
  "passengers_transported (shm (wrld (demo 43))) = 1 \<and> passenger_count (buses (shm (wrld (demo 43))) 0) = 1
   \<and> boarded_people (shm (wrld (demo 43))) = passengers_transported (shm (wrld (demo 43)))
      + riders_at_station (buses (shm (wrld (demo 43))))"
proof -
  have "simulation_running (shm (wrld (demo 43)))" by code_simp
  moreover have "passengers_transported (shm (wrld (demo 43))) = 1"
    "passenger_count (buses (shm (wrld (demo 43))) 0) = 1" by code_simp+
  ultimately show ?thesis using boarded_people_transported [OF demo_reachable] by blast
qed



section \<open>Refinement\<close>



text \<open>
  C9: A party that is aboard or gone has settled: no later step of the system changes
  its stage or its size.
\<close>

theorem settled_party_final:
  assumes "reachable c s" and "(sys_step c)\<^sup>*\<^sup>* s t" and "calm t"
    and "i < length (ps s)" and "stage (ps s ! i) \<in> {Aboard, Gone}"
  shows "i < length (ps t) \<and> stage (ps t ! i) = stage (ps s ! i) \<and> seats (ps t ! i) = seats (ps s ! i)"
proof -
  have "station_move\<^sup>*\<^sup>* (parties s) (parties t)" by (rule system_refines_star [OF assms(2,1,3)])
  from settled_star [OF this, of i] assms(4,5) show ?thesis
    by (auto simp: parties_def party_def)
qed

theorem settled_party_final_witness:
  "stage (ps (demo 37) ! 0) = Aboard \<and> stage (ps (demo 43) ! 0) = stage (ps (demo 37) ! 0)"
proof -
  have "0 < length (ps (demo 37))" "stage (ps (demo 37) ! 0) = Aboard" by code_simp+
  with settled_party_final [OF demo_reachable demo_later [of 37 6, simplified] demo_calm(1), of 0] show ?thesis by simp
qed

section \<open>Protocols\<close>

text \<open>
  C4: The passengers that wait for an answer about boarding are exactly the ones on a
  request or response in the queues or in the hands of a driver. No request is lost,
  duplicated or answered twice, and no passenger waits for an answer nobody owes.
\<close>

theorem boarding_answers_owed:
  assumes "reachable c s" and "ipc_alive (wrld s)"
  shows "in_flight s = boarding_waiters s"
  using reachable_boarding [OF assms(1)] assms(2) by (simp add: boarding_inv_def protocol_ok_def)

theorem boarding_answers_owed_witness:
  "size (boarding_waiters (demo 27)) = 1 \<and> in_flight (demo 27) = boarding_waiters (demo 27)"
proof -
  have "ipc_alive (wrld (demo 27))" "map board_waiting (ps (demo 27)) = [{#p_info (ps (demo 27) ! 0)#}]"
    by code_simp+
  with boarding_answers_owed [OF demo_reachable] show ?thesis by (simp add: boarding_waiters_def)
qed



text \<open>
  C6: The same for tickets: the process ids that wait for an answer from an office are
  exactly those on a request or response in the queues or at a desk.
\<close>

theorem ticket_answers_owed:
  assumes "reachable c s" and "ipc_alive (wrld s)"
  shows "tickets_in_flight s = ticket_waiters s"
  using reachable_tickets [OF assms(1)] assms(2) by (simp add: ticket_inv_def ticket_protocol_ok_def)

theorem ticket_answers_owed_witness:
  "ticket_waiters (demo 9) = {#300#} \<and> tickets_in_flight (demo 9) = ticket_waiters (demo 9)"
proof -
  have "ipc_alive (wrld (demo 9))" "map ticket_waiting (ps (demo 9)) = [{#300#}]" by code_simp+
  with ticket_answers_owed [OF demo_reachable] show ?thesis by (simp add: ticket_waiters_def)
qed



end
